theory Spec2Isabelle
  imports Complex_Main "HOL-Library.Word" "HOL-Library.Signed_Division" "HOL-Library.Log_Nat"
begin

unbundle bit_operations_syntax

chapter \<open>The time discipline core of FTS: a shallow embedding of the C sources\<close>

section \<open>Machine integers\<close>

text \<open>
  The C integer types are words of their width. A word carries no sign: \<open>int64_t\<close> and
  \<open>uint64_t\<close> are both \<open>64 word\<close>, and the signedness of the C operation is the choice of
  the HOL operation: \<open><\<close>, \<open>\<le>\<close>, \<open>div\<close> and \<open>mod\<close> are the unsigned ones, \<open><s\<close> and
  \<open>\<le>s\<close> the signed comparisons, \<open>sint\<close> and \<open>uint\<close> read a word as a signed or an unsigned
  integer. A conversion between \<open>int64_t\<close> and \<open>uint64_t\<close> leaves the bits as they are;
  \<open>ucast\<close> widens an unsigned value or truncates to a narrower type.

  Addition, subtraction and multiplication wrap around. For the unsigned types that is
  C's rule. Signed overflow is undefined in C; the theorems whose truth depends on the
  absence of signed overflow state it as a hypothesis.
\<close>

type_synonym i64 = "64 word"
type_synonym u64 = "64 word"
type_synonym i32 = "32 word"
type_synonym u32 = "32 word"
type_synonym u16 = "16 word"
type_synonym u8 = "8 word"

section \<open>Counter unwrapping (clock.c)\<close>

text \<open>
  \<open>unwrap_state_t\<close> of clock.h, and \<open>clock_unwrap\<close> of clock.c. The function updates the
  state through a pointer; the model returns the unwrapped value together with the new
  state. \<open>val < state->last_val\<close> compares two \<open>int64_t\<close>; \<open>state->wrap_value2 > 0\<close> is
  unsigned; \<open>(int64_t)state->wrap_value2\<close> keeps the bits and the comparison with it is
  signed.
\<close>

record unwrap_state =
  last_val :: i64
  offset :: i64
  wrap_count :: u32
  wrap_value :: u64
  wrap_value2 :: u64

definition clock_unwrap :: "i64 \<Rightarrow> unwrap_state \<Rightarrow> i64 \<times> unwrap_state" where
  "clock_unwrap val st =
     (let st1 =
        (if last_val st \<noteq> 0 \<and> val <s last_val st
         then (let st' = st\<lparr>wrap_count := wrap_count st + 1\<rparr>
               in if 0 < wrap_value2 st' \<and> last_val st' <s wrap_value2 st'
                  then st'\<lparr>offset := offset st' + wrap_value2 st'\<rparr>
                  else st'\<lparr>offset := offset st' + wrap_value st'\<rparr>)
         else st);
          st2 = st1\<lparr>last_val := val\<rparr>
      in (val + offset st2, st2))"

text \<open>
  Successive calls on the same state, as the loop of \<open>process_ftm_report\<close> (ftm.c) and the
  repeated calls of \<open>clock_get_us\<close> make them: the list of the returned values and the
  final state.
\<close>

fun unwrap_all :: "i64 list \<Rightarrow> unwrap_state \<Rightarrow> i64 list \<times> unwrap_state" where
  "unwrap_all [] st = ([], st)"
| "unwrap_all (x # xs) st =
     (let (y, st1) = clock_unwrap x st;
          (ys, st2) = unwrap_all xs st1
      in (y # ys, st2))"

text \<open>
  The wrap constants of ftm.c and the initializer \<open>{0, 0, 0, wrap, wrap2}\<close> that ftm.c and
  clock.c use for every unwrap state.
\<close>

definition WRAP_48BIT :: u64 where
  "WRAP_48BIT = push_bit 48 1"

definition WRAP_32BIT_1E6 :: u64 where
  "WRAP_32BIT_1E6 = push_bit 32 1 * 1000000"

definition WRAP2_T1_T4 :: u64 where
  "WRAP2_T1_T4 = WRAP_32BIT_1E6 mod WRAP_48BIT"

definition MAC_CLOCK_WRAP_US :: u64 where
  "MAC_CLOCK_WRAP_US = push_bit 32 1"

definition unwrap_init :: "u64 \<Rightarrow> u64 \<Rightarrow> unwrap_state" where
  "unwrap_init w w2 =
     \<lparr>last_val = 0, offset = 0, wrap_count = 0, wrap_value = w, wrap_value2 = w2\<rparr>"

section \<open>DTR: the disciplined timer (dtr.h, dtr.c)\<close>

subsection \<open>Constants of dtr.h\<close>

text \<open>
  \<open>DTR_TIMER_RESOLUTION_HZ\<close> is written \<open>40000000ULL\<close>, so every constant derived from it
  is an \<open>unsigned long long\<close>, and C converts the other operand of an arithmetic or
  comparison operator to \<open>unsigned long long\<close> as well. \<open>FP16_SCALE\<close> is the plain \<open>int\<close>
  65536 and takes the width of the other operand.
\<close>

definition DTR_TIMER_RESOLUTION_HZ :: u64 where
  "DTR_TIMER_RESOLUTION_HZ = 40000000"

definition TIMER_TICKS_PER_US :: u64 where
  "TIMER_TICKS_PER_US = DTR_TIMER_RESOLUTION_HZ div 1000000"

definition DTR_TIMER_PERIOD_TICKS :: u64 where
  "DTR_TIMER_PERIOD_TICKS = 500 * TIMER_TICKS_PER_US"

definition DTR_PS_PER_TICK :: u64 where
  "DTR_PS_PER_TICK = 1000000000000 div DTR_TIMER_RESOLUTION_HZ"

definition FP16_SCALE :: "'a::len word" where
  "FP16_SCALE = 65536"

definition DTR_MAC_TIMER_ALIGNMENT_MAX_SAMPLES :: nat where
  "DTR_MAC_TIMER_ALIGNMENT_MAX_SAMPLES = 100000"

text \<open>
  Signed 64-bit division, truncating towards zero as C's \<open>/\<close> does on \<open>int64_t\<close>.
\<close>

definition sdiv64 :: "i64 \<Rightarrow> i64 \<Rightarrow> i64" where
  "sdiv64 a b = word_of_int (sint a sdiv sint b)"

definition DTR_COMPENSATION_NS :: i32 where
  "DTR_COMPENSATION_NS = - 200"

text \<open>
  \<open>DTR_NS_TO_TICKS(ns) = (int32_t)((ns) * (int64_t)TIMER_TICKS_PER_US / 1000)\<close>: the
  \<open>int\<close> argument is sign-extended to 64 bits, the product and the quotient are signed.
\<close>

definition DTR_NS_TO_TICKS :: "i32 \<Rightarrow> i32" where
  "DTR_NS_TO_TICKS ns = ucast (sdiv64 (scast ns * TIMER_TICKS_PER_US) 1000)"

text \<open>
  \<open>DTR_MIN_PERIOD_TICKS\<close> is
  \<open>(CONFIG_FTS_MIN_PERIOD_CPU_CYCLES * DTR_TIMER_RESOLUTION_HZ) /
    (CONFIG_ESP_DEFAULT_CPU_FREQ_MHZ * 1000000)\<close>.
  The two \<open>CONFIG_\<close> constants come from the build configuration, which is not among
  the sources; they are the parameters here. The value is an \<open>unsigned long long\<close>. The
  comment in dtr.h names 5000 cycles at 240 MHz, which gives 833 ticks.
\<close>

definition DTR_MIN_PERIOD_TICKS :: "i32 \<Rightarrow> i32 \<Rightarrow> u64" where
  "DTR_MIN_PERIOD_TICKS cpu_cycles cpu_freq_mhz =
     (scast cpu_cycles * DTR_TIMER_RESOLUTION_HZ) div scast (cpu_freq_mhz * 1000000)"

subsection \<open>State\<close>

datatype dtr_mode_t = DTR_MODE_MASTER | DTR_MODE_SLAVE

datatype dtr_state_t = DTR_STATE_NOT_STARTED | DTR_STATE_RUNNING | DTR_STATE_ALIGNED

record align_request_t =
  pending :: bool
  aligned_local_ticks :: i64
  aligned_cycle_counter :: i64
  aligned_base_period_fp16 :: i64

record align_feedback_t =
  ready :: bool
  fb_cycle_counter :: i64
  fb_cycle_delta :: i32
  fb_period_ticks :: i32
  fb_period_ticks_delta :: i32

text \<open>
  The build configuration the DTR code depends on: the value of \<open>DTR_MIN_PERIOD_TICKS\<close>
  and whether \<open>CONFIG_FTS_ROLE_SLAVE\<close> is defined.
\<close>

record dtr_config =
  min_period_ticks :: u64
  role_slave :: bool

text \<open>
  The static variables of dtr.c. The last four fields record what the code does to its
  environment: the period last written with \<open>mcpwm_timer_set_period\<close>, whether the
  generator output is forced low, the tasks notified with \<open>xTaskNotifyFromISR\<close> and the
  arguments of the calls of the application callback, oldest first.
\<close>

record dtr =
  s_mode :: dtr_mode_t
  s_state :: dtr_state_t
  cycle_counter :: i64
  active_period_ticks :: u16
  shadow_period_ticks :: u16
  timer_base_ticks :: i64
  period_ticks :: i64
  base_period_fp16 :: u32
  period_ticks_frac_acc :: i32
  s_align_request :: align_request_t
  s_align_feedback :: align_feedback_t
  s_tez_listener_task :: "nat option"
  s_app_callback :: bool
  hw_timer_period :: u16
  hw_gpio_forced_low :: bool
  tez_notifications :: "nat list"
  app_callback_calls :: "u32 list"

datatype dtr_error =
    Abort_period_out_of_range
  | Abort_timer_already_started
  | Assert_feedback_not_ready
  | Assert_feedback_ready
  | Assert_timer_before_mac
  | Assert_min_le_max
  | Roll_forward_never_ends
  | Mac_clock_never_advances

text \<open>The state after the static initializers and \<open>dtr_init\<close>.\<close>

definition dtr_init :: "dtr_config \<Rightarrow> dtr_mode_t \<Rightarrow> bool \<Rightarrow> dtr" where
  "dtr_init cfg mode callback =
     \<lparr>s_mode = mode,
      s_state = DTR_STATE_NOT_STARTED,
      cycle_counter = - 1,
      active_period_ticks = 0,
      shadow_period_ticks = ucast DTR_TIMER_PERIOD_TICKS,
      timer_base_ticks = 0,
      period_ticks = DTR_TIMER_PERIOD_TICKS,
      base_period_fp16 = ucast DTR_TIMER_PERIOD_TICKS * FP16_SCALE,
      period_ticks_frac_acc = 0,
      s_align_request = \<lparr>pending = False, aligned_local_ticks = 0,
                           aligned_cycle_counter = 0, aligned_base_period_fp16 = 0\<rparr>,
      s_align_feedback = \<lparr>ready = False, fb_cycle_counter = 0, fb_cycle_delta = 0,
                            fb_period_ticks = 0, fb_period_ticks_delta = 0\<rparr>,
      s_tez_listener_task = None,
      s_app_callback = callback,
      hw_timer_period = ucast DTR_TIMER_PERIOD_TICKS,
      hw_gpio_forced_low = role_slave cfg,
      tez_notifications = [],
      app_callback_calls = []\<rparr>"

subsection \<open>The TEZ interrupt handler\<close>

text \<open>
  The roll-forward loop of the alignment branch,
  \<open>while (period_ticks < DTR_MIN_PERIOD_TICKS) { ... cycle_counter++; }\<close>,
  on the three variables it changes. The comparison is unsigned, because
  \<open>DTR_MIN_PERIOD_TICKS\<close> is an \<open>unsigned long long\<close>. \<open>base_period_fp16\<close> is a
  \<open>uint32_t\<close>, so its quotient and remainder by \<open>FP16_SCALE\<close> are unsigned;
  \<open>period_ticks_frac_acc >= FP16_SCALE\<close> compares two signed 32-bit values. The loop
  need not end (a zero \<open>base_period_fp16\<close> never moves \<open>period_ticks\<close>): not returning is
  the value \<open>None\<close>.
\<close>

partial_function (option) roll_forward ::
  "u64 \<Rightarrow> u32 \<Rightarrow> i64 \<Rightarrow> i32 \<Rightarrow> i64 \<Rightarrow> (i64 \<times> i32 \<times> i64) option" where
  "roll_forward min_ticks base p acc cyc =
     (if p < min_ticks
      then (let p1 = p + ucast (base div FP16_SCALE);
                acc1 = acc + base mod FP16_SCALE
            in if FP16_SCALE \<le>s acc1
               then roll_forward min_ticks base (p1 + 1) (acc1 - FP16_SCALE) (cyc + 1)
               else roll_forward min_ticks base p1 acc1 (cyc + 1))
      else Some (p, acc, cyc))"

text \<open>
  The branch \<open>if (s_align_request.pending)\<close>, entered after the common beginning. The
  assignment \<open>base_period_fp16 = s_align_request.aligned_base_period_fp16\<close> truncates an
  \<open>int64_t\<close> to a \<open>uint32_t\<close>; the feedback fields are \<open>int32_t\<close>.
\<close>

definition tez_apply_alignment :: "dtr_config \<Rightarrow> dtr \<Rightarrow> dtr_error + dtr" where
  "tez_apply_alignment cfg s =
     (let req = s_align_request s;
          old_cycle_counter = cycle_counter s;
          old_period_ticks = period_ticks s;
          base = (ucast (aligned_base_period_fp16 req) :: u32)
      in case roll_forward (min_period_ticks cfg) base
                (aligned_local_ticks req - timer_base_ticks s) 0 (aligned_cycle_counter req) of
           None \<Rightarrow> Inl Roll_forward_never_ends
         | Some (p, acc, cyc) \<Rightarrow>
             if ready (s_align_feedback s) then Inl Assert_feedback_ready
             else Inr (s\<lparr>cycle_counter := cyc,
                         period_ticks := p,
                         base_period_fp16 := base,
                         period_ticks_frac_acc := acc,
                         s_align_request := req\<lparr>pending := False\<rparr>,
                         s_align_feedback :=
                           \<lparr>ready = True,
                            fb_cycle_counter = cyc,
                            fb_cycle_delta = ucast (cyc - old_cycle_counter),
                            fb_period_ticks = ucast p,
                            fb_period_ticks_delta = ucast (p - old_period_ticks)\<rparr>,
                         s_state := (if s_state s = DTR_STATE_RUNNING
                                     then DTR_STATE_ALIGNED else s_state s),
                         hw_gpio_forced_low :=
                           (if s_state s = DTR_STATE_RUNNING \<and> role_slave cfg
                            then False else hw_gpio_forced_low s)\<rparr>))"

text \<open>The \<open>else\<close> branch: the next period, with dithering.\<close>

definition tez_dither :: "dtr \<Rightarrow> dtr" where
  "tez_dither s =
     (let p1 = (ucast (base_period_fp16 s div FP16_SCALE) :: i64);
          acc1 = period_ticks_frac_acc s + base_period_fp16 s mod FP16_SCALE
      in if FP16_SCALE \<le>s acc1
         then s\<lparr>period_ticks := p1 + 1, period_ticks_frac_acc := acc1 - FP16_SCALE\<rparr>
         else s\<lparr>period_ticks := p1, period_ticks_frac_acc := acc1\<rparr>)"

text \<open>
  The common end, outside the critical section: the range check (two signed
  comparisons) with its \<open>abort()\<close>, the write of the shadow register, the notification
  of the listener and the application callback, whose \<open>uint32_t\<close> parameter truncates
  \<open>cycle_counter\<close>.
\<close>

definition tez_common_end :: "dtr \<Rightarrow> dtr_error + dtr" where
  "tez_common_end s =
     (if period_ticks s \<le>s 0 \<or> 65535 <s period_ticks s then Inl Abort_period_out_of_range
      else
        (let s1 = s\<lparr>hw_timer_period := ucast (period_ticks s),
                     shadow_period_ticks := ucast (period_ticks s)\<rparr>;
             s2 = (case s_tez_listener_task s1 of
                     None \<Rightarrow> s1
                   | Some task \<Rightarrow> s1\<lparr>tez_notifications := tez_notifications s1 @ [task]\<rparr>);
             s3 = (if s_state s2 = DTR_STATE_ALIGNED \<and> s_app_callback s2
                   then s2\<lparr>app_callback_calls :=
                              app_callback_calls s2 @ [ucast (cycle_counter s2)]\<rparr>
                   else s2)
         in Inr s3))"

definition tez_common_begin :: "dtr \<Rightarrow> dtr" where
  "tez_common_begin s =
     s\<lparr>cycle_counter := cycle_counter s + 1,
       timer_base_ticks := timer_base_ticks s + ucast (active_period_ticks s),
       active_period_ticks := shadow_period_ticks s\<rparr>"

definition dtr_tez_handler :: "dtr_config \<Rightarrow> dtr \<Rightarrow> dtr_error + dtr" where
  "dtr_tez_handler cfg s =
     (let s1 = tez_common_begin s
      in if pending (s_align_request s1)
         then (case tez_apply_alignment cfg s1 of
                 Inl e \<Rightarrow> Inl e
               | Inr s2 \<Rightarrow> tez_common_end s2)
         else tez_common_end (tez_dither s1))"

subsection \<open>Operations called from tasks\<close>

text \<open>
  Each is one critical section of dtr.c. \<open>dtr_start_timer\<close> aborts unless the state is
  \<open>DTR_STATE_NOT_STARTED\<close> and then runs \<open>s_enable_and_start_timer\<close>; after the offset
  measurement it adds the measured offset to \<open>timer_base_ticks\<close> in a second critical
  section, and TEZ interrupts are handled in between.
\<close>

definition s_enable_and_start_timer :: "dtr \<Rightarrow> dtr" where
  "s_enable_and_start_timer s =
     s\<lparr>timer_base_ticks := 0, cycle_counter := 0, s_state := DTR_STATE_RUNNING\<rparr>"

definition dtr_start_timer_begin :: "dtr \<Rightarrow> dtr_error + dtr" where
  "dtr_start_timer_begin s =
     (if s_state s \<noteq> DTR_STATE_NOT_STARTED then Inl Abort_timer_already_started
      else Inr (s_enable_and_start_timer s))"

definition dtr_start_timer_finish :: "i64 \<Rightarrow> dtr \<Rightarrow> dtr" where
  "dtr_start_timer_finish start_offset s =
     s\<lparr>timer_base_ticks := timer_base_ticks s + start_offset\<rparr>"

definition dtr_set_align_request :: "i64 \<Rightarrow> i64 \<Rightarrow> i64 \<Rightarrow> dtr \<Rightarrow> dtr" where
  "dtr_set_align_request cyc local_ticks base_fp16 s =
     s\<lparr>s_align_request :=
         \<lparr>pending = True, aligned_local_ticks = local_ticks,
          aligned_cycle_counter = cyc, aligned_base_period_fp16 = base_fp16\<rparr>,
       s_align_feedback := (s_align_feedback s)\<lparr>ready := False\<rparr>\<rparr>"

definition dtr_grab_n_log_align_feedback :: "dtr \<Rightarrow> dtr_error + align_feedback_t" where
  "dtr_grab_n_log_align_feedback s =
     (if ready (s_align_feedback s) then Inr (s_align_feedback s)
      else Inl Assert_feedback_not_ready)"

definition dtr_get_timer_base_ticks :: "dtr \<Rightarrow> i64" where
  "dtr_get_timer_base_ticks s = timer_base_ticks s"

definition dtr_register_tez_listener :: "nat option \<Rightarrow> dtr \<Rightarrow> dtr" where
  "dtr_register_tez_listener task s = s\<lparr>s_tez_listener_task := task\<rparr>"

text \<open>
  The operations as events, and runs of events. \<open>tez_run n\<close> lets \<open>n\<close> TEZ interrupts
  happen and returns the state after each of them, oldest first.
\<close>

datatype dtr_op =
    Start_timer
  | Finish_start i64
  | Tez
  | Set_align_request i64 i64 i64
  | Register_tez_listener "nat option"

fun dtr_step :: "dtr_config \<Rightarrow> dtr_op \<Rightarrow> dtr \<Rightarrow> dtr_error + dtr" where
  "dtr_step cfg Start_timer s = dtr_start_timer_begin s"
| "dtr_step cfg (Finish_start off) s = Inr (dtr_start_timer_finish off s)"
| "dtr_step cfg Tez s = dtr_tez_handler cfg s"
| "dtr_step cfg (Set_align_request c l b) s = Inr (dtr_set_align_request c l b s)"
| "dtr_step cfg (Register_tez_listener task) s = Inr (dtr_register_tez_listener task s)"

fun dtr_run :: "dtr_config \<Rightarrow> dtr_op list \<Rightarrow> dtr \<Rightarrow> dtr_error + dtr" where
  "dtr_run cfg [] s = Inr s"
| "dtr_run cfg (op # ops) s =
     (case dtr_step cfg op s of Inl e \<Rightarrow> Inl e | Inr s1 \<Rightarrow> dtr_run cfg ops s1)"

text \<open>Whether some TEZ of the run found a request pending, that is, applied an alignment.\<close>

fun alignment_applied :: "dtr_config \<Rightarrow> dtr_op list \<Rightarrow> dtr \<Rightarrow> bool" where
  "alignment_applied cfg [] s = False"
| "alignment_applied cfg (op # ops) s =
     (case dtr_step cfg op s of
        Inl e \<Rightarrow> False
      | Inr s1 \<Rightarrow> (op = Tez \<and> pending (s_align_request s)) \<or> alignment_applied cfg ops s1)"

fun tez_run :: "dtr_config \<Rightarrow> nat \<Rightarrow> dtr \<Rightarrow> dtr_error + dtr list" where
  "tez_run cfg 0 s = Inr []"
| "tez_run cfg (Suc n) s =
     (case dtr_tez_handler cfg s of
        Inl e \<Rightarrow> Inl e
      | Inr s1 \<Rightarrow> (case tez_run cfg n s1 of Inl e \<Rightarrow> Inl e | Inr ss \<Rightarrow> Inr (s1 # ss)))"

text \<open>
  The specification of the roll-forward loop used in the proofs: started with the
  accumulator \<open>a < 65536\<close>, a returning loop has made some number \<open>k\<close> of passes, has
  added \<open>(a + k * base) div 65536\<close> ticks to the period and \<open>k\<close> to the cycle counter,
  and \<open>k\<close> is the first pass count at which the period is no longer below the minimum.
\<close>

definition roll_result ::
  "u64 \<Rightarrow> u32 \<Rightarrow> i64 \<Rightarrow> i32 \<Rightarrow> i64 \<Rightarrow> (i64 \<times> i32 \<times> i64) \<Rightarrow> bool" where
  "roll_result min_ticks base p acc cyc r =
     (\<forall>a. acc = of_nat a \<longrightarrow> a < 65536 \<longrightarrow>
        (\<exists>k. r = (p + of_nat ((a + k * unat base) div 65536),
                  of_nat ((a + k * unat base) mod 65536), cyc + of_nat k)
             \<and> \<not> (p + of_nat ((a + k * unat base) div 65536) < min_ticks)
             \<and> (\<forall>j<k. p + of_nat ((a + j * unat base) div 65536) < min_ticks)))"

text \<open>
  A concrete configuration and state for the examples: the minimum period of the
  comment in dtr.h (5000 CPU cycles at 240 MHz), and a slave timer that was started,
  has handled two TEZ interrupts at the nominal period, and then received the request
  \<open>dtr_set_align_request(7, 40100, 20000 * 65536 + 32768)\<close>.
\<close>

definition cfg_example :: dtr_config where
  "cfg_example = \<lparr>min_period_ticks = DTR_MIN_PERIOD_TICKS 5000 240, role_slave = True\<rparr>"

definition align_example :: dtr where
  "align_example =
     \<lparr>s_mode = DTR_MODE_SLAVE, s_state = DTR_STATE_RUNNING, cycle_counter = 2,
      active_period_ticks = 20000, shadow_period_ticks = 20000,
      timer_base_ticks = 20000, period_ticks = 20000,
      base_period_fp16 = 1310720000, period_ticks_frac_acc = 0,
      s_align_request =
        \<lparr>pending = True, aligned_local_ticks = 40100,
         aligned_cycle_counter = 7, aligned_base_period_fp16 = 1310752768\<rparr>,
      s_align_feedback =
        \<lparr>ready = False, fb_cycle_counter = 0, fb_cycle_delta = 0,
         fb_period_ticks = 0, fb_period_ticks_delta = 0\<rparr>,
      s_tez_listener_task = None, s_app_callback = True,
      hw_timer_period = 20000, hw_gpio_forced_low = True,
      tez_notifications = [], app_callback_calls = []\<rparr>"


text \<open>
  A state in which an alignment has just been applied without roll-forward: the state
  after \<open>dtr_set_align_request(3, 60000, 20000 * 65536 + 32768)\<close> and one more TEZ. The
  period is 20000.5 ticks in fixed point and the accumulator is zero.
\<close>

definition aligned_example :: dtr where
  "aligned_example =
     \<lparr>s_mode = DTR_MODE_SLAVE, s_state = DTR_STATE_ALIGNED, cycle_counter = 3,
      active_period_ticks = 20000, shadow_period_ticks = 20000,
      timer_base_ticks = 40000, period_ticks = 20000,
      base_period_fp16 = 1310752768, period_ticks_frac_acc = 0,
      s_align_request =
        \<lparr>pending = False, aligned_local_ticks = 60000,
         aligned_cycle_counter = 3, aligned_base_period_fp16 = 1310752768\<rparr>,
      s_align_feedback =
        \<lparr>ready = True, fb_cycle_counter = 3, fb_cycle_delta = 0,
         fb_period_ticks = 20000, fb_period_ticks_delta = 0\<rparr>,
      s_tez_listener_task = None, s_app_callback = True,
      hw_timer_period = 20000, hw_gpio_forced_low = False,
      tez_notifications = [], app_callback_calls = [3]\<rparr>"

text \<open>The order of the states, \<open>NotStarted < Running < Aligned\<close>.\<close>

fun state_rank :: "dtr_state_t \<Rightarrow> nat" where
  "state_rank DTR_STATE_NOT_STARTED = 0"
| "state_rank DTR_STATE_RUNNING = 1"
| "state_rank DTR_STATE_ALIGNED = 2"

subsection \<open>The MAC clock / timer start offset measurement\<close>

text \<open>
  \<open>s_catch_mac_clock_transition\<close> reads the hardware timer and the MAC microsecond
  counter. The values the hardware returns are the input of the model: the two reads
  before the critical section, the four reads of each pass of the \<open>do ... while\<close> loop
  (\<open>timer_before\<close>, \<open>mac_clock_us_1\<close>, \<open>mac_clock_us_2\<close>, \<open>timer_after\<close>), and the two
  reads after it. The loop runs until a pass sees two different MAC values; when the
  supplied passes end before that, the loop is still waiting.
\<close>

record catch_reads =
  timer_pre :: u32
  mac_clock_us_pre :: u32
  loop_reads :: "(u32 \<times> u32 \<times> u32 \<times> u32) list"
  timer_post :: u32
  mac_clock_us_post :: u32

fun catch_loop ::
  "(u32 \<times> u32 \<times> u32 \<times> u32) list \<Rightarrow> u32 \<Rightarrow> ((u32 \<times> u32 \<times> u32 \<times> u32) \<times> u32) option" where
  "catch_loop [] iterations = None"
| "catch_loop ((timer_before, mac_clock_us_1, mac_clock_us_2, timer_after) # rest) iterations =
     (if mac_clock_us_2 = mac_clock_us_1 then catch_loop rest (iterations + 1)
      else Some ((timer_before, mac_clock_us_1, mac_clock_us_2, timer_after), iterations + 1))"

text \<open>
  The outcome: still in the loop, \<open>false\<close> (a wrap was seen, the sample is discarded),
  or \<open>true\<close> with the four output parameters \<open>timer_abs_before_ticks\<close>,
  \<open>mac_clock_transition_us\<close>, \<open>timer_abs_after_ticks\<close> and \<open>iterations_out\<close>.
  \<open>timer_base_ticks_pre\<close> is the \<open>timer_base_ticks\<close> read under the spinlock and
  \<open>mac_clock_base_us\<close> the value of \<open>clock_get_base_us()\<close>. The monotonicity checks
  compare \<open>uint32_t\<close> values; the sums are \<open>int64_t\<close> plus a widened \<open>uint32_t\<close>.
\<close>

datatype catch_outcome = Loop_waiting | Discarded | Caught i64 i64 i64 u32

definition s_catch_mac_clock_transition :: "i64 \<Rightarrow> i64 \<Rightarrow> catch_reads \<Rightarrow> catch_outcome" where
  "s_catch_mac_clock_transition timer_base_ticks_pre mac_clock_base_us r =
     (case catch_loop (loop_reads r) 0 of
        None \<Rightarrow> Loop_waiting
      | Some ((timer_before, mac_clock_us_1, mac_clock_us_2, timer_after), iterations) \<Rightarrow>
          if timer_before < timer_pre r \<or> timer_after < timer_before
             \<or> timer_post r < timer_after
          then Discarded
          else if mac_clock_us_1 < mac_clock_us_pre r \<or> mac_clock_us_2 < mac_clock_us_1
                  \<or> mac_clock_us_post r < mac_clock_us_2
          then Discarded
          else Caught (timer_base_ticks_pre + ucast timer_before)
                      (mac_clock_base_us + ucast mac_clock_us_2)
                      (timer_base_ticks_pre + ucast timer_after)
                      iterations)"

text \<open>
  \<open>s_refine_mac_clock_timer_start_offset\<close>, with the bounds passed and returned as a
  pair \<open>(min, max)\<close>. \<open>mac_clock_transition_us * TIMER_TICKS_PER_US\<close> is an unsigned
  product stored in an \<open>int64_t\<close>; the two \<open>assert\<close>s and the two updates compare signed
  values.
\<close>

definition s_refine_mac_clock_timer_start_offset ::
  "i64 \<times> i64 \<Rightarrow> i64 \<Rightarrow> i64 \<Rightarrow> i64 \<Rightarrow> dtr_error + (i64 \<times> i64)" where
  "s_refine_mac_clock_timer_start_offset bounds timer_abs_before_ticks
       mac_clock_transition_us timer_abs_after_ticks =
     (let mac_at_transition_ticks = mac_clock_transition_us * TIMER_TICKS_PER_US
      in if \<not> timer_abs_after_ticks <s mac_at_transition_ticks
         then Inl Assert_timer_before_mac
         else
           (let new_min = mac_at_transition_ticks - timer_abs_after_ticks;
                new_max = mac_at_transition_ticks - timer_abs_before_ticks
            in if \<not> new_min \<le>s new_max then Inl Assert_min_le_max
               else Inr (if fst bounds <s new_min then new_min else fst bounds,
                         if new_max <s snd bounds then new_max else snd bounds)))"

text \<open>
  The loop of \<open>s_measure_mac_clock_timer_start_offset\<close> over its samples. Each sample
  comes with the \<open>timer_base_ticks\<close> and the MAC clock base of its moment, since TEZ
  interrupts are handled between the samples. The source runs
  \<open>DTR_MAC_TIMER_ALIGNMENT_MAX_SAMPLES\<close> samples.
\<close>

record measure_acc =
  offset_ticks_min :: i64
  offset_ticks_max :: i64
  total_iterations :: u32
  min_iterations :: u32
  max_iterations :: u32

definition measure_init :: measure_acc where
  "measure_init =
     \<lparr>offset_ticks_min = 0, offset_ticks_max = 9223372036854775807,
      total_iterations = 0, min_iterations = 4294967295, max_iterations = 0\<rparr>"

fun measure_samples :: "(i64 \<times> i64 \<times> catch_reads) list \<Rightarrow> measure_acc \<Rightarrow> dtr_error + measure_acc" where
  "measure_samples [] acc = Inr acc"
| "measure_samples ((timer_base_ticks_pre, mac_clock_base_us, r) # rest) acc =
     (case s_catch_mac_clock_transition timer_base_ticks_pre mac_clock_base_us r of
        Loop_waiting \<Rightarrow> Inl Mac_clock_never_advances
      | Discarded \<Rightarrow> measure_samples rest acc
      | Caught timer_abs_before mac_clock_transition_us timer_abs_after iterations \<Rightarrow>
          (let acc1 = acc\<lparr>total_iterations := total_iterations acc + iterations,
                           min_iterations := (if iterations < min_iterations acc
                                              then iterations else min_iterations acc),
                           max_iterations := (if max_iterations acc < iterations
                                              then iterations else max_iterations acc)\<rparr>
           in case s_refine_mac_clock_timer_start_offset
                     (offset_ticks_min acc1, offset_ticks_max acc1)
                     timer_abs_before mac_clock_transition_us timer_abs_after of
                Inl e \<Rightarrow> Inl e
              | Inr (mn, mx) \<Rightarrow>
                  measure_samples rest (acc1\<lparr>offset_ticks_min := mn, offset_ticks_max := mx\<rparr>)))"

definition s_measure_mac_clock_timer_start_offset ::
  "(i64 \<times> i64 \<times> catch_reads) list \<Rightarrow> dtr_error + i64" where
  "s_measure_mac_clock_timer_start_offset samples =
     (case measure_samples samples measure_init of
        Inl e \<Rightarrow> Inl e
      | Inr acc \<Rightarrow> Inr (sdiv64 (offset_ticks_min acc + offset_ticks_max acc) 2))"

text \<open>
  Two samples for the examples, taken at \<open>timer_base_ticks = 20000\<close> and \<open>40000\<close> with MAC
  clock base 0: the MAC counter is seen to step from 1000 to 1001 in the second pass
  of the loop, and from 1501 to 1502 in the first.
\<close>

definition sample_example1 :: "i64 \<times> i64 \<times> catch_reads" where
  "sample_example1 =
     (20000, 0,
      \<lparr>timer_pre = 100, mac_clock_us_pre = 1000,
       loop_reads = [(110, 1000, 1000, 115), (120, 1000, 1001, 125)],
       timer_post = 130, mac_clock_us_post = 1001\<rparr>)"

definition sample_example2 :: "i64 \<times> i64 \<times> catch_reads" where
  "sample_example2 =
     (40000, 0,
      \<lparr>timer_pre = 150, mac_clock_us_pre = 1501,
       loop_reads = [(161, 1501, 1502, 164)],
       timer_post = 170, mac_clock_us_post = 1502\<rparr>)"

section \<open>Floating point\<close>

text \<open>
  CRM and DTC compute with \<open>double\<close> and \<open>float\<close> values. Their type \<open>'d\<close> and the
  operations the sources apply to them are parameters of the model: a record of
  operations is passed to every function that computes with them. A theorem stated for
  all such records holds for every arithmetic, IEEE-754 binary64 with any rounding
  among them; only the integer and control structure of the code is used.

  The fields: the conversions from \<open>int64_t\<close>, \<open>uint32_t\<close> and \<open>uint64_t\<close> to \<open>double\<close>
  (integer literals such as \<open>0.0\<close>, \<open>1.0\<close> and \<open>1e3\<close> are conversions of their integer
  value), the cast \<open>(int64_t)\<close> of a \<open>double\<close>, the four arithmetic operations, \<open>sqrt\<close>,
  the comparisons \<open>==\<close> and \<open>>\<close>, the cast \<open>(float)\<close>, and the \<open>float\<close> literal
  \<open>CRM_R_SQUARED_THRESHOLD = 0.999f\<close>.
\<close>

record 'd fp_ops =
  fp_of_i64 :: "i64 \<Rightarrow> 'd"
  fp_of_u32 :: "u32 \<Rightarrow> 'd"
  fp_of_u64 :: "u64 \<Rightarrow> 'd"
  fp_to_i64 :: "'d \<Rightarrow> i64"
  fp_add :: "'d \<Rightarrow> 'd \<Rightarrow> 'd"
  fp_sub :: "'d \<Rightarrow> 'd \<Rightarrow> 'd"
  fp_mul :: "'d \<Rightarrow> 'd \<Rightarrow> 'd"
  fp_div :: "'d \<Rightarrow> 'd \<Rightarrow> 'd"
  fp_sqrt :: "'d \<Rightarrow> 'd"
  fp_eq :: "'d \<Rightarrow> 'd \<Rightarrow> bool"
  fp_gt :: "'d \<Rightarrow> 'd \<Rightarrow> bool"
  fp_to_float :: "'d \<Rightarrow> 'd"
  fp_r_squared_threshold :: 'd

section \<open>Binary floating point\<close>

text \<open>
  The arithmetic of the target: IEEE-754 binary64 for \<open>double\<close>, binary32 for \<open>float\<close>,
  every operation rounded to nearest, ties to even, no extended precision and no fused
  multiply-add. A finite floating-point number is the rational it denotes, and an
  operation is the exact operation followed by the rounding to \<open>p\<close> significant bits (53
  or 24).

  \<open>binary_exponent x\<close> is the \<open>e\<close> with \<open>2^e \<le> |x| < 2^(e+1)\<close>, found from the bit lengths
  of numerator and denominator; the unit in the last place of \<open>x\<close> is \<open>2^(e - p + 1)\<close>, and
  \<open>fp_round p x\<close> is the multiple of it nearest to \<open>x\<close>. The square root is rounded
  correctly as well: \<open>floor_sqrt\<close> is the integer square root, and the comparison of
  \<open>z\<close> with \<open>(m + 1/2)^2\<close> decides between the neighbours \<open>m\<close> and \<open>m + 1\<close>.

  Not modelled: the exponent range (overflow to infinity, gradual underflow), the
  infinities, NaN and the sign of zero. The values of this program are sums of at
  most 128 products of differences of 64-bit integers, their quotients and their
  products with 64-bit integers, all far from both ends of the exponent range, and it
  divides by \<open>n\<close>, \<open>den\<close>, \<open>num\<close> and \<open>ss_tot\<close> only, after testing them.
\<close>

definition binary_exponent :: "rat \<Rightarrow> int" where
  "binary_exponent x =
     (let (p, q) = quotient_of \<bar>x\<bar>; k = bitlen p - bitlen q
      in if 2 powi k \<le> \<bar>x\<bar> then k else k - 1)"

definition round_to_even :: "rat \<Rightarrow> int" where
  "round_to_even y =
     (let n = \<lfloor>y\<rfloor>; f = y - of_int n
      in if f < 1 / 2 then n else if 1 / 2 < f then n + 1 else if even n then n else n + 1)"

definition fp_round :: "nat \<Rightarrow> rat \<Rightarrow> rat" where
  "fp_round p x =
     (if x = 0 then 0
      else (let ulp = 2 powi (binary_exponent x - int p + 1)
            in of_int (round_to_even (x / ulp)) * ulp))"

function floor_sqrt :: "int \<Rightarrow> int" where
  "floor_sqrt n =
     (if n < 2 then n
      else (let r = 2 * floor_sqrt (n div 4) in if (r + 1) * (r + 1) \<le> n then r + 1 else r))"
  by pat_completeness auto

termination floor_sqrt
  by (relation "measure nat") auto

declare floor_sqrt.simps [simp del]

definition fp_round_sqrt :: "nat \<Rightarrow> rat \<Rightarrow> rat" where
  "fp_round_sqrt p x =
     (if x \<le> 0 then 0
      else (let ulp = 2 powi (binary_exponent x div 2 - int p + 1);
                z = x / (ulp * ulp);
                m = floor_sqrt \<lfloor>z\<rfloor>;
                h = (of_int m + 1 / 2) * (of_int m + 1 / 2)
            in of_int (if z < h then m else if h < z then m + 1
                       else if even m then m else m + 1) * ulp))"

definition binary64 :: "rat \<Rightarrow> rat" where
  "binary64 = fp_round 53"

definition binary32 :: "rat \<Rightarrow> rat" where
  "binary32 = fp_round 24"

text \<open>
  The cast \<open>(int64_t)\<close> of a \<open>double\<close> truncates towards zero. Where the truncated value
  is not an \<open>int64_t\<close> the C standard leaves the cast undefined; the conversion routine of
  the target saturates, and so does the model.
\<close>

definition double_to_i64 :: "rat \<Rightarrow> i64" where
  "double_to_i64 x =
     (let t = (if 0 \<le> x then \<lfloor>x\<rfloor> else \<lceil>x\<rceil>)
      in if t < - (2 ^ 63) then - (2 ^ 63)
         else if 2 ^ 63 \<le> t then 2 ^ 63 - 1
         else word_of_int t)"

definition binary64_ops :: "rat fp_ops" where
  "binary64_ops =
     \<lparr>fp_of_i64 = (\<lambda>x. binary64 (of_int (sint x))),
      fp_of_u32 = (\<lambda>x. binary64 (of_int (uint x))),
      fp_of_u64 = (\<lambda>x. binary64 (of_int (uint x))),
      fp_to_i64 = double_to_i64,
      fp_add = (\<lambda>x y. binary64 (x + y)),
      fp_sub = (\<lambda>x y. binary64 (x - y)),
      fp_mul = (\<lambda>x y. binary64 (x * y)),
      fp_div = (\<lambda>x y. binary64 (x / y)),
      fp_sqrt = fp_round_sqrt 53,
      fp_eq = (=),
      fp_gt = (\<lambda>x y. y < x),
      fp_to_float = binary32,
      fp_r_squared_threshold = binary32 (999 / 1000)\<rparr>"

section \<open>CRM: the clock relationship model (crm.h, crm.c)\<close>

definition FTM_FRAMES_PER_SESSION :: "'a::len word" where
  "FTM_FRAMES_PER_SESSION = 64"

definition MAX_REGRESSION_SAMPLES :: u32 where
  "MAX_REGRESSION_SAMPLES = 2 * FTM_FRAMES_PER_SESSION"

definition MIN_REGRESSION_SAMPLES :: u32 where
  "MIN_REGRESSION_SAMPLES = FTM_FRAMES_PER_SESSION div 2"

text \<open>
  The global model (\<open>crm_valid\<close> to \<open>crm_remote_ref_ps\<close>), the sample ring
  \<open>s_regression_samples\<close> with its two arrays of \<open>MAX_REGRESSION_SAMPLES\<close> entries as
  lists, the registered callback (\<open>None\<close> for \<open>NULL\<close>) and the three variables kept for
  logging.
\<close>

record 'd crm =
  crm_valid :: bool
  crm_slope_lr_m1 :: 'd
  crm_slope_rl_m1 :: 'd
  crm_local_ref_ps :: i64
  crm_remote_ref_ps :: i64
  ring_local_ps :: "i64 list"
  ring_remote_ps :: "i64 list"
  ring_count :: u32
  ring_head :: u32
  s_callback :: "nat option"
  s_r_squared :: 'd
  s_residual_std_ns :: 'd
  s_sample_count :: u32

definition crm_init :: "'d fp_ops \<Rightarrow> 'd crm" where
  "crm_init ops =
     \<lparr>crm_valid = False,
      crm_slope_lr_m1 = fp_of_i64 ops 0,
      crm_slope_rl_m1 = fp_of_i64 ops 0,
      crm_local_ref_ps = 0,
      crm_remote_ref_ps = 0,
      ring_local_ps = replicate (unat MAX_REGRESSION_SAMPLES) 0,
      ring_remote_ps = replicate (unat MAX_REGRESSION_SAMPLES) 0,
      ring_count = 0,
      ring_head = 0,
      s_callback = None,
      s_r_squared = fp_to_float ops (fp_of_i64 ops 0),
      s_residual_std_ns = fp_to_float ops (fp_of_i64 ops 0),
      s_sample_count = 0\<rparr>"

definition crm_register_callback :: "nat option \<Rightarrow> 'd crm \<Rightarrow> 'd crm" where
  "crm_register_callback callback s = s\<lparr>s_callback := callback\<rparr>"

definition add_regression_sample :: "i64 \<Rightarrow> i64 \<Rightarrow> 'd crm \<Rightarrow> 'd crm" where
  "add_regression_sample local_ps remote_ps s =
     (if ring_count s < MAX_REGRESSION_SAMPLES
      then s\<lparr>ring_local_ps := (ring_local_ps s)[unat (ring_count s) := local_ps],
             ring_remote_ps := (ring_remote_ps s)[unat (ring_count s) := remote_ps],
             ring_count := ring_count s + 1\<rparr>
      else s\<lparr>ring_local_ps := (ring_local_ps s)[unat (ring_head s) := local_ps],
             ring_remote_ps := (ring_remote_ps s)[unat (ring_head s) := remote_ps],
             ring_head := (ring_head s + 1) mod MAX_REGRESSION_SAMPLES\<rparr>)"

text \<open>
  The loops of \<open>perform_regression\<close> run over the indices \<open>0 .. n - 1\<close> of the ring. The
  first computes the means from the deltas to the first sample, the second the two
  sums \<open>num\<close> and \<open>den\<close>, the third the total and residual sums of squares.
\<close>

definition regression_means :: "'d fp_ops \<Rightarrow> 'd crm \<Rightarrow> 'd \<times> 'd" where
  "regression_means ops s =
     (let n = ring_count s;
          ref_x = ring_remote_ps s ! 0;
          ref_y = ring_local_ps s ! 0;
          (sum_dx, sum_dy) =
            fold (\<lambda>i (sum_dx, sum_dy).
                    (fp_add ops sum_dx (fp_of_i64 ops (ring_remote_ps s ! i - ref_x)),
                     fp_add ops sum_dy (fp_of_i64 ops (ring_local_ps s ! i - ref_y))))
                 [0..<unat n] (fp_of_i64 ops 0, fp_of_i64 ops 0);
          mean_dx = fp_div ops sum_dx (fp_of_u32 ops n);
          mean_dy = fp_div ops sum_dy (fp_of_u32 ops n);
          mean_x = fp_add ops (fp_of_i64 ops ref_x) mean_dx;
          mean_y = fp_add ops (fp_of_i64 ops ref_y) mean_dy
      in (mean_x, mean_y))"

definition regression_num_den :: "'d fp_ops \<Rightarrow> 'd crm \<Rightarrow> 'd \<times> 'd" where
  "regression_num_den ops s =
     (let (mean_x, mean_y) = regression_means ops s
      in fold (\<lambda>i (num, den).
                 (let dx = fp_sub ops (fp_of_i64 ops (ring_remote_ps s ! i)) mean_x;
                      dy = fp_sub ops (fp_of_i64 ops (ring_local_ps s ! i)) mean_y
                  in (fp_add ops num (fp_mul ops dx dy), fp_add ops den (fp_mul ops dx dx))))
              [0..<unat (ring_count s)] (fp_of_i64 ops 0, fp_of_i64 ops 0))"

definition regression_squares :: "'d fp_ops \<Rightarrow> 'd crm \<Rightarrow> 'd \<Rightarrow> i64 \<Rightarrow> i64 \<Rightarrow> 'd \<times> 'd" where
  "regression_squares ops s slope_lr_m1 t_ref_local_ps t_ref_remote_ps =
     (let (mean_x, mean_y) = regression_means ops s
      in fold (\<lambda>i (ss_tot, ss_res).
                 (let delta_remote = fp_sub ops (fp_of_i64 ops (ring_remote_ps s ! i))
                                                (fp_of_i64 ops t_ref_remote_ps);
                      y_pred = fp_add ops (fp_add ops (fp_of_i64 ops t_ref_local_ps) delta_remote)
                                          (fp_mul ops delta_remote slope_lr_m1);
                      residual = fp_sub ops (fp_of_i64 ops (ring_local_ps s ! i)) y_pred;
                      dev = fp_sub ops (fp_of_i64 ops (ring_local_ps s ! i)) mean_y
                  in (fp_add ops ss_tot (fp_mul ops dev dev),
                      fp_add ops ss_res (fp_mul ops residual residual))))
              [0..<unat (ring_count s)] (fp_of_i64 ops 0, fp_of_i64 ops 0))"

text \<open>
  The slopes, the reference point and \<open>r_squared\<close> that a successful fit publishes, as
  functions of the ring.
\<close>

definition fit_slope_lr_m1 :: "'d fp_ops \<Rightarrow> 'd crm \<Rightarrow> 'd" where
  "fit_slope_lr_m1 ops s =
     (let (num, den) = regression_num_den ops s in fp_div ops (fp_sub ops num den) den)"

definition fit_slope_rl_m1 :: "'d fp_ops \<Rightarrow> 'd crm \<Rightarrow> 'd" where
  "fit_slope_rl_m1 ops s =
     (let (num, den) = regression_num_den ops s in fp_div ops (fp_sub ops den num) num)"

definition fit_local_ref_ps :: "'d fp_ops \<Rightarrow> 'd crm \<Rightarrow> i64" where
  "fit_local_ref_ps ops s = fp_to_i64 ops (snd (regression_means ops s))"

definition fit_remote_ref_ps :: "'d fp_ops \<Rightarrow> 'd crm \<Rightarrow> i64" where
  "fit_remote_ref_ps ops s = fp_to_i64 ops (fst (regression_means ops s))"

definition fit_r_squared :: "'d fp_ops \<Rightarrow> 'd crm \<Rightarrow> 'd" where
  "fit_r_squared ops s =
     (let (ss_tot, ss_res) = regression_squares ops s (fit_slope_lr_m1 ops s)
                               (fit_local_ref_ps ops s) (fit_remote_ref_ps ops s)
      in fp_to_float ops
           (if fp_gt ops ss_tot (fp_of_i64 ops 0)
            then fp_sub ops (fp_of_i64 ops 1) (fp_div ops ss_res ss_tot)
            else fp_of_i64 ops 0))"

definition fit_residual_std :: "'d fp_ops \<Rightarrow> 'd crm \<Rightarrow> 'd" where
  "fit_residual_std ops s =
     (let (ss_tot, ss_res) = regression_squares ops s (fit_slope_lr_m1 ops s)
                               (fit_local_ref_ps ops s) (fit_remote_ref_ps ops s)
      in fp_to_float ops
           (fp_div ops (fp_sqrt ops (fp_div ops ss_res (fp_of_u32 ops (ring_count s))))
                       (fp_of_i64 ops 1000)))"

text \<open>
  \<open>perform_regression\<close>: the returned \<open>bool\<close> and the new state. The two early returns
  leave every variable as it is.
\<close>

definition perform_regression :: "'d fp_ops \<Rightarrow> 'd crm \<Rightarrow> bool \<times> 'd crm" where
  "perform_regression ops s =
     (if ring_count s < MIN_REGRESSION_SAMPLES then (False, s)
      else
        (let (num, den) = regression_num_den ops s
         in if fp_eq ops den (fp_of_i64 ops 0) \<or> fp_eq ops num (fp_of_i64 ops 0)
            then (False, s)
            else (True,
                  s\<lparr>crm_slope_lr_m1 := fit_slope_lr_m1 ops s,
                    crm_slope_rl_m1 := fit_slope_rl_m1 ops s,
                    crm_local_ref_ps := fit_local_ref_ps ops s,
                    crm_remote_ref_ps := fit_remote_ref_ps ops s,
                    crm_valid := fp_gt ops (fit_r_squared ops s) (fp_r_squared_threshold ops),
                    s_r_squared := fit_r_squared ops s,
                    s_residual_std_ns := fit_residual_std ops s,
                    s_sample_count := ring_count s\<rparr>)))"

text \<open>
  \<open>crm_process_ftm_report\<close>. The four arrays are lists; \<open>rtt_ps / 2\<close> is a signed
  division. \<open>crm_add_report\<close> is its loop, which derives one sample from each entry and
  adds it to the ring. The result is the new state and the callbacks invoked, in
  order.
\<close>

definition crm_add_report ::
  "i64 list \<Rightarrow> i64 list \<Rightarrow> i64 list \<Rightarrow> i64 list \<Rightarrow> u8 \<Rightarrow> 'd crm \<Rightarrow> 'd crm" where
  "crm_add_report t1_ps t2_ps t3_ps t4_ps count s =
     fold (\<lambda>i s.
             (let rtt_ps = (t4_ps ! i - t1_ps ! i) - (t3_ps ! i - t2_ps ! i);
                  local_at_t2_ps = t2_ps ! i;
                  remote_at_t2_ps = t1_ps ! i + sdiv64 rtt_ps 2
              in add_regression_sample local_at_t2_ps remote_at_t2_ps s))
          [0..<unat count] s"

definition crm_process_ftm_report ::
  "'d fp_ops \<Rightarrow> u32 \<Rightarrow> i64 list \<Rightarrow> i64 list \<Rightarrow> i64 list \<Rightarrow> i64 list \<Rightarrow> u8 \<Rightarrow> 'd crm
     \<Rightarrow> 'd crm \<times> nat list" where
  "crm_process_ftm_report ops session_number t1_ps t2_ps t3_ps t4_ps count s =
     (if count = 0 then (s, [])
      else
        (let (ok, s1) = perform_regression ops (crm_add_report t1_ps t2_ps t3_ps t4_ps count s)
         in if ok
            then (s1, case s_callback s1 of None \<Rightarrow> [] | Some callback \<Rightarrow> [callback])
            else (s1, [])))"

text \<open>The five fields of the published model.\<close>

definition crm_model :: "'d crm \<Rightarrow> bool \<times> 'd \<times> 'd \<times> i64 \<times> i64" where
  "crm_model s =
     (crm_valid s, crm_slope_lr_m1 s, crm_slope_rl_m1 s, crm_local_ref_ps s, crm_remote_ref_ps s)"

text \<open>
  Reports for the examples, as the four arrays of \<open>crm_process_ftm_report\<close>; every array
  is non-decreasing. A report with \<open>t3 = t2\<close> and \<open>t4 = t1\<close> has a round-trip time of 0, so
  that its samples are \<open>(local, remote) = (t2, t1)\<close>.

  \<^item> \<open>identical_example\<close>: 32 times the same point.
  \<^item> \<open>scatter\<close>: 32 points scattered around the line \<open>local = 2 * remote + 2\<close>: remote 0
    with local 0 or 4, remote 2 with local 4 or 8, eight of each.
  \<^item> \<open>drift\<close>: 16 points at \<open>(0, 0)\<close> and 16 at local \<open>2050000000 ps\<close>, remote
    \<open>2048000000 ps\<close>: a local clock that is fast by \<open>1/1024\<close>.
  \<^item> \<open>steep\<close>: 16 points at \<open>(0, 0)\<close> and 16 at local \<open>3 * 2^21 ps\<close>, remote \<open>2 ps\<close>: a
    slope of \<open>3 * 2^20\<close>.
  \<^item> \<open>reversed\<close>: \<open>t1 = t4 = 4000000000\<close> throughout, \<open>t2 = t3 = 0\<close> in the first 16
    entries, \<open>t2 = 2000000000\<close> and \<open>t3 = 6000000000\<close> in the last 16. The round-trip time
    of the last 16 is \<open>- 4000000000\<close>, so the samples are 16 at local 0, remote
    \<open>4000000000\<close> and 16 at local \<open>2000000000\<close>, remote \<open>2000000000\<close>: the remote time falls
    as the local time rises.

  \<open>prior_example\<close> is the state after \<open>crm_init\<close> and the registration of a callback.
\<close>

definition identical_example :: "i64 list" where
  "identical_example = replicate 32 5000"

definition scatter_remote_example :: "i64 list" where
  "scatter_remote_example = replicate 16 0 @ replicate 16 2"

definition scatter_local_example :: "i64 list" where
  "scatter_local_example = replicate 8 0 @ replicate 8 4 @ replicate 8 4 @ replicate 8 8"

definition drift_remote_example :: "i64 list" where
  "drift_remote_example = replicate 16 0 @ replicate 16 2048000000"

definition drift_local_example :: "i64 list" where
  "drift_local_example = replicate 16 0 @ replicate 16 2050000000"

definition steep_remote_example :: "i64 list" where
  "steep_remote_example = replicate 16 0 @ replicate 16 2"

definition steep_local_example :: "i64 list" where
  "steep_local_example = replicate 16 0 @ replicate 16 6291456"

definition reversed_t1_example :: "i64 list" where
  "reversed_t1_example = replicate 32 4000000000"

definition reversed_t2_example :: "i64 list" where
  "reversed_t2_example = replicate 16 0 @ replicate 16 2000000000"

definition reversed_t3_example :: "i64 list" where
  "reversed_t3_example = replicate 16 0 @ replicate 16 6000000000"

definition prior_example :: "rat crm" where
  "prior_example = crm_register_callback (Some 1) (crm_init binary64_ops)"

section \<open>DTC: the disciplined timer controller (dtc.c)\<close>

text \<open>
  \<open>(int64_t)((double)delta * slope)\<close>, the slope correction that both projections
  add to their delta.
\<close>

definition slope_correction :: "'d fp_ops \<Rightarrow> 'd \<Rightarrow> i64 \<Rightarrow> i64" where
  "slope_correction ops slope_m1 delta_ticks =
     fp_to_i64 ops (fp_mul ops (fp_of_i64 ops delta_ticks) slope_m1)"

definition dtc_local_to_remote :: "'d fp_ops \<Rightarrow> 'd crm \<Rightarrow> i64 \<Rightarrow> i64 \<Rightarrow> i64 \<Rightarrow> i64" where
  "dtc_local_to_remote ops crm local_ticks crm_ref_local_ticks crm_ref_remote_ticks =
     (let delta_local_ticks = local_ticks - crm_ref_local_ticks;
          delta_remote_ticks =
            delta_local_ticks + slope_correction ops (crm_slope_rl_m1 crm) delta_local_ticks
      in crm_ref_remote_ticks + delta_remote_ticks)"

definition dtc_remote_to_local :: "'d fp_ops \<Rightarrow> 'd crm \<Rightarrow> i64 \<Rightarrow> i64 \<Rightarrow> i64 \<Rightarrow> i64" where
  "dtc_remote_to_local ops crm remote_ticks crm_ref_local_ticks crm_ref_remote_ticks =
     (let delta_remote_ticks = remote_ticks - crm_ref_remote_ticks;
          delta_local_ticks =
            delta_remote_ticks + slope_correction ops (crm_slope_lr_m1 crm) delta_remote_ticks
      in crm_ref_local_ticks + delta_local_ticks)"

definition dtc_calculate_period_fp16 :: "'d fp_ops \<Rightarrow> 'd crm \<Rightarrow> i64" where
  "dtc_calculate_period_fp16 ops crm =
     (let master_base_period_fp16 =
            fp_mul ops (fp_of_u64 ops DTR_TIMER_PERIOD_TICKS) (fp_of_i64 ops FP16_SCALE);
          aligned_base_period_fp16 =
            fp_add ops master_base_period_fp16
                       (fp_mul ops master_base_period_fp16 (crm_slope_lr_m1 crm))
      in fp_to_i64 ops aligned_base_period_fp16)"

text \<open>
  Steps 3 to 7 of \<open>dtc_crm_updated\<close>, from the \<open>timer_base\<close> sampled after the first TEZ
  wait. \<open>DTR_PS_PER_TICK\<close> and \<open>DTR_TIMER_PERIOD_TICKS\<close> are \<open>unsigned long long\<close>, so the
  two divisions by \<open>DTR_PS_PER_TICK\<close>, and the sum, the quotient and the product of the
  rounding step, are computed on unsigned 64-bit values and stored in \<open>int64_t\<close>
  variables. The compensation is an \<open>int32_t\<close>, sign-extended when it is added. The
  intermediate values are functions of their own, since the theorems speak of them.
\<close>

definition dtc_ref_local_ticks :: "'d crm \<Rightarrow> i64" where
  "dtc_ref_local_ticks crm = crm_local_ref_ps crm div DTR_PS_PER_TICK"

definition dtc_ref_remote_ticks :: "'d crm \<Rightarrow> i64" where
  "dtc_ref_remote_ticks crm = crm_remote_ref_ps crm div DTR_PS_PER_TICK"

definition dtc_remote_ticks :: "'d fp_ops \<Rightarrow> 'd crm \<Rightarrow> i64 \<Rightarrow> i64" where
  "dtc_remote_ticks ops crm timer_base =
     dtc_local_to_remote ops crm timer_base (dtc_ref_local_ticks crm) (dtc_ref_remote_ticks crm)"

definition dtc_aligned_cycle_counter :: "'d fp_ops \<Rightarrow> 'd crm \<Rightarrow> i64 \<Rightarrow> i64" where
  "dtc_aligned_cycle_counter ops crm timer_base =
     (dtc_remote_ticks ops crm timer_base + DTR_TIMER_PERIOD_TICKS div 2)
       div DTR_TIMER_PERIOD_TICKS + 2"

definition dtc_aligned_remote_ticks :: "'d fp_ops \<Rightarrow> 'd crm \<Rightarrow> i64 \<Rightarrow> i64" where
  "dtc_aligned_remote_ticks ops crm timer_base =
     dtc_aligned_cycle_counter ops crm timer_base * DTR_TIMER_PERIOD_TICKS"

definition dtc_aligned_local_ticks :: "'d fp_ops \<Rightarrow> 'd crm \<Rightarrow> i64 \<Rightarrow> i64" where
  "dtc_aligned_local_ticks ops crm timer_base =
     (let aligned_local_ticks =
            dtc_remote_to_local ops crm (dtc_aligned_remote_ticks ops crm timer_base)
              (dtc_ref_local_ticks crm) (dtc_ref_remote_ticks crm);
          compensation_ticks = DTR_NS_TO_TICKS DTR_COMPENSATION_NS
      in aligned_local_ticks + scast compensation_ticks)"

text \<open>
  \<open>dtc_crm_updated\<close>, without \<open>CONFIG_FTS_TEST_ALIGN_ONCE\<close>. The task blocks twice in
  \<open>dtr_wait_for_tez\<close>; here each wait is one run of the TEZ handler, the interrupt the
  task is waiting for. \<open>dtc_publish_request\<close> is the function from the registration of
  the listener to step 8, where the request
  \<open>(aligned_cycle_counter, aligned_local_ticks, aligned_base_period_fp16)\<close> is published;
  \<open>dtc_crm_updated\<close> goes on from there with the second wait and the feedback.
\<close>

definition dtc_publish_request ::
  "'d fp_ops \<Rightarrow> dtr_config \<Rightarrow> nat \<Rightarrow> 'd crm \<Rightarrow> dtr \<Rightarrow> dtr_error + dtr" where
  "dtc_publish_request ops cfg task crm s =
     (case dtr_tez_handler cfg (dtr_register_tez_listener (Some task) s) of
        Inl e \<Rightarrow> Inl e
      | Inr s1 \<Rightarrow>
          (let timer_base = dtr_get_timer_base_ticks s1
           in Inr (dtr_set_align_request
                     (dtc_aligned_cycle_counter ops crm timer_base)
                     (dtc_aligned_local_ticks ops crm timer_base)
                     (dtc_calculate_period_fp16 ops crm) s1)))"

definition dtc_crm_updated ::
  "'d fp_ops \<Rightarrow> dtr_config \<Rightarrow> nat \<Rightarrow> 'd crm \<Rightarrow> dtr \<Rightarrow> dtr_error + dtr" where
  "dtc_crm_updated ops cfg task crm s =
     (if \<not> crm_valid crm then Inr s
      else
        (case dtc_publish_request ops cfg task crm s of
           Inl e \<Rightarrow> Inl e
         | Inr s2 \<Rightarrow>
             (case dtr_tez_handler cfg s2 of
                Inl e \<Rightarrow> Inl e
              | Inr s3 \<Rightarrow>
                  (case dtr_grab_n_log_align_feedback s3 of
                     Inl e \<Rightarrow> Inl e
                   | Inr feedback \<Rightarrow> Inr s3))))"

text \<open>
  Models for the examples, with the five published fields as \<open>process_ftm_report\<close> fits
  them to the \<open>drift\<close> and to the \<open>reversed\<close> report: \<open>crm_drift_example\<close>, valid, with
  the forward slope \<open>1/1024\<close> and the inverse slope the \<open>double\<close> nearest to \<open>-1/1025\<close>,
  the reference point at local \<open>1025000000 ps\<close> (tick 41000) and remote
  \<open>1024000000 ps\<close> (tick 40960); \<open>crm_reversed_example\<close>, valid, with both slopes \<open>-2\<close>
  in the minus-one form, the reference point at local \<open>1000000000 ps\<close> (tick 40000) and
  remote \<open>3000000000 ps\<close> (tick 120000).
\<close>

definition crm_drift_example :: "rat crm" where
  "crm_drift_example =
     (crm_init binary64_ops)
       \<lparr>crm_valid := True, crm_slope_lr_m1 := 1 / 1024,
        crm_slope_rl_m1 := - (1124801467909119 / 1152921504606846976),
        crm_local_ref_ps := 1025000000, crm_remote_ref_ps := 1024000000\<rparr>"

definition crm_reversed_example :: "rat crm" where
  "crm_reversed_example =
     (crm_init binary64_ops)
       \<lparr>crm_valid := True, crm_slope_lr_m1 := - 2, crm_slope_rl_m1 := - 2,
        crm_local_ref_ps := 1000000000, crm_remote_ref_ps := 3000000000\<rparr>"

text \<open>
  The states in which \<open>dtc_publish_request\<close> leaves \<open>aligned_example\<close>, for
  \<open>crm_drift_example\<close> and for \<open>crm_reversed_example\<close>: one TEZ later (cycle 4,
  \<open>timer_base_ticks\<close> 60000), with the request pending.
\<close>

definition published_drift_example :: dtr where
  "published_drift_example =
     \<lparr>s_mode = DTR_MODE_SLAVE, s_state = DTR_STATE_ALIGNED, cycle_counter = 4,
      active_period_ticks = 20000, shadow_period_ticks = 20000,
      timer_base_ticks = 60000, period_ticks = 20000,
      base_period_fp16 = 1310752768, period_ticks_frac_acc = 32768,
      s_align_request =
        \<lparr>pending = True, aligned_local_ticks = 100089,
         aligned_cycle_counter = 5, aligned_base_period_fp16 = 1312000000\<rparr>,
      s_align_feedback =
        \<lparr>ready = False, fb_cycle_counter = 3, fb_cycle_delta = 0,
         fb_period_ticks = 20000, fb_period_ticks_delta = 0\<rparr>,
      s_tez_listener_task = Some 1, s_app_callback = True,
      hw_timer_period = 20000, hw_gpio_forced_low = False,
      tez_notifications = [1], app_callback_calls = [3, 4]\<rparr>"

definition published_reversed_example :: dtr where
  "published_reversed_example =
     \<lparr>s_mode = DTR_MODE_SLAVE, s_state = DTR_STATE_ALIGNED, cycle_counter = 4,
      active_period_ticks = 20000, shadow_period_ticks = 20000,
      timer_base_ticks = 60000, period_ticks = 20000,
      base_period_fp16 = 1310752768, period_ticks_frac_acc = 32768,
      s_align_request =
        \<lparr>pending = True, aligned_local_ticks = 19992,
         aligned_cycle_counter = 7, aligned_base_period_fp16 = - 1310720000\<rparr>,
      s_align_feedback =
        \<lparr>ready = False, fb_cycle_counter = 3, fb_cycle_delta = 0,
         fb_period_ticks = 20000, fb_period_ticks_delta = 0\<rparr>,
      s_tez_listener_task = Some 1, s_app_callback = True,
      hw_timer_period = 20000, hw_gpio_forced_low = False,
      tez_notifications = [1], app_callback_calls = [3, 4]\<rparr>"

section \<open>FTM: from the report to CRM (ftm.c)\<close>

text \<open>
  \<open>process_ftm_report\<close> with the state it works on: the four unwrap states that
  \<open>ftm_poll_task\<close> owns and the session counter. The report buffer is given as the four
  lists of its \<open>t1\<close> to \<open>t4\<close> fields (\<open>uint64_t\<close>, converted to the \<open>int64_t\<close> parameter of
  \<open>clock_unwrap\<close>) and the entry count. The loop unwraps the four fields of one entry
  after the other; the four unwrap states are independent, so each list is unwrapped
  on its own here. The result is the new state and the callbacks invoked.
\<close>

record ftm_state =
  t1_unwrap :: unwrap_state
  t2_unwrap :: unwrap_state
  t3_unwrap :: unwrap_state
  t4_unwrap :: unwrap_state
  s_ftm_session_number :: u32

definition ftm_poll_init :: ftm_state where
  "ftm_poll_init =
     \<lparr>t1_unwrap = unwrap_init WRAP_48BIT WRAP2_T1_T4,
      t2_unwrap = unwrap_init WRAP_32BIT_1E6 0,
      t3_unwrap = unwrap_init WRAP_32BIT_1E6 0,
      t4_unwrap = unwrap_init WRAP_48BIT WRAP2_T1_T4,
      s_ftm_session_number = 0\<rparr>"

definition process_ftm_report ::
  "'d fp_ops \<Rightarrow> i64 list \<Rightarrow> i64 list \<Rightarrow> i64 list \<Rightarrow> i64 list \<Rightarrow> u8
     \<Rightarrow> ftm_state \<times> 'd crm \<Rightarrow> (ftm_state \<times> 'd crm) \<times> nat list" where
  "process_ftm_report ops raw_t1 raw_t2 raw_t3 raw_t4 count st =
     (if count = 0 then (st, [])
      else
        (let f = fst st;
             session = s_ftm_session_number f + 1;
             (t1_ps, u1) = unwrap_all (take (unat count) raw_t1) (t1_unwrap f);
             (t2_ps, u2) = unwrap_all (take (unat count) raw_t2) (t2_unwrap f);
             (t3_ps, u3) = unwrap_all (take (unat count) raw_t3) (t3_unwrap f);
             (t4_ps, u4) = unwrap_all (take (unat count) raw_t4) (t4_unwrap f);
             (crm, calls) =
               crm_process_ftm_report ops session t1_ps t2_ps t3_ps t4_ps count (snd st)
         in ((\<lparr>t1_unwrap = u1, t2_unwrap = u2, t3_unwrap = u3, t4_unwrap = u4,
               s_ftm_session_number = session\<rparr>, crm), calls)))"

chapter \<open>Properties\<close>

section \<open>Signed and unsigned readings of 64-bit words\<close>

lemma sint_add_no_overflow:
  fixes a b :: i64
  assumes "- (2 ^ 63) \<le> sint a + sint b" and "sint a + sint b < 2 ^ 63"
  shows "sint (a + b) = sint a + sint b"
  using assms by (simp add: sint_word_ariths signed_take_bit_int_eq_self)

lemma sint_sub_no_overflow:
  fixes a b :: i64
  assumes "- (2 ^ 63) \<le> sint a - sint b" and "sint a - sint b < 2 ^ 63"
  shows "sint (a - b) = sint a - sint b"
  using assms by (simp add: sint_word_ariths signed_take_bit_int_eq_self)

lemma sint_eq_uint_small:
  fixes w :: i64
  assumes "uint w < 2 ^ 63"
  shows "sint w = uint w"
proof -
  have "- (2 ^ 63) \<le> uint w" by (rule order_trans [of _ 0]) simp_all
  then have "signed_take_bit 63 (uint w) = uint w"
    using assms by (intro signed_take_bit_int_eq_self) simp_all
  then show ?thesis by (simp add: sint_uint)
qed

section \<open>Counter unwrapping\<close>

lemma clock_unwrap_fields:
  "wrap_value (snd (clock_unwrap x st)) = wrap_value st"
  "wrap_value2 (snd (clock_unwrap x st)) = wrap_value2 st"
  "last_val (snd (clock_unwrap x st)) = x"
  "fst (clock_unwrap x st) = x + offset (snd (clock_unwrap x st))"
  by (simp_all add: clock_unwrap_def Let_def)

lemma clock_unwrap_offset_cases:
  "offset (snd (clock_unwrap x st)) = offset st
   \<or> offset (snd (clock_unwrap x st)) = offset st + wrap_value st
   \<or> offset (snd (clock_unwrap x st)) = offset st + wrap_value2 st"
  by (simp add: clock_unwrap_def Let_def)

text \<open>One call moves the offset up by at most the larger of the two wrap periods.\<close>

lemma clock_unwrap_offset_bounds:
  fixes st :: unwrap_state
  defines "M \<equiv> max (sint (wrap_value st)) (sint (wrap_value2 st))"
  assumes w: "0 \<le>s wrap_value st" and w2: "0 \<le>s wrap_value2 st"
    and ovf: "sint (offset st) + M < 2 ^ 63"
  shows "sint (offset st) \<le> sint (offset (snd (clock_unwrap x st)))"
    and "sint (offset (snd (clock_unwrap x st))) \<le> sint (offset st) + M"
proof -
  have w': "0 \<le> sint (wrap_value st)" and w2': "0 \<le> sint (wrap_value2 st)"
    using w w2 by (simp_all add: word_sle_eq)
  have lo: "- (2 ^ 63) \<le> sint (offset st)"
    using sint_ge [of "offset st"] by simp
  have a: "sint (offset st + wrap_value st) = sint (offset st) + sint (wrap_value st)"
    using w' lo ovf by (intro sint_add_no_overflow) (simp_all add: M_def)
  have b: "sint (offset st + wrap_value2 st) = sint (offset st) + sint (wrap_value2 st)"
    using w2' lo ovf by (intro sint_add_no_overflow) (simp_all add: M_def)
  show "sint (offset st) \<le> sint (offset (snd (clock_unwrap x st)))"
    using clock_unwrap_offset_cases [of x st] a b w' w2' by auto
  show "sint (offset (snd (clock_unwrap x st))) \<le> sint (offset st) + M"
    using clock_unwrap_offset_cases [of x st] a b w' w2' by (auto simp: M_def)
qed

text \<open>
  Two successive calls. The second call sees \<open>last_val = x1\<close>: when \<open>x2\<close> is smaller a
  wrap is registered (a non-zero \<open>x1\<close> is the only way to be above a non-negative \<open>x2\<close>),
  and the period added exceeds \<open>x1\<close>.
\<close>

lemma clock_unwrap_pair_mono:
  fixes st :: unwrap_state
  defines "M \<equiv> max (sint (wrap_value st)) (sint (wrap_value2 st))"
  assumes x1: "0 \<le>s x1" "x1 <s wrap_value st"
    and x2: "0 \<le>s x2" "x2 <s wrap_value st"
    and w2: "0 \<le>s wrap_value2 st"
    and ovf: "sint (offset st) + 3 * M \<le> 2 ^ 63"
  shows "fst (clock_unwrap x1 st) \<le>s fst (clock_unwrap x2 (snd (clock_unwrap x1 st)))"
proof -
  define st1 where "st1 = snd (clock_unwrap x1 st)"
  define W where "W = sint (wrap_value st)"
  define W2 where "W2 = sint (wrap_value2 st)"
  have x1': "0 \<le> sint x1" "sint x1 < W" and x2': "0 \<le> sint x2" "sint x2 < W"
    and w2': "0 \<le> W2"
    using x1 x2 w2 by (simp_all add: word_sle_eq word_sless_alt W_def W2_def)
  have M: "W \<le> M" "W2 \<le> M" "0 < M" using x1' by (simp_all add: M_def W_def W2_def)
  have w: "0 \<le>s wrap_value st" using x1' by (simp add: word_sle_eq W_def)
  have f1: "wrap_value st1 = wrap_value st" "wrap_value2 st1 = wrap_value2 st"
    "last_val st1 = x1"
    by (simp_all add: st1_def clock_unwrap_fields)
  have o1: "sint (offset st1) \<le> sint (offset st) + M" "sint (offset st) \<le> sint (offset st1)"
    unfolding st1_def M_def
    using clock_unwrap_offset_bounds [OF w w2, of x1] ovf M by (simp_all add: M_def)
  have lo: "- (2 ^ 63) \<le> sint (offset st1)"
    using sint_ge [of "offset st1"] by simp
  have out1: "sint (x1 + offset st1) = sint x1 + sint (offset st1)"
    using x1' o1 lo ovf M by (intro sint_add_no_overflow) simp_all
  have addW: "sint (offset st1 + wrap_value st) = sint (offset st1) + W"
    unfolding W_def using x1' o1 lo ovf M by (intro sint_add_no_overflow) (simp_all add: W_def)
  have addW2: "sint (offset st1 + wrap_value2 st) = sint (offset st1) + W2"
    unfolding W2_def using w2' o1 lo ovf M by (intro sint_add_no_overflow) (simp_all add: W2_def)
  have outW: "sint (x2 + (offset st1 + wrap_value st)) = sint x2 + (sint (offset st1) + W)"
    unfolding addW [symmetric]
    using x2' x1' o1 lo ovf M by (intro sint_add_no_overflow) (simp_all add: addW)
  have outW2: "sint (x2 + (offset st1 + wrap_value2 st)) = sint x2 + (sint (offset st1) + W2)"
    unfolding addW2 [symmetric]
    using x2' x1' w2' o1 lo ovf M by (intro sint_add_no_overflow) (simp_all add: addW2)
  have out0: "sint (x2 + offset st1) = sint x2 + sint (offset st1)"
    using x2' o1 lo ovf M by (intro sint_add_no_overflow) simp_all
  have x10: "x1 = 0 \<Longrightarrow> sint x1 = 0" by simp
  have "sint (x1 + offset st1) \<le> sint (fst (clock_unwrap x2 st1))"
    using x1' x2' w2' out1 outW outW2 out0 x10
    by (auto simp add: clock_unwrap_def Let_def f1 word_sless_alt W_def W2_def)
  then show ?thesis
    by (simp add: word_sle_eq st1_def [symmetric] clock_unwrap_fields(4) [of x1 st, folded st1_def])
qed

lemma unwrap_all_hd:
  "fst (unwrap_all (x # xs) st) =
     fst (clock_unwrap x st) # fst (unwrap_all xs (snd (clock_unwrap x st)))"
  by (simp add: split_def Let_def)

lemma unwrap_all_successively:
  fixes st :: unwrap_state
  assumes "\<forall>x \<in> set xs. 0 \<le>s x \<and> x <s wrap_value st"
    and "0 \<le>s wrap_value2 st"
    and "sint (offset st) + (int (length xs) + 1)
           * max (sint (wrap_value st)) (sint (wrap_value2 st)) \<le> 2 ^ 63"
  shows "successively (\<le>s) (fst (unwrap_all xs st))"
  using assms
proof (induction xs arbitrary: st)
  case Nil
  then show ?case by simp
next
  case (Cons x xs)
  note IH = Cons.IH and raws = Cons.prems(1) and w2 = Cons.prems(2) and ovf = Cons.prems(3)
  show ?case
  proof (cases xs)
    case Nil
    then show ?thesis by (simp add: split_def Let_def)
  next
    case tail: (Cons x' xs')
    define M where "M = max (sint (wrap_value st)) (sint (wrap_value2 st))"
    define st1 where "st1 = snd (clock_unwrap x st)"
    have x: "0 \<le>s x" "x <s wrap_value st" and x': "0 \<le>s x'" "x' <s wrap_value st"
      using raws tail by simp_all
    have M0: "0 < M" using x by (simp add: M_def word_sle_eq word_sless_alt)
    have w: "0 \<le>s wrap_value st" using x by (simp add: word_sle_eq word_sless_alt)
    have len: "3 \<le> int (length (x # xs)) + 1" using tail by simp
    have "3 * M \<le> (int (length (x # xs)) + 1) * M"
      using len M0 by (intro mult_right_mono) simp_all
    then have ovf3: "sint (offset st) + 3 * M \<le> 2 ^ 63"
      using ovf by (simp add: M_def)
    have pair: "fst (clock_unwrap x st) \<le>s fst (clock_unwrap x' st1)"
      unfolding st1_def
      using clock_unwrap_pair_mono [OF x x' w2] ovf3 by (simp add: M_def)
    have f1: "wrap_value st1 = wrap_value st" "wrap_value2 st1 = wrap_value2 st"
      by (simp_all add: st1_def clock_unwrap_fields)
    have "sint (offset st) + M < 2 ^ 63" using ovf3 M0 by simp
    then have o1: "sint (offset st1) \<le> sint (offset st) + M"
      unfolding st1_def M_def
      using clock_unwrap_offset_bounds(2) [OF w w2, of x] by simp
    have "sint (offset st1) + (int (length xs) + 1) * M
          \<le> sint (offset st) + (int (length (x # xs)) + 1) * M"
      using o1 by (simp add: algebra_simps)
    then have ovf': "sint (offset st1) + (int (length xs) + 1)
                       * max (sint (wrap_value st1)) (sint (wrap_value2 st1)) \<le> 2 ^ 63"
      using ovf by (simp add: f1 M_def)
    have rest: "successively (\<le>s) (fst (unwrap_all xs st1))"
      using IH [of st1] raws w2 ovf' by (simp add: f1)
    show ?thesis
      using pair rest unfolding tail
      by (simp add: unwrap_all_hd st1_def [symmetric] del: unwrap_all.simps)
  qed
qed

lemma dual_wrap_short:
  fixes W2 :: u64
  assumes "1 < W2" and "W2 < 2 ^ 63 - 1"
  shows "fst (unwrap_all [W2 - 1, 0] (unwrap_init WRAP_48BIT W2)) = [W2 - 1, W2]"
proof -
  have u: "1 < uint W2" "uint W2 < 2 ^ 63 - 1"
    using assms by (simp_all add: word_less_alt)
  have m1: "uint (W2 - 1) = uint W2 - 1"
    using u by (simp add: uint_sub_if')
  have s: "sint W2 = uint W2" "sint (W2 - 1) = uint W2 - 1"
    using u m1 by (simp_all add: sint_eq_uint_small)
  have nz: "W2 - 1 \<noteq> 0" using m1 u by (metis diff_gt_0_iff_gt less_irrefl uint_0_eq)
  have pos: "0 < W2" using assms(1) by (simp add: word_less_alt)
  show ?thesis
    using s nz pos u
    by (simp add: unwrap_init_def clock_unwrap_def Let_def word_sless_alt)
qed

lemma dual_wrap_long:
  fixes W2 :: u64
  assumes "W2 < 2 ^ 63 - 1"
  shows "fst (unwrap_all [W2 + 1, 0] (unwrap_init WRAP_48BIT W2)) = [W2 + 1, WRAP_48BIT]"
proof -
  have u: "0 \<le> uint W2" "uint W2 < 2 ^ 63 - 1"
    using assms by (simp_all add: word_less_alt)
  have p1: "uint (W2 + 1) = uint W2 + 1"
    using u by (simp add: uint_plus_if')
  have s: "sint W2 = uint W2" "sint (W2 + 1) = uint W2 + 1"
    using u p1 by (simp_all add: sint_eq_uint_small)
  have nz: "W2 + 1 \<noteq> 0"
    using p1 u by (metis add_nonneg_pos less_irrefl uint_0_eq zero_less_one)
  show ?thesis
    using s nz u
    by (simp add: unwrap_init_def clock_unwrap_def Let_def word_sless_alt)
qed

text \<open>
  \<^bold>\<open>C3\<close> (corrected). One call \<open>clock_unwrap raw st\<close>: when \<open>last_val \<noteq> 0\<close> and
  \<open>raw < last_val\<close> (signed), the offset grows by \<open>wrap_value2\<close> if \<open>wrap_value2 > 0\<close> and
  \<open>last_val < (int64_t)wrap_value2\<close>, and by \<open>wrap_value\<close> otherwise, and \<open>wrap_count\<close> grows
  by one; otherwise both stay; in all cases \<open>last_val\<close> becomes \<open>raw\<close> and the call returns
  \<open>raw\<close> plus the new offset. With \<open>wrap_value = 2^48\<close> and \<open>wrap_value2 = W2\<close>, on a fresh
  state, the inputs \<open>(W2 - 1, 0)\<close> return \<open>(W2 - 1, W2)\<close> and the inputs \<open>(W2 + 1, 0)\<close>
  return \<open>(W2 + 1, 2^48)\<close>, for \<open>1 < W2 < 2^63 - 1\<close>. The bound \<open>W2 > 0\<close> of the claim is
  not enough: at \<open>W2 = 1\<close> the first input is \<open>0\<close>, which the next call reads as the
  "no previous value" sentinel, so no wrap is registered
  (\<open>clock_unwrap_dual_wrap_counterexample\<close>).
\<close>

theorem clock_unwrap_apply:
  fixes st :: unwrap_state and raw :: i64 and W2 :: u64
  shows
  "(last_val st \<noteq> 0 \<and> raw <s last_val st \<longrightarrow>
      offset (snd (clock_unwrap raw st)) =
        offset st + (if 0 < wrap_value2 st \<and> last_val st <s wrap_value2 st
                     then wrap_value2 st else wrap_value st)
      \<and> wrap_count (snd (clock_unwrap raw st)) = wrap_count st + 1)
   \<and> (\<not> (last_val st \<noteq> 0 \<and> raw <s last_val st) \<longrightarrow>
      offset (snd (clock_unwrap raw st)) = offset st
      \<and> wrap_count (snd (clock_unwrap raw st)) = wrap_count st)
   \<and> last_val (snd (clock_unwrap raw st)) = raw
   \<and> wrap_value (snd (clock_unwrap raw st)) = wrap_value st
   \<and> wrap_value2 (snd (clock_unwrap raw st)) = wrap_value2 st
   \<and> fst (clock_unwrap raw st) = raw + offset (snd (clock_unwrap raw st))
   \<and> (1 < W2 \<and> W2 < 2 ^ 63 - 1 \<longrightarrow>
        fst (unwrap_all [W2 - 1, 0] (unwrap_init WRAP_48BIT W2)) = [W2 - 1, W2]
      \<and> fst (unwrap_all [W2 + 1, 0] (unwrap_init WRAP_48BIT W2)) = [W2 + 1, WRAP_48BIT])"
proof -
  have general:
    "(last_val st \<noteq> 0 \<and> raw <s last_val st \<longrightarrow>
      offset (snd (clock_unwrap raw st)) =
        offset st + (if 0 < wrap_value2 st \<and> last_val st <s wrap_value2 st
                     then wrap_value2 st else wrap_value st)
      \<and> wrap_count (snd (clock_unwrap raw st)) = wrap_count st + 1)
   \<and> (\<not> (last_val st \<noteq> 0 \<and> raw <s last_val st) \<longrightarrow>
      offset (snd (clock_unwrap raw st)) = offset st
      \<and> wrap_count (snd (clock_unwrap raw st)) = wrap_count st)
   \<and> last_val (snd (clock_unwrap raw st)) = raw
   \<and> wrap_value (snd (clock_unwrap raw st)) = wrap_value st
   \<and> wrap_value2 (snd (clock_unwrap raw st)) = wrap_value2 st
   \<and> fst (clock_unwrap raw st) = raw + offset (snd (clock_unwrap raw st))"
    by (simp add: clock_unwrap_def Let_def)
  show ?thesis
    using general dual_wrap_short [of W2] dual_wrap_long [of W2] by blast
qed

text \<open>
  The witness: the MAC clock's state just before its 32-bit counter wraps, and the dual
  wrap at the secondary period ftm.c uses for t1 and t4, \<open>(2^32 * 10^6) mod 2^48\<close>.
\<close>

theorem clock_unwrap_apply_witness:
  "offset (snd (clock_unwrap 5 \<lparr>last_val = 4294967286, offset = 0, wrap_count = 0,
                                  wrap_value = 4294967296, wrap_value2 = 0\<rparr>)) = 4294967296
   \<and> wrap_count (snd (clock_unwrap 5 \<lparr>last_val = 4294967286, offset = 0, wrap_count = 0,
                                  wrap_value = 4294967296, wrap_value2 = 0\<rparr>)) = 1
   \<and> fst (unwrap_all [WRAP2_T1_T4 - 1, 0] (unwrap_init WRAP_48BIT WRAP2_T1_T4))
       = [WRAP2_T1_T4 - 1, WRAP2_T1_T4]
   \<and> fst (unwrap_all [WRAP2_T1_T4 + 1, 0] (unwrap_init WRAP_48BIT WRAP2_T1_T4))
       = [WRAP2_T1_T4 + 1, WRAP_48BIT]
   \<and> WRAP2_T1_T4 = 72842645340160"
proof -
  have w: "WRAP2_T1_T4 = 72842645340160"
    by (simp add: WRAP2_T1_T4_def WRAP_32BIT_1E6_def WRAP_48BIT_def)
  have h1: "(4294967286 :: i64) \<noteq> 0 \<and> (5 :: i64) <s 4294967286" by simp
  have h2: "1 < WRAP2_T1_T4 \<and> WRAP2_T1_T4 < 2 ^ 63 - 1" by (simp add: w)
  show ?thesis
    using h1 h2 w
      clock_unwrap_apply [of "\<lparr>last_val = 4294967286, offset = 0, wrap_count = 0,
                                  wrap_value = 4294967296, wrap_value2 = 0\<rparr>" 5 WRAP2_T1_T4]
    by simp
qed

text \<open>
  The claim as stated fails at \<open>W2 = 1\<close>: the inputs \<open>(W2 - 1, 0) = (0, 0)\<close> return
  \<open>(0, 0)\<close>, not \<open>(0, 1)\<close>.
\<close>

theorem clock_unwrap_dual_wrap_counterexample:
  "fst (unwrap_all [1 - 1, 0] (unwrap_init WRAP_48BIT 1)) = [0, 0]
   \<and> fst (unwrap_all [1 - 1, 0] (unwrap_init WRAP_48BIT 1)) \<noteq> [1 - 1, 1]"
  by (simp add: unwrap_init_def clock_unwrap_def WRAP_48BIT_def)

text \<open>
  \<^bold>\<open>C4\<close> (confirmed). For every sequence of raw inputs in \<open>[0, wrap_value)\<close>, the values
  returned by successive calls of \<open>clock_unwrap\<close> on the same state are non-decreasing
  (as signed 64-bit values). The sequence need not even come from a counter: a drop of
  the raw value is always read as a wrap. The side conditions say that the secondary
  period is not negative as an \<open>int64_t\<close> and that the offset has room for one period per
  call, so that no signed addition overflows.
\<close>

theorem clock_unwrap_monotone:
  fixes st :: unwrap_state
  assumes "\<forall>x \<in> set xs. 0 \<le>s x \<and> x <s wrap_value st"
    and "0 \<le>s wrap_value2 st"
    and "sint (offset st) + (int (length xs) + 1)
           * max (sint (wrap_value st)) (sint (wrap_value2 st)) \<le> 2 ^ 63"
  shows "sorted_wrt (\<le>s) (fst (unwrap_all xs st))"
proof -
  have "transp ((\<le>s) :: i64 \<Rightarrow> i64 \<Rightarrow> bool)"
    by (rule transpI) (simp add: word_sle_eq)
  then show ?thesis
    using unwrap_all_successively [OF assms] by (simp add: successively_conv_sorted_wrt)
qed

text \<open>
  The witness is scenario 4 of the specification: the raw MAC clock passes
  \<open>2^32 - 10\<close>, wraps to 5, goes on to 7 and wraps again to 2.
\<close>

theorem clock_unwrap_monotone_witness:
  "sorted_wrt (\<le>s) (fst (unwrap_all [4294967286, 5, 7, 2] (unwrap_init MAC_CLOCK_WRAP_US 0)))
   \<and> fst (unwrap_all [4294967286, 5, 7, 2] (unwrap_init MAC_CLOCK_WRAP_US 0))
       = [4294967286, 4294967301, 4294967303, 8589934594]"
proof -
  have "sorted_wrt (\<le>s)
          (fst (unwrap_all [4294967286, 5, 7, 2] (unwrap_init MAC_CLOCK_WRAP_US 0)))"
    by (rule clock_unwrap_monotone)
       (simp_all add: unwrap_init_def MAC_CLOCK_WRAP_US_def word_sle_eq word_sless_alt)
  moreover have "fst (unwrap_all [4294967286, 5, 7, 2] (unwrap_init MAC_CLOCK_WRAP_US 0))
       = [4294967286, 4294967301, 4294967303, 8589934594]"
    by (simp add: unwrap_init_def MAC_CLOCK_WRAP_US_def clock_unwrap_def)
  ultimately show ?thesis by simp
qed

section \<open>The TEZ handler\<close>

lemma sint_of_nat_i32:
  assumes "n < 2 ^ 31"
  shows "sint (of_nat n :: i32) = int n"
proof -
  have w: "(of_nat n :: i32) = word_of_int (int n)" by simp
  have "signed_take_bit 31 (int n) = int n"
    using assms by (intro signed_take_bit_int_eq_self) simp_all
  then show ?thesis unfolding w by (simp only: sint_sbintrunc') simp
qed

lemma base_div_ucast:
  fixes base :: u32
  shows "(ucast (base div 65536) :: i64) = of_nat (unat base div 65536)"
proof -
  have "(ucast (base div 65536) :: i64) = of_nat (unat (base div 65536))"
    by (rule of_nat_unat [symmetric])
  then show ?thesis by (simp add: unat_div)
qed

lemma base_mod_of_nat:
  fixes base :: u32
  shows "base mod 65536 = of_nat (unat base mod 65536)"
proof -
  have "base mod 65536 = of_nat (unat (base mod 65536))"
    by simp
  then show ?thesis by (simp add: unat_mod)
qed

text \<open>One pass through the body of the roll-forward loop (and of the dithering branch).\<close>

lemma dither_div_mod:
  fixes a B :: nat
  assumes "a < 65536"
  shows "(a + B) div 65536 = B div 65536 + (if 65536 \<le> a + B mod 65536 then 1 else 0)"
    and "(a + B) mod 65536 = (if 65536 \<le> a + B mod 65536 then a + B mod 65536 - 65536 else a + B mod 65536)"
proof -
  define P where "P = B div 65536"
  define f where "f = B mod 65536"
  have f: "f < 65536" by (simp add: f_def)
  have B: "B = f + 65536 * P" by (simp add: f_def P_def)
  have split: "a + B = (a + f) + 65536 * P" by (simp add: B)
  have d: "(a + B) div 65536 = P + (a + f) div 65536"
    unfolding split by (rule div_mult_self2) simp
  have m: "(a + B) mod 65536 = (a + f) mod 65536"
    unfolding split by (rule mod_mult_self2)
  show "(a + B) div 65536 = B div 65536 + (if 65536 \<le> a + B mod 65536 then 1 else 0)"
  proof (cases "65536 \<le> a + f")
    case True
    then have "a + f = (a + f - 65536) + 65536 * 1" by simp
    then have "(a + f) div 65536 = 1 + (a + f - 65536) div 65536"
      by (metis div_mult_self2 zero_neq_numeral)
    moreover have "(a + f - 65536) div 65536 = 0" using assms f by simp
    ultimately show ?thesis using True d by (simp add: P_def f_def)
  next
    case False
    then have "(a + f) div 65536 = 0" by simp
    then show ?thesis using False d by (simp add: P_def f_def)
  qed
  show "(a + B) mod 65536 = (if 65536 \<le> a + B mod 65536 then a + B mod 65536 - 65536 else a + B mod 65536)"
  proof (cases "65536 \<le> a + f")
    case True
    then have "a + f = (a + f - 65536) + 65536 * 1" by simp
    then have "(a + f) mod 65536 = (a + f - 65536) mod 65536"
      by (metis mod_mult_self2)
    moreover have "(a + f - 65536) mod 65536 = a + f - 65536" using assms f by simp
    ultimately show ?thesis using True m by (simp add: f_def)
  next
    case False
    then have "(a + f) mod 65536 = a + f" by simp
    then show ?thesis using False m by (simp add: f_def)
  qed
qed


lemma carry_test:
  assumes "a < 65536" and "f < 65536"
  shows "((65536 :: i32) \<le>s of_nat a + of_nat f) = (65536 \<le> a + f)"
proof -
  have lt: "a + f < 2 ^ 31" using assms by simp
  have "sint (of_nat (a + f) :: i32) = int (a + f)"
    by (rule sint_of_nat_i32 [OF lt])
  then have s: "sint (of_nat a + of_nat f :: i32) = int a + int f" by simp
  have "(65536 \<le> int a + int f) = (65536 \<le> a + f)" by linarith
  then show ?thesis by (simp add: word_sle_eq s)
qed

lemma carry_sub:
  assumes "65536 \<le> a + f"
  shows "(of_nat a + of_nat f - 65536 :: i32) = of_nat (a + f - 65536)"
  using assms by (simp add: of_nat_diff)

lemma roll_body_eq:
  fixes base :: u32 and p :: i64 and F :: "i64 \<Rightarrow> i32 \<Rightarrow> 'r"
  assumes a: "a < 65536"
  shows "(let p1 = p + ucast (base div FP16_SCALE);
              acc1 = of_nat a + base mod FP16_SCALE
          in if FP16_SCALE \<le>s acc1 then F (p1 + 1) (acc1 - FP16_SCALE) else F p1 acc1)
         = F (p + of_nat ((a + unat base) div 65536)) (of_nat ((a + unat base) mod 65536))"
proof -
  define f where "f = unat base mod 65536"
  define P where "P = unat base div 65536"
  have f: "f < 65536" by (simp add: f_def)
  note w = base_div_ucast [of base, folded P_def] base_mod_of_nat [of base, folded f_def]
  show ?thesis
  proof (cases "65536 \<le> a + f")
    case True
    define c where "c = a + f - 65536"
    note cs = carry_sub [OF True, folded c_def]
    have "(a + unat base) div 65536 = P + 1" "(a + unat base) mod 65536 = c"
      using True dither_div_mod [OF a, of "unat base"] by (simp_all add: f_def P_def c_def)
    then show ?thesis
      by (simp add: FP16_SCALE_def Let_def w carry_test [OF a f] cs True ac_simps)
  next
    case False
    have "(a + unat base) div 65536 = P" "(a + unat base) mod 65536 = a + f"
      using False dither_div_mod [OF a, of "unat base"] by (simp_all add: f_def P_def)
    then show ?thesis
      by (simp add: FP16_SCALE_def Let_def w carry_test [OF a f] False)
  qed
qed

lemma roll_forward_stop:
  "\<not> p < min_ticks \<Longrightarrow> roll_forward min_ticks base p acc cyc = Some (p, acc, cyc)"
  by (subst roll_forward.simps) simp

lemma roll_forward_unfold:
  assumes a: "a < 65536" and p: "p < min_ticks"
  shows "roll_forward min_ticks base p (of_nat a) cyc =
           roll_forward min_ticks base (p + of_nat ((a + unat base) div 65536))
             (of_nat ((a + unat base) mod 65536)) (cyc + 1)"
  by (subst roll_forward.simps)
     (simp only: p if_True
        roll_body_eq [OF a, where F = "\<lambda>p acc. roll_forward min_ticks base p acc (cyc + 1)"])

text \<open>
  After \<open>j\<close> passes from accumulator \<open>a\<close> the loop has added \<open>(a + j * B) div 65536\<close>
  ticks and the accumulator is \<open>(a + j * B) mod 65536\<close>.
\<close>

lemma dither_shift:
  fixes a B j :: nat
  shows "(a + Suc j * B) div 65536 = (a + B) div 65536 + ((a + B) mod 65536 + j * B) div 65536"
    and "(a + Suc j * B) mod 65536 = ((a + B) mod 65536 + j * B) mod 65536"
proof -
  define d where "d = (a + B) div 65536"
  define a' where "a' = (a + B) mod 65536"
  have "a + B = a' + 65536 * d" by (simp add: d_def a'_def)
  then have split: "a + Suc j * B = (a' + j * B) + 65536 * d" by simp
  show "(a + Suc j * B) div 65536 = (a + B) div 65536 + ((a + B) mod 65536 + j * B) div 65536"
    unfolding split d_def [symmetric] a'_def [symmetric] by (rule div_mult_self2) simp
  show "(a + Suc j * B) mod 65536 = ((a + B) mod 65536 + j * B) mod 65536"
    unfolding split a'_def [symmetric] by (rule mod_mult_self2)
qed

lemma roll_result_step:
  fixes rf :: "u64 \<Rightarrow> u32 \<Rightarrow> i64 \<Rightarrow> i32 \<Rightarrow> i64 \<Rightarrow> (i64 \<times> i32 \<times> i64) option"
  assumes IH: "\<And>min_ticks base p acc cyc r.
                 rf min_ticks base p acc cyc = Some r \<Longrightarrow> roll_result min_ticks base p acc cyc r"
    and body: "(if p < min_ticks
      then let p1 = p + ucast (base div FP16_SCALE);
               acc1 = acc + base mod FP16_SCALE
           in if FP16_SCALE \<le>s acc1
              then rf min_ticks base (p1 + 1) (acc1 - FP16_SCALE) (cyc + 1)
              else rf min_ticks base p1 acc1 (cyc + 1)
      else Some (p, acc, cyc)) = Some r"
  shows "roll_result min_ticks base p acc cyc r"
  unfolding roll_result_def
proof (intro allI impI)
  fix a
  assume acc: "acc = of_nat a" and a: "a < 65536"
  show "\<exists>k. r = (p + of_nat ((a + k * unat base) div 65536),
                  of_nat ((a + k * unat base) mod 65536), cyc + of_nat k)
             \<and> \<not> (p + of_nat ((a + k * unat base) div 65536) < min_ticks)
             \<and> (\<forall>j<k. p + of_nat ((a + j * unat base) div 65536) < min_ticks)"
  proof (cases "p < min_ticks")
    case False
    then have "r = (p, acc, cyc)" using body by simp
    then have "r = (p + of_nat ((a + 0 * unat base) div 65536),
                  of_nat ((a + 0 * unat base) mod 65536), cyc + of_nat 0)
             \<and> \<not> (p + of_nat ((a + 0 * unat base) div 65536) < min_ticks)
             \<and> (\<forall>j<0. p + of_nat ((a + j * unat base) div 65536) < min_ticks)"
      using False a acc by simp
    then show ?thesis by (rule exI)
  next
    case True
    define d where "d = (a + unat base) div 65536"
    define a' where "a' = (a + unat base) mod 65536"
    have a': "a' < 65536" by (simp add: a'_def)
    have "rf min_ticks base (p + of_nat d) (of_nat a') (cyc + 1) = Some r"
      using body True
      unfolding acc d_def a'_def
      by (simp only: if_True
          roll_body_eq [OF a, where F = "\<lambda>p acc. rf min_ticks base p acc (cyc + 1)"])
    from IH [OF this, unfolded roll_result_def, rule_format, OF refl a'] obtain k where
      r: "r = (p + of_nat d + of_nat ((a' + k * unat base) div 65536),
               of_nat ((a' + k * unat base) mod 65536), cyc + 1 + of_nat k)"
      and stop: "\<not> (p + of_nat d + of_nat ((a' + k * unat base) div 65536) < min_ticks)"
      and before: "\<forall>j<k. p + of_nat d + of_nat ((a' + j * unat base) div 65536) < min_ticks"
      by blast
    have sh1: "(a + Suc j * unat base) div 65536 = d + (a' + j * unat base) div 65536" for j
      unfolding d_def a'_def by (rule dither_shift)
    have sh2: "(a + Suc j * unat base) mod 65536 = (a' + j * unat base) mod 65536" for j
      unfolding d_def a'_def by (rule dither_shift)
    have sh3: "p + of_nat ((a + Suc j * unat base) div 65536)
                 = p + of_nat d + of_nat ((a' + j * unat base) div 65536)" for j
      by (simp only: sh1 of_nat_add add.assoc)
    have r': "r = (p + of_nat ((a + Suc k * unat base) div 65536),
                  of_nat ((a + Suc k * unat base) mod 65536), cyc + of_nat (Suc k))"
      unfolding sh3 sh2 using r by (simp only: of_nat_Suc add.assoc add.commute [of 1])
    have stop': "\<not> (p + of_nat ((a + Suc k * unat base) div 65536) < min_ticks)"
      unfolding sh3 by (rule stop)
    have before': "p + of_nat ((a + j * unat base) div 65536) < min_ticks" if "j < Suc k" for j
    proof (cases j)
      case 0
      then show ?thesis using True a by simp
    next
      case (Suc j')
      then have "j' < k" using that by simp
      then show ?thesis unfolding Suc sh3 using before by blast
    qed
    show ?thesis using r' stop' before' by blast
  qed
qed

lemma roll_forward_Some:
  assumes "roll_forward min_ticks base p acc cyc = Some r"
  shows "roll_result min_ticks base p acc cyc r"
  using assms
  by (rule roll_forward.raw_induct [where P = roll_result, rotated]) (rule roll_result_step)



lemma roll_forward_steps:
  assumes "a < 65536"
    and "\<forall>j<k. p + of_nat ((a + j * unat base) div 65536) < min_ticks"
    and "\<not> (p + of_nat ((a + k * unat base) div 65536) < min_ticks)"
  shows "roll_forward min_ticks base p (of_nat a) cyc =
           Some (p + of_nat ((a + k * unat base) div 65536),
                 of_nat ((a + k * unat base) mod 65536), cyc + of_nat k)"
  using assms
proof (induction k arbitrary: a p cyc)
  case 0
  then show ?case by (simp add: roll_forward_stop)
next
  case (Suc k)
  define d where "d = (a + unat base) div 65536"
  define a' where "a' = (a + unat base) mod 65536"
  have a': "a' < 65536" by (simp add: a'_def)
  have sh1: "(a + Suc j * unat base) div 65536 = d + (a' + j * unat base) div 65536" for j
    unfolding d_def a'_def by (rule dither_shift)
  have sh2: "(a + Suc j * unat base) mod 65536 = (a' + j * unat base) mod 65536" for j
    unfolding d_def a'_def by (rule dither_shift)
  have sh3: "p + of_nat ((a + Suc j * unat base) div 65536)
               = p + of_nat d + of_nat ((a' + j * unat base) div 65536)" for j
    by (simp only: sh1 of_nat_add add.assoc)
  have p: "p < min_ticks" using Suc.prems(2) [rule_format, of 0] Suc.prems(1) by simp
  have before: "\<forall>j<k. p + of_nat d + of_nat ((a' + j * unat base) div 65536) < min_ticks"
  proof (intro allI impI)
    fix j assume "j < k"
    then have "Suc j < Suc k" by simp
    from Suc.prems(2) [rule_format, OF this] show
      "p + of_nat d + of_nat ((a' + j * unat base) div 65536) < min_ticks"
      unfolding sh3 .
  qed
  have stop: "\<not> (p + of_nat d + of_nat ((a' + k * unat base) div 65536) < min_ticks)"
    using Suc.prems(3) unfolding sh3 .
  have "roll_forward min_ticks base p (of_nat a) cyc =
          roll_forward min_ticks base (p + of_nat d) (of_nat a') (cyc + 1)"
    unfolding d_def a'_def by (rule roll_forward_unfold [OF Suc.prems(1) p])
  also have "\<dots> = Some (p + of_nat d + of_nat ((a' + k * unat base) div 65536),
                 of_nat ((a' + k * unat base) mod 65536), cyc + 1 + of_nat k)"
    by (rule Suc.IH [OF a' before stop])
  also have "\<dots> = Some (p + of_nat ((a + Suc k * unat base) div 65536),
                 of_nat ((a + Suc k * unat base) mod 65536), cyc + of_nat (Suc k))"
    unfolding sh3 sh2 by (simp only: of_nat_Suc add.assoc add.commute [of 1])
  finally show ?case .
qed

lemma unat_add_of_nat:
  fixes p :: i64
  assumes "unat p + n < 2 ^ 64"
  shows "unat (p + of_nat n) = unat p + n"
proof -
  have n: "unat (of_nat n :: i64) = n"
    using assms by (simp add: unat_of_nat)
  have "unat p + unat (of_nat n :: i64) < 2 ^ LENGTH(64)"
    using assms n by simp
  then have "unat (p + of_nat n) = unat p + unat (of_nat n :: i64)"
    by (simp only: unat_add_lem)
  then show ?thesis using n by simp
qed

lemma dither_total_step:
  fixes B x :: nat
  assumes "B < 2 ^ 32"
  shows "(x + B) div 65536 \<le> x div 65536 + 65536"
proof -
  have "(x mod 65536 + B mod 65536) div 65536 < 2"
    by (rule less_mult_imp_div_less)
       (simp add: add_less_mono [OF mod_less_divisor mod_less_divisor])
  moreover have "B div 65536 < 65536"
    using assms by (intro less_mult_imp_div_less) simp
  ultimately show ?thesis
    by (simp add: div_add1_eq [of x B 65536])
qed

lemma roll_forward_reaches:
  fixes base :: u32 and p min_ticks :: u64
  assumes base: "base \<noteq> 0" and bound: "unat min_ticks \<le> 2 ^ 64 - 65536"
  shows "\<exists>k. \<not> (p + of_nat ((k * unat base) div 65536) < min_ticks)"
proof (cases "p < min_ticks")
  case False
  then have "\<not> (p + of_nat ((0 * unat base) div 65536) < min_ticks)" by simp
  then show ?thesis by (rule exI)
next
  case True
  define B where "B = unat base"
  define Q where "Q k = (unat min_ticks \<le> unat p + (k * B) div 65536)" for k
  have B1: "1 \<le> B" using base by (simp add: B_def unat_gt_0 Suc_le_eq)
  have B32: "B < 2 ^ 32" using unsigned_less [of base, where 'a = nat] by (simp add: B_def)
  have "unat min_ticks * 1 \<le> unat min_ticks * B" using B1 by (intro mult_le_mono2)
  then have "Q (65536 * unat min_ticks)" by (simp add: Q_def mult.assoc trans_le_add2)
  define k where "k = (LEAST k. Q k)"
  have Qk: "Q k" unfolding k_def by (rule LeastI) fact
  have "\<not> Q 0" using True by (simp add: Q_def word_less_nat_alt)
  then have "k \<noteq> 0" using Qk by (metis)
  then obtain k' where k': "k = Suc k'" by (cases k) auto
  have "\<not> Q k'" using not_less_Least [of k' Q] k' by (simp add: k_def)
  then have below: "unat p + (k' * B) div 65536 < unat min_ticks" by (simp add: Q_def)
  have "(k * B) div 65536 \<le> (k' * B) div 65536 + 65536"
    using dither_total_step [OF B32, of "k' * B"] by (simp add: k' add.commute)
  then have "unat p + (k * B) div 65536 < 2 ^ 64" using below bound by simp
  then have "unat (p + of_nat ((k * B) div 65536)) = unat p + (k * B) div 65536"
    by (rule unat_add_of_nat)
  then have "\<not> (p + of_nat ((k * unat base) div 65536) < min_ticks)"
    using Qk by (simp add: Q_def word_less_nat_alt B_def)
  then show ?thesis by (rule exI)
qed

lemma roll_forward_terminates:
  fixes base :: u32 and p min_ticks :: u64
  assumes base: "base \<noteq> 0" and bound: "unat min_ticks \<le> 2 ^ 64 - 65536"
  shows "\<exists>r. roll_forward min_ticks base p 0 cyc = Some r"
proof -
  define Q where "Q k = (\<not> (p + of_nat ((k * unat base) div 65536) < min_ticks))" for k
  have ex: "\<exists>k. Q k" unfolding Q_def by (rule roll_forward_reaches [OF assms])
  define k where "k = (LEAST k. Q k)"
  have Qk: "Q k" unfolding k_def using ex by (rule LeastI_ex)
  have before: "\<forall>j<k. p + of_nat ((0 + j * unat base) div 65536) < min_ticks"
  proof (intro allI impI)
    fix j assume "j < k"
    then have "\<not> Q j" unfolding k_def by (rule not_less_Least)
    then show "p + of_nat ((0 + j * unat base) div 65536) < min_ticks" by (simp add: Q_def)
  qed
  have stop: "\<not> (p + of_nat ((0 + k * unat base) div 65536) < min_ticks)"
    using Qk by (simp add: Q_def)
  have "roll_forward min_ticks base p (of_nat 0) cyc =
           Some (p + of_nat ((0 + k * unat base) div 65536),
                 of_nat ((0 + k * unat base) mod 65536), cyc + of_nat k)"
    by (rule roll_forward_steps [OF _ before stop]) simp
  then show ?thesis by simp
qed

text \<open>With a zero period the loop spins: a period below the minimum never returns.\<close>

lemma roll_forward_zero_base_diverges:
  assumes "p < min_ticks"
  shows "roll_forward min_ticks 0 p 0 cyc = None"
proof (rule ccontr)
  assume "roll_forward min_ticks 0 p 0 cyc \<noteq> None"
  then obtain r where "roll_forward min_ticks 0 p 0 cyc = Some r" by auto
  from roll_forward_Some [OF this, unfolded roll_result_def, rule_format, of 0]
  obtain k where "\<not> (p + of_nat ((0 + k * unat (0 :: u32)) div 65536) < min_ticks)"
    by auto
  then show False using assms by simp
qed


text \<open>The dithering branch computes the same step, starting the period from zero.\<close>

lemma tez_dither_of_nat:
  assumes a: "a < 65536" and acc: "period_ticks_frac_acc s = of_nat a"
  shows "tez_dither s =
           s\<lparr>period_ticks := of_nat ((a + unat (base_period_fp16 s)) div 65536),
             period_ticks_frac_acc := of_nat ((a + unat (base_period_fp16 s)) mod 65536)\<rparr>"
proof -
  define B where "B = unat (base_period_fp16 s)"
  define f where "f = B mod 65536"
  define P where "P = B div 65536"
  have f: "f < 65536" by (simp add: f_def)
  note w = base_div_ucast [of "base_period_fp16 s", folded B_def, folded P_def]
    base_mod_of_nat [of "base_period_fp16 s", folded B_def, folded f_def]
  show ?thesis
  proof (cases "65536 \<le> a + f")
    case True
    define c where "c = a + f - 65536"
    note cs = carry_sub [OF True, folded c_def]
    have "tez_dither s =
            s\<lparr>period_ticks := of_nat P + 1, period_ticks_frac_acc := of_nat c\<rparr>"
      by (simp add: tez_dither_def acc FP16_SCALE_def Let_def w carry_test [OF a f] cs True)
    moreover have "(a + B) div 65536 = P + 1" "(a + B) mod 65536 = c"
      using True dither_div_mod [OF a, of B] by (simp_all add: f_def P_def c_def)
    ultimately show ?thesis by (simp add: ac_simps B_def [symmetric])
  next
    case False
    have "tez_dither s =
            s\<lparr>period_ticks := of_nat P,
              period_ticks_frac_acc := of_nat a + of_nat f\<rparr>"
      by (simp add: tez_dither_def acc FP16_SCALE_def Let_def w carry_test [OF a f] False)
    moreover have "(a + B) div 65536 = P" "(a + B) mod 65536 = a + f"
      using False dither_div_mod [OF a, of B] by (simp_all add: f_def P_def)
    ultimately show ?thesis by (simp add: B_def [symmetric])
  qed
qed

lemma tez_common_end_Inr:
  assumes "tez_common_end s = Inr s'"
  shows "cycle_counter s' = cycle_counter s" "period_ticks s' = period_ticks s"
    "timer_base_ticks s' = timer_base_ticks s" "s_state s' = s_state s"
    "base_period_fp16 s' = base_period_fp16 s"
    "period_ticks_frac_acc s' = period_ticks_frac_acc s"
    "s_align_request s' = s_align_request s"
    "s_align_feedback s' = s_align_feedback s"
    "\<not> period_ticks s \<le>s 0" "\<not> 65535 <s period_ticks s"
  using assms
  by (auto simp add: tez_common_end_def Let_def split: if_splits option.splits)

lemma tez_common_begin_fields:
  "s_align_request (tez_common_begin s) = s_align_request s"
  "s_align_feedback (tez_common_begin s) = s_align_feedback s"
  "timer_base_ticks (tez_common_begin s) = timer_base_ticks s + ucast (active_period_ticks s)"
  "s_state (tez_common_begin s) = s_state s"
  "base_period_fp16 (tez_common_begin s) = base_period_fp16 s"
  "period_ticks_frac_acc (tez_common_begin s) = period_ticks_frac_acc s"
  "period_ticks (tez_common_begin s) = period_ticks s"
  by (simp_all add: tez_common_begin_def)

lemma tez_apply_alignment_Inr:
  assumes "tez_apply_alignment cfg s = Inr s2"
  shows "\<exists>p acc cyc.
           roll_forward (min_period_ticks cfg) (ucast (aligned_base_period_fp16 (s_align_request s)))
             (aligned_local_ticks (s_align_request s) - timer_base_ticks s) 0
             (aligned_cycle_counter (s_align_request s)) = Some (p, acc, cyc)
           \<and> cycle_counter s2 = cyc \<and> period_ticks s2 = p \<and> period_ticks_frac_acc s2 = acc
           \<and> timer_base_ticks s2 = timer_base_ticks s
           \<and> base_period_fp16 s2 = ucast (aligned_base_period_fp16 (s_align_request s))
           \<and> \<not> pending (s_align_request s2)
           \<and> s_state s2 = (if s_state s = DTR_STATE_RUNNING then DTR_STATE_ALIGNED else s_state s)"
  using assms
  by (auto simp add: tez_apply_alignment_def Let_def split: option.splits if_splits)

text \<open>
  \<^bold>\<open>C1\<close> (corrected). The TEZ handler runs with a request pending, with target cycle
  \<open>C\<close>, target ticks \<open>L\<close> and target period \<open>B\<close> (truncated to 32 bits, as the
  assignment to \<open>base_period_fp16\<close> does). If it returns, then for the number \<open>k\<close> of
  passes of the roll-forward loop: \<open>cycle_counter = C + k\<close>; \<open>k\<close> is the least number
  of passes after which \<open>period_ticks\<close> is no longer below \<open>DTR_MIN_PERIOD_TICKS\<close>
  (unsigned comparison); and \<open>timer_base_ticks + period_ticks = L + (k * B) div 65536\<close>,
  the target moved on by the \<open>k\<close> dithered periods the loop added. So
  \<open>timer_base_ticks + period_ticks = L\<close> holds when \<open>k = 0\<close>, and not, as the claim has
  it, after a roll-forward (\<open>tez_alignment_apply_counterexample\<close>). The loop does
  return when \<open>B\<close> is not zero (\<open>DTR_MIN_PERIOD_TICKS\<close> is far below \<open>2^64 - 65536\<close>).
\<close>

theorem tez_alignment_apply:
  fixes cfg :: dtr_config and s :: dtr
  assumes pend: "pending (s_align_request s)"
  shows "(\<forall>s'. dtr_tez_handler cfg s = Inr s' \<longrightarrow>
            timer_base_ticks s' = timer_base_ticks s + ucast (active_period_ticks s)
          \<and> (\<exists>k. cycle_counter s' = aligned_cycle_counter (s_align_request s) + of_nat k
                \<and> timer_base_ticks s' + period_ticks s'
                    = aligned_local_ticks (s_align_request s)
                      + of_nat ((k * unat (ucast (aligned_base_period_fp16 (s_align_request s)) :: u32))
                                 div 65536)
                \<and> \<not> (period_ticks s' < min_period_ticks cfg)
                \<and> (\<forall>j<k. aligned_local_ticks (s_align_request s) - timer_base_ticks s'
                            + of_nat ((j * unat (ucast (aligned_base_period_fp16 (s_align_request s)) :: u32))
                                       div 65536)
                          < min_period_ticks cfg)))
       \<and> ((ucast (aligned_base_period_fp16 (s_align_request s)) :: u32) \<noteq> 0
            \<and> unat (min_period_ticks cfg) \<le> 2 ^ 64 - 65536
          \<longrightarrow> dtr_tez_handler cfg s \<noteq> Inl Roll_forward_never_ends)"
proof (intro conjI allI impI)
  fix s'
  assume ret: "dtr_tez_handler cfg s = Inr s'"
  define s1 where "s1 = tez_common_begin s"
  define req where "req = s_align_request s"
  define B where "B = unat (ucast (aligned_base_period_fp16 req) :: u32)"
  have pend1: "pending (s_align_request s1)"
    using pend by (simp add: s1_def tez_common_begin_fields)
  from ret pend1 obtain s2 where app: "tez_apply_alignment cfg s1 = Inr s2"
    and fin: "tez_common_end s2 = Inr s'"
    by (auto simp add: dtr_tez_handler_def Let_def s1_def [symmetric] split: sum.splits)
  from tez_apply_alignment_Inr [OF app] obtain p acc cyc where
    rf: "roll_forward (min_period_ticks cfg) (ucast (aligned_base_period_fp16 req))
           (aligned_local_ticks req - timer_base_ticks s1) 0 (aligned_cycle_counter req)
         = Some (p, acc, cyc)"
    and f2: "cycle_counter s2 = cyc" "period_ticks s2 = p" "timer_base_ticks s2 = timer_base_ticks s1"
    by (auto simp add: s1_def tez_common_begin_fields req_def)
  have f': "cycle_counter s' = cyc" "period_ticks s' = p" "timer_base_ticks s' = timer_base_ticks s1"
    using tez_common_end_Inr [OF fin] f2 by simp_all
  show tb: "timer_base_ticks s' = timer_base_ticks s + ucast (active_period_ticks s)"
    using f' by (simp add: s1_def tez_common_begin_fields)
  from roll_forward_Some [OF rf, unfolded roll_result_def, rule_format, of 0]
  obtain k where
    r: "p = aligned_local_ticks req - timer_base_ticks s1 + of_nat ((k * B) div 65536)"
       "cyc = aligned_cycle_counter req + of_nat k"
    and stop: "\<not> (p < min_period_ticks cfg)"
    and before: "\<forall>j<k. aligned_local_ticks req - timer_base_ticks s1 + of_nat ((j * B) div 65536)
                   < min_period_ticks cfg"
    by (auto simp add: B_def)
  have "cycle_counter s' = aligned_cycle_counter req + of_nat k
        \<and> timer_base_ticks s' + period_ticks s' = aligned_local_ticks req + of_nat ((k * B) div 65536)
        \<and> \<not> (period_ticks s' < min_period_ticks cfg)
        \<and> (\<forall>j<k. aligned_local_ticks req - timer_base_ticks s' + of_nat ((j * B) div 65536)
                   < min_period_ticks cfg)"
    using r stop before by (simp add: f')
  then show "\<exists>k. cycle_counter s' = aligned_cycle_counter (s_align_request s) + of_nat k
                \<and> timer_base_ticks s' + period_ticks s'
                    = aligned_local_ticks (s_align_request s)
                      + of_nat ((k * unat (ucast (aligned_base_period_fp16 (s_align_request s)) :: u32))
                                 div 65536)
                \<and> \<not> (period_ticks s' < min_period_ticks cfg)
                \<and> (\<forall>j<k. aligned_local_ticks (s_align_request s) - timer_base_ticks s'
                            + of_nat ((j * unat (ucast (aligned_base_period_fp16 (s_align_request s)) :: u32))
                                       div 65536)
                          < min_period_ticks cfg)"
    unfolding B_def req_def by (rule exI)
next
  assume "(ucast (aligned_base_period_fp16 (s_align_request s)) :: u32) \<noteq> 0
            \<and> unat (min_period_ticks cfg) \<le> 2 ^ 64 - 65536"
  then have base: "(ucast (aligned_base_period_fp16 (s_align_request s)) :: u32) \<noteq> 0"
    and bound: "unat (min_period_ticks cfg) \<le> 2 ^ 64 - 65536" by simp_all
  define s1 where "s1 = tez_common_begin s"
  from roll_forward_terminates [OF base bound] obtain r where
    "roll_forward (min_period_ticks cfg) (ucast (aligned_base_period_fp16 (s_align_request s)))
       (aligned_local_ticks (s_align_request s) - timer_base_ticks s1) 0
       (aligned_cycle_counter (s_align_request s)) = Some r"
    by blast
  then have "tez_apply_alignment cfg s1 \<noteq> Inl Roll_forward_never_ends"
    by (auto simp add: tez_apply_alignment_def Let_def s1_def tez_common_begin_fields
        split: prod.splits)
  then show "dtr_tez_handler cfg s \<noteq> Inl Roll_forward_never_ends"
    using pend
    by (auto simp add: dtr_tez_handler_def Let_def s1_def [symmetric] tez_common_end_def
        tez_common_begin_fields split: sum.splits if_splits)
qed



text \<open>
  Evaluation of the handler on concrete states: the definitions, and the signed
  comparisons read through \<open>sint\<close>.
\<close>

lemmas dtr_eval =
  cfg_example_def align_example_def dtr_init_def dtr_start_timer_begin_def
  s_enable_and_start_timer_def dtr_tez_handler_def tez_common_begin_def tez_dither_def
  tez_common_end_def tez_apply_alignment_def dtr_set_align_request_def
  dtr_start_timer_finish_def dtr_register_tez_listener_def FP16_SCALE_def
  DTR_TIMER_PERIOD_TICKS_def TIMER_TICKS_PER_US_def DTR_TIMER_RESOLUTION_HZ_def
  DTR_MIN_PERIOD_TICKS_def Let_def roll_forward.simps word_sle_eq word_sless_alt

lemma align_example_reached:
  "dtr_run cfg_example
     [Start_timer, Tez, Tez, Set_align_request 7 40100 (20000 * 65536 + 32768)]
     (dtr_init cfg_example DTR_MODE_SLAVE True) = Inr align_example"
  by (simp add: dtr_eval)

text \<open>
  The witness: on \<open>align_example\<close> the target is 100 ticks after the TEZ, below the
  minimum of 833, and the loop makes one pass.
\<close>

theorem tez_alignment_apply_witness:
  "pending (s_align_request align_example)
   \<and> \<not> isl (dtr_tez_handler cfg_example align_example)
   \<and> dtr_tez_handler cfg_example align_example \<noteq> Inl Roll_forward_never_ends
   \<and> (\<exists>k. cycle_counter (projr (dtr_tez_handler cfg_example align_example)) = 7 + of_nat k
          \<and> timer_base_ticks (projr (dtr_tez_handler cfg_example align_example))
              + period_ticks (projr (dtr_tez_handler cfg_example align_example))
             = 40100 + of_nat ((k * 1310752768) div 65536))"
proof -
  have pend: "pending (s_align_request align_example)"
    by (simp add: align_example_def)
  have isr: "\<not> isl (dtr_tez_handler cfg_example align_example)"
    by (simp add: dtr_eval)
  then have ret: "dtr_tez_handler cfg_example align_example
               = Inr (projr (dtr_tez_handler cfg_example align_example))"
    by (cases "dtr_tez_handler cfg_example align_example") simp_all
  have req: "aligned_cycle_counter (s_align_request align_example) = 7"
    "aligned_local_ticks (s_align_request align_example) = 40100"
    "unat (ucast (aligned_base_period_fp16 (s_align_request align_example)) :: u32) = 1310752768"
    by (simp_all add: align_example_def)
  have base: "(ucast (aligned_base_period_fp16 (s_align_request align_example)) :: u32) \<noteq> 0"
    by (simp add: align_example_def)
  have bound: "unat (min_period_ticks cfg_example) \<le> 2 ^ 64 - 65536"
    by (simp add: cfg_example_def DTR_MIN_PERIOD_TICKS_def DTR_TIMER_RESOLUTION_HZ_def)
  note T = tez_alignment_apply [OF pend, of cfg_example]
  note A = T [THEN conjunct1, rule_format, OF ret, THEN conjunct2, unfolded req]
  note N = T [THEN conjunct2, rule_format, OF conjI [OF base bound]]
  from A obtain k where
    "cycle_counter (projr (dtr_tez_handler cfg_example align_example)) = 7 + of_nat k"
    "timer_base_ticks (projr (dtr_tez_handler cfg_example align_example))
       + period_ticks (projr (dtr_tez_handler cfg_example align_example))
     = 40100 + of_nat ((k * 1310752768) div 65536)"
    by blast
  then have "\<exists>k. cycle_counter (projr (dtr_tez_handler cfg_example align_example)) = 7 + of_nat k
          \<and> timer_base_ticks (projr (dtr_tez_handler cfg_example align_example))
              + period_ticks (projr (dtr_tez_handler cfg_example align_example))
             = 40100 + of_nat ((k * 1310752768) div 65536)"
    by blast
  with pend isr N show ?thesis by (intro conjI)
qed

text \<open>
  The claim fails on \<open>align_example\<close>: the handler returns, \<open>cycle_counter\<close> is
  \<open>7 + 1\<close>, and \<open>timer_base_ticks + period_ticks\<close> is \<open>40000 + 20100\<close>, not the target
  \<open>40100\<close>.
\<close>

theorem tez_alignment_apply_counterexample:
  "pending (s_align_request align_example)
   \<and> aligned_cycle_counter (s_align_request align_example) = 7
   \<and> aligned_local_ticks (s_align_request align_example) = 40100
   \<and> \<not> isl (dtr_tez_handler cfg_example align_example)
   \<and> cycle_counter (projr (dtr_tez_handler cfg_example align_example)) = 7 + 1
   \<and> timer_base_ticks (projr (dtr_tez_handler cfg_example align_example)) = 40000
   \<and> period_ticks (projr (dtr_tez_handler cfg_example align_example)) = 20100
   \<and> timer_base_ticks (projr (dtr_tez_handler cfg_example align_example))
       + period_ticks (projr (dtr_tez_handler cfg_example align_example))
      \<noteq> aligned_local_ticks (s_align_request align_example)"
  by (simp add: dtr_eval)

lemma aligned_example_reached:
  "dtr_run cfg_example
     [Start_timer, Tez, Tez, Set_align_request 3 60000 (20000 * 65536 + 32768), Tez]
     (dtr_init cfg_example DTR_MODE_SLAVE True) = Inr aligned_example"
  by (simp add: dtr_eval aligned_example_def)

section \<open>Dithering\<close>

lemma sint_of_nat_i64:
  assumes "n < 2 ^ 63"
  shows "sint (of_nat n :: i64) = int n"
proof -
  have w: "(of_nat n :: i64) = word_of_int (int n)" by simp
  have "signed_take_bit 63 (int n) = int n"
    using assms by (intro signed_take_bit_int_eq_self) simp_all
  then show ?thesis unfolding w by (simp only: sint_sbintrunc') simp
qed

lemma dither_step_bounds:
  fixes base :: u32
  assumes "a < 65536"
  shows "unat base div 65536 \<le> (a + unat base) div 65536"
    and "(a + unat base) div 65536 \<le> unat base div 65536 + 1"
  using dither_div_mod(1) [OF assms, of "unat base"] by simp_all

lemma base_div_small:
  fixes base :: u32
  shows "unat base div 65536 < 65536"
  using unsigned_less [of base, where 'a = nat] by (intro less_mult_imp_div_less) simp

text \<open>A TEZ with no request pending: the handler's effect on the dithering variables.\<close>

lemma tez_nonalign_step:
  assumes np: "\<not> pending (s_align_request s)"
    and acc: "period_ticks_frac_acc s = of_nat a" and a: "a < 65536"
    and ret: "dtr_tez_handler cfg s = Inr s1"
  shows "period_ticks s1 = of_nat ((a + unat (base_period_fp16 s)) div 65536)"
    and "period_ticks_frac_acc s1 = of_nat ((a + unat (base_period_fp16 s)) mod 65536)"
    and "base_period_fp16 s1 = base_period_fp16 s"
    and "\<not> pending (s_align_request s1)"
proof -
  define s0 where "s0 = tez_common_begin s"
  have acc0: "period_ticks_frac_acc s0 = of_nat a"
    and base0: "base_period_fp16 s0 = base_period_fp16 s"
    and np0: "\<not> pending (s_align_request s0)"
    using np acc by (simp_all add: s0_def tez_common_begin_fields)
  have fin: "tez_common_end (tez_dither s0) = Inr s1"
    using ret np0 by (simp add: dtr_tez_handler_def Let_def s0_def [symmetric])
  note d = tez_dither_of_nat [OF a acc0, unfolded base0]
  note e = tez_common_end_Inr [OF fin]
  show "period_ticks s1 = of_nat ((a + unat (base_period_fp16 s)) div 65536)"
    using e(2) by (simp add: d)
  show "period_ticks_frac_acc s1 = of_nat ((a + unat (base_period_fp16 s)) mod 65536)"
    using e(6) by (simp add: d)
  show "base_period_fp16 s1 = base_period_fp16 s"
    using e(5) by (simp add: d base0)
  show "\<not> pending (s_align_request s1)"
    using e(7) np0 by (simp add: d)
qed

lemma tez_run_Suc_Inr:
  assumes "tez_run cfg (Suc n) s = Inr ss"
  obtains s1 ss' where "dtr_tez_handler cfg s = Inr s1" "tez_run cfg n s1 = Inr ss'"
    "ss = s1 # ss'"
  using assms by (auto split: sum.splits)

lemma tez_run_sum:
  assumes "\<not> pending (s_align_request s)"
    and "period_ticks_frac_acc s = of_nat a" and "a < 65536"
    and "tez_run cfg n s = Inr ss"
  shows "length ss = n
       \<and> (\<Sum>t\<leftarrow>ss. sint (period_ticks t)) = int ((a + n * unat (base_period_fp16 s)) div 65536)
       \<and> (\<forall>t\<in>set ss. (\<exists>a'<65536. period_ticks_frac_acc t = of_nat a')
                        \<and> base_period_fp16 t = base_period_fp16 s)"
  using assms
proof (induction n arbitrary: a s ss)
  case 0
  then show ?case by simp
next
  case (Suc n)
  define B where "B = unat (base_period_fp16 s)"
  define d where "d = (a + B) div 65536"
  define a' where "a' = (a + B) mod 65536"
  have a': "a' < 65536" by (simp add: a'_def)
  from Suc.prems(4) obtain s1 ss' where
    h: "dtr_tez_handler cfg s = Inr s1" and r: "tez_run cfg n s1 = Inr ss'" and ss: "ss = s1 # ss'"
    by (rule tez_run_Suc_Inr)
  note st = tez_nonalign_step [OF Suc.prems(1,2,3) h, folded B_def, folded d_def a'_def]
  have dlt: "d < 2 ^ 63"
    using dither_step_bounds(2) [OF Suc.prems(3), of "base_period_fp16 s"]
      base_div_small [of "base_period_fp16 s"] by (simp add: d_def B_def)
  have p1: "sint (period_ticks s1) = int d"
    unfolding st(1) by (rule sint_of_nat_i64 [OF dlt])
  from Suc.IH [OF st(4) st(2) a' r] have
    len: "length ss' = n"
    and sum: "(\<Sum>t\<leftarrow>ss'. sint (period_ticks t)) = int ((a' + n * B) div 65536)"
    and inv: "\<forall>t\<in>set ss'. (\<exists>a'<65536. period_ticks_frac_acc t = of_nat a')
                        \<and> base_period_fp16 t = base_period_fp16 s"
    by (simp_all add: st(3) B_def)
  have tot: "(a + Suc n * B) div 65536 = d + (a' + n * B) div 65536"
    unfolding d_def a'_def by (rule dither_shift)
  have "(\<Sum>t\<leftarrow>ss. sint (period_ticks t)) = int ((a + Suc n * B) div 65536)"
    unfolding ss tot using p1 sum by simp
  moreover have "(\<exists>a'<65536. period_ticks_frac_acc s1 = of_nat a')
                 \<and> base_period_fp16 s1 = base_period_fp16 s"
    using st(2,3) a' by blast
  ultimately show ?case
    using len inv by (simp add: ss B_def)
qed

lemma tez_run_total:
  assumes "\<not> pending (s_align_request s)"
    and "period_ticks_frac_acc s = of_nat a" and "a < 65536"
    and lo: "65536 \<le> base_period_fp16 s" and hi: "base_period_fp16 s < 65535 * 65536"
  shows "\<exists>ss. tez_run cfg n s = Inr ss"
  using assms
proof (induction n arbitrary: a s)
  case 0
  then show ?case by simp
next
  case (Suc n)
  define B where "B = unat (base_period_fp16 s)"
  define d where "d = (a + B) div 65536"
  define s0 where "s0 = tez_common_begin s"
  have B: "65536 \<le> B" "B < 65535 * 65536"
    using Suc.prems(4,5) by (simp_all add: B_def word_le_nat_alt word_less_nat_alt)
  have P: "1 \<le> B div 65536" "B div 65536 < 65535"
    using B by (simp_all add: le_div_geq less_mult_imp_div_less)
  have d: "1 \<le> d" "d \<le> 65535"
    using dither_step_bounds [OF Suc.prems(3), of "base_period_fp16 s"] P
    by (simp_all add: d_def B_def)
  have acc0: "period_ticks_frac_acc s0 = of_nat a"
    and base0: "base_period_fp16 s0 = base_period_fp16 s"
    and np0: "\<not> pending (s_align_request s0)"
    using Suc.prems(1,2) by (simp_all add: s0_def tez_common_begin_fields)
  have "period_ticks (tez_dither s0) = of_nat d"
    by (simp add: tez_dither_of_nat [OF Suc.prems(3) acc0] base0 d_def B_def)
  moreover have "sint (of_nat d :: i64) = int d"
    using d by (intro sint_of_nat_i64) simp
  ultimately have rng: "\<not> period_ticks (tez_dither s0) \<le>s 0"
    "\<not> 65535 <s period_ticks (tez_dither s0)"
    using d by (simp_all add: word_sle_eq word_sless_alt)
  then obtain s1 where fin: "tez_common_end (tez_dither s0) = Inr s1"
    by (simp add: tez_common_end_def Let_def)
  then have h: "dtr_tez_handler cfg s = Inr s1"
    using np0 by (simp add: dtr_tez_handler_def Let_def s0_def [symmetric])
  note st = tez_nonalign_step [OF Suc.prems(1,2,3) h]
  have "\<exists>ss. tez_run cfg n s1 = Inr ss"
    using Suc.IH [OF st(4) st(2)] Suc.prems(4,5) by (simp add: st(3))
  then show ?case using h by auto
qed

lemma dither_closed_form:
  fixes n B :: nat
  shows "int ((n * B) div 65536) = int n * int (B div 65536) + (int n * int (B mod 65536)) div 65536"
proof -
  have "n * B = n * (B mod 65536) + 65536 * (n * (B div 65536))"
    by (simp flip: distrib_left add: mult.left_commute [of 65536 n])
  then have e: "(n * B) div 65536 = n * (B div 65536) + (n * (B mod 65536)) div 65536"
    by (metis div_mult_self2 zero_neq_numeral add.commute)
  show ?thesis
    by (simp only: e of_nat_add of_nat_mult zdiv_int of_nat_numeral)
qed

text \<open>
  \<^bold>\<open>C2\<close> (confirmed). With \<open>base_period_fp16 = P * 65536 + f\<close> held over \<open>N\<close>
  consecutive TEZ interrupts without a pending request, starting from
  \<open>period_ticks_frac_acc = 0\<close>: the \<open>N\<close> values of \<open>period_ticks\<close> add up to
  \<open>N * P + (N * f) div 65536\<close>, and after every one of them
  \<open>0 \<le> period_ticks_frac_acc < 65536\<close>. This holds for every \<open>N\<close> for which the
  handler returns \<open>N\<close> times, so for some \<open>N \<ge> 65536\<close> as well: the handler does return
  every time when \<open>1 \<le> P \<le> 65534\<close>, where both \<open>P\<close> and \<open>P + 1\<close> pass its range check.
\<close>

theorem dither_long_run:
  fixes cfg :: dtr_config and s :: dtr and N :: nat
  assumes np: "\<not> pending (s_align_request s)"
    and acc0: "period_ticks_frac_acc s = 0"
  shows "(\<forall>ss. tez_run cfg N s = Inr ss \<longrightarrow>
            length ss = N
          \<and> (\<Sum>t\<leftarrow>ss. sint (period_ticks t))
              = int N * int (unat (base_period_fp16 s) div 65536)
                + (int N * int (unat (base_period_fp16 s) mod 65536)) div 65536
          \<and> (\<forall>t\<in>set ss. 0 \<le>s period_ticks_frac_acc t
                          \<and> period_ticks_frac_acc t <s 65536
                          \<and> base_period_fp16 t = base_period_fp16 s))
       \<and> (65536 \<le> base_period_fp16 s \<and> base_period_fp16 s < 65535 * 65536
            \<longrightarrow> (\<exists>ss. tez_run cfg N s = Inr ss))"
proof (intro conjI allI impI)
  fix ss
  assume run: "tez_run cfg N s = Inr ss"
  have acc: "period_ticks_frac_acc s = of_nat 0" using acc0 by simp
  from tez_run_sum [OF np acc _ run] have
    len: "length ss = N"
    and sum: "(\<Sum>t\<leftarrow>ss. sint (period_ticks t)) = int ((N * unat (base_period_fp16 s)) div 65536)"
    and inv: "\<forall>t\<in>set ss. (\<exists>a'<65536. period_ticks_frac_acc t = of_nat a')
                        \<and> base_period_fp16 t = base_period_fp16 s"
    by simp_all
  show "length ss = N" by (rule len)
  show "(\<Sum>t\<leftarrow>ss. sint (period_ticks t))
              = int N * int (unat (base_period_fp16 s) div 65536)
                + (int N * int (unat (base_period_fp16 s) mod 65536)) div 65536"
    unfolding sum by (rule dither_closed_form)
  show "\<forall>t\<in>set ss. 0 \<le>s period_ticks_frac_acc t
                          \<and> period_ticks_frac_acc t <s 65536
                          \<and> base_period_fp16 t = base_period_fp16 s"
  proof
    fix t assume "t \<in> set ss"
    with inv obtain a' where a': "a' < 65536" "period_ticks_frac_acc t = of_nat a'"
      and b: "base_period_fp16 t = base_period_fp16 s" by blast
    have "sint (of_nat a' :: i32) = int a'"
      using a'(1) by (intro sint_of_nat_i32) simp
    then show "0 \<le>s period_ticks_frac_acc t
                          \<and> period_ticks_frac_acc t <s 65536
                          \<and> base_period_fp16 t = base_period_fp16 s"
      using a' b by (simp add: word_sle_eq word_sless_alt)
  qed
next
  assume "65536 \<le> base_period_fp16 s \<and> base_period_fp16 s < 65535 * 65536"
  then have lo: "65536 \<le> base_period_fp16 s" and hi: "base_period_fp16 s < 65535 * 65536"
    by simp_all
  have acc: "period_ticks_frac_acc s = of_nat 0" using acc0 by simp
  show "\<exists>ss. tez_run cfg N s = Inr ss"
    by (rule tez_run_total [OF np acc _ lo hi]) simp
qed

text \<open>
  The witness: four TEZ interrupts on \<open>aligned_example\<close>, whose period is 20000.5
  ticks. The periods are 20000, 20001, 20000, 20001.
\<close>

theorem dither_long_run_witness:
  "\<not> pending (s_align_request aligned_example)
   \<and> period_ticks_frac_acc aligned_example = 0
   \<and> \<not> isl (tez_run cfg_example 4 aligned_example)
   \<and> map period_ticks (projr (tez_run cfg_example 4 aligned_example))
       = [20000, 20001, 20000, 20001]
   \<and> (\<Sum>t\<leftarrow>projr (tez_run cfg_example 4 aligned_example). sint (period_ticks t))
       = 4 * 20000 + (4 * 32768) div 65536"
proof -
  have np: "\<not> pending (s_align_request aligned_example)"
    and acc0: "period_ticks_frac_acc aligned_example = 0"
    by (simp_all add: aligned_example_def)
  have base: "65536 \<le> base_period_fp16 aligned_example
              \<and> base_period_fp16 aligned_example < 65535 * 65536"
    "unat (base_period_fp16 aligned_example) = 1310752768"
    by (simp_all add: aligned_example_def)
  note T = dither_long_run [OF np acc0, of cfg_example 4]
  from T [THEN conjunct2, rule_format, OF base(1)] obtain ss where
    run: "tez_run cfg_example 4 aligned_example = Inr ss" by blast
  note S = T [THEN conjunct1, rule_format, OF run, THEN conjunct2, THEN conjunct1,
      unfolded base(2)]
  have n4: "(4 :: nat) = Suc (Suc (Suc (Suc 0)))" by simp
  have periods: "map period_ticks (projr (tez_run cfg_example 4 aligned_example))
       = [20000, 20001, 20000, 20001]"
    unfolding n4 by (simp add: dtr_eval aligned_example_def)
  show ?thesis
    using np acc0 periods S unfolding run by simp
qed

section \<open>The state machine\<close>

lemma tez_handler_state:
  assumes "dtr_tez_handler cfg s = Inr s'"
  shows "s_state s' =
           (if pending (s_align_request s) \<and> s_state s = DTR_STATE_RUNNING
            then DTR_STATE_ALIGNED else s_state s)"
proof (cases "pending (s_align_request s)")
  case True
  then have pend1: "pending (s_align_request (tez_common_begin s))"
    by (simp add: tez_common_begin_fields)
  from assms pend1 obtain s2 where app: "tez_apply_alignment cfg (tez_common_begin s) = Inr s2"
    and fin: "tez_common_end s2 = Inr s'"
    by (auto simp add: dtr_tez_handler_def Let_def split: sum.splits)
  from tez_apply_alignment_Inr [OF app] have
    "s_state s2 = (if s_state s = DTR_STATE_RUNNING then DTR_STATE_ALIGNED else s_state s)"
    by (auto simp add: tez_common_begin_fields)
  then show ?thesis using tez_common_end_Inr(4) [OF fin] True by simp
next
  case False
  then have np: "\<not> pending (s_align_request (tez_common_begin s))"
    by (simp add: tez_common_begin_fields)
  have fin: "tez_common_end (tez_dither (tez_common_begin s)) = Inr s'"
    using assms np by (simp add: dtr_tez_handler_def Let_def)
  have "s_state (tez_dither (tez_common_begin s)) = s_state s"
    by (simp add: tez_dither_def Let_def tez_common_begin_fields)
  then show ?thesis using tez_common_end_Inr(4) [OF fin] False by simp
qed

text \<open>Every change of the state by one operation is one of the two forward moves.\<close>

lemma dtr_step_state:
  assumes "dtr_step cfg op s = Inr s'"
  shows "s_state s' = s_state s
       \<or> (op = Start_timer \<and> s_state s = DTR_STATE_NOT_STARTED \<and> s_state s' = DTR_STATE_RUNNING)
       \<or> (op = Tez \<and> pending (s_align_request s) \<and> s_state s = DTR_STATE_RUNNING
            \<and> s_state s' = DTR_STATE_ALIGNED)"
proof (cases op)
  case Start_timer
  then show ?thesis
    using assms
    by (auto simp add: dtr_start_timer_begin_def s_enable_and_start_timer_def split: if_splits)
next
  case (Finish_start off)
  then show ?thesis using assms by (auto simp add: dtr_start_timer_finish_def)
next
  case Tez
  then show ?thesis using assms tez_handler_state [of cfg s s'] by (auto split: if_splits)
next
  case (Set_align_request c l b)
  then show ?thesis using assms by (auto simp add: dtr_set_align_request_def)
next
  case (Register_tez_listener task)
  then show ?thesis using assms by (auto simp add: dtr_register_tez_listener_def)
qed

lemma dtr_step_rank:
  assumes "dtr_step cfg op s = Inr s'"
  shows "state_rank (s_state s) \<le> state_rank (s_state s')"
  using dtr_step_state [OF assms] by auto

lemma dtr_run_rank:
  assumes "dtr_run cfg ops s = Inr s'"
  shows "state_rank (s_state s) \<le> state_rank (s_state s')"
  using assms
proof (induction ops arbitrary: s)
  case Nil
  then show ?case by simp
next
  case (Cons op ops)
  from Cons.prems obtain s1 where st: "dtr_step cfg op s = Inr s1"
    and run: "dtr_run cfg ops s1 = Inr s'"
    by (auto split: sum.splits)
  from dtr_step_rank [OF st] Cons.IH [OF run] show ?case by simp
qed

lemma state_rank_aligned: "(2 \<le> state_rank x) = (x = DTR_STATE_ALIGNED)"
  by (cases x) simp_all

lemma dtr_run_aligned_stays:
  assumes "dtr_run cfg ops s = Inr s'" and "s_state s = DTR_STATE_ALIGNED"
  shows "s_state s' = DTR_STATE_ALIGNED"
  using dtr_run_rank [OF assms(1)] assms(2) state_rank_aligned [of "s_state s'"] by simp

lemma dtr_run_running:
  assumes "dtr_run cfg ops s = Inr s'" and "s_state s = DTR_STATE_RUNNING"
  shows "(s_state s' = DTR_STATE_ALIGNED) = alignment_applied cfg ops s"
  using assms
proof (induction ops arbitrary: s)
  case Nil
  then show ?case by simp
next
  case (Cons op ops)
  from Cons.prems(1) obtain s1 where st: "dtr_step cfg op s = Inr s1"
    and run: "dtr_run cfg ops s1 = Inr s'"
    by (auto split: sum.splits)
  have tez: "s_state s1 = DTR_STATE_ALIGNED" if "op = Tez" "pending (s_align_request s)"
    using that st Cons.prems(2) tez_handler_state [of cfg s s1] by simp
  from dtr_step_state [OF st] Cons.prems(2) tez consider
    (same) "s_state s1 = DTR_STATE_RUNNING" "\<not> (op = Tez \<and> pending (s_align_request s))"
    | (applied) "op = Tez" "pending (s_align_request s)" "s_state s1 = DTR_STATE_ALIGNED"
    by fastforce
  then show ?case
  proof cases
    case same
    then show ?thesis using Cons.IH [OF run same(1)] st by auto
  next
    case applied
    then show ?thesis using dtr_run_aligned_stays [OF run applied(3)] st by auto
  qed
qed

text \<open>
  \<^bold>\<open>C9\<close> (confirmed). The state of the DTR only moves forward through
  \<open>NotStarted\<close>, \<open>Running\<close>, \<open>Aligned\<close>: no run of operations (starting the timer,
  adding the start offset, publishing a request, registering a listener, TEZ
  interrupts with or without a pending request) that returns lowers its rank; an
  operation changes the state only as \<open>NotStarted \<rightarrow> Running\<close> (the start) or as
  \<open>Running \<rightarrow> Aligned\<close> (a TEZ that finds a request pending); and a run that begins in
  \<open>Running\<close> ends in \<open>Aligned\<close> exactly when one of its TEZ interrupts has applied an
  alignment, so the move happens on the first one.
\<close>

theorem dtr_state_monotone:
  assumes "dtr_run cfg ops s = Inr s'"
  shows "state_rank (s_state s) \<le> state_rank (s_state s')
       \<and> (s_state s = DTR_STATE_RUNNING \<longrightarrow>
            (s_state s' = DTR_STATE_ALIGNED) = alignment_applied cfg ops s)
       \<and> (\<forall>op s1 s2. dtr_step cfg op s1 = Inr s2 \<longrightarrow>
            s_state s2 = s_state s1
            \<or> (op = Start_timer \<and> s_state s1 = DTR_STATE_NOT_STARTED
                 \<and> s_state s2 = DTR_STATE_RUNNING)
            \<or> (op = Tez \<and> pending (s_align_request s1) \<and> s_state s1 = DTR_STATE_RUNNING
                 \<and> s_state s2 = DTR_STATE_ALIGNED))"
  using dtr_run_rank [OF assms] dtr_run_running [OF assms] dtr_step_state by blast

text \<open>
  The witness: the run from \<open>dtr_init\<close> through the start, two TEZ interrupts, a
  request, the TEZ that applies it and one more TEZ; and the same run cut after the
  start, which begins in \<open>Running\<close>.
\<close>

theorem dtr_state_monotone_witness:
  "s_state (dtr_init cfg_example DTR_MODE_SLAVE True) = DTR_STATE_NOT_STARTED
   \<and> \<not> isl (dtr_run cfg_example
              [Start_timer, Tez, Tez, Set_align_request 3 60000 1310752768, Tez, Tez]
              (dtr_init cfg_example DTR_MODE_SLAVE True))
   \<and> s_state (projr (dtr_run cfg_example
              [Start_timer, Tez, Tez, Set_align_request 3 60000 1310752768, Tez, Tez]
              (dtr_init cfg_example DTR_MODE_SLAVE True))) = DTR_STATE_ALIGNED
   \<and> state_rank (s_state (dtr_init cfg_example DTR_MODE_SLAVE True))
       \<le> state_rank (s_state (projr (dtr_run cfg_example
              [Start_timer, Tez, Tez, Set_align_request 3 60000 1310752768, Tez, Tez]
              (dtr_init cfg_example DTR_MODE_SLAVE True))))
   \<and> s_state align_example = DTR_STATE_RUNNING
   \<and> \<not> isl (dtr_run cfg_example [Tez, Tez] align_example)
   \<and> ((s_state (projr (dtr_run cfg_example [Tez, Tez] align_example)) = DTR_STATE_ALIGNED)
        = alignment_applied cfg_example [Tez, Tez] align_example)"
proof -
  define ops where
    "ops = [Start_timer, Tez, Tez, Set_align_request 3 60000 1310752768, Tez, Tez]"
  define s0 where "s0 = dtr_init cfg_example DTR_MODE_SLAVE True"
  have i: "\<not> isl (dtr_run cfg_example ops s0)"
    "s_state (projr (dtr_run cfg_example ops s0)) = DTR_STATE_ALIGNED"
    "s_state s0 = DTR_STATE_NOT_STARTED"
    by (simp_all add: ops_def s0_def dtr_eval)
  then have r: "dtr_run cfg_example ops s0 = Inr (projr (dtr_run cfg_example ops s0))"
    by (cases "dtr_run cfg_example ops s0") simp_all
  have j: "\<not> isl (dtr_run cfg_example [Tez, Tez] align_example)"
    "s_state align_example = DTR_STATE_RUNNING"
    by (simp_all add: dtr_eval)
  then have q: "dtr_run cfg_example [Tez, Tez] align_example
                  = Inr (projr (dtr_run cfg_example [Tez, Tez] align_example))"
    by (cases "dtr_run cfg_example [Tez, Tez] align_example") simp_all
  note A = dtr_state_monotone [OF r, THEN conjunct1]
  note B = dtr_state_monotone [OF q, THEN conjunct2, THEN conjunct1, rule_format, OF j(2)]
  show ?thesis
    using i j A B unfolding ops_def s0_def by (intro conjI)
qed

section \<open>The offset measurement\<close>

lemma sint_ucast_u32:
  fixes x :: u32
  shows "sint (ucast x :: i64) = uint x" and "uint x < 2 ^ 32" and "0 \<le> uint x"
proof -
  have u: "uint (ucast x :: i64) = uint x"
    by (rule uint_up_ucast) (simp add: is_up)
  show lt: "uint x < 2 ^ 32" using uint_lt2p [of x] by simp
  have "uint (ucast x :: i64) < 2 ^ 63" using lt u by simp
  then show "sint (ucast x :: i64) = uint x" using u by (simp add: sint_eq_uint_small)
  show "0 \<le> uint x" by simp
qed

lemma timer_abs_no_overflow:
  fixes base :: i64 and x :: u32
  assumes "0 \<le>s base" and "base \<le>s 0x7FFFFFFF00000000"
  shows "sint (base + ucast x) = sint base + uint x"
proof -
  have b: "0 \<le> sint base" "sint base \<le> 0x7FFFFFFF00000000"
    using assms by (simp_all add: word_sle_eq)
  have s: "sint (ucast x :: i64) = uint x" by (rule sint_ucast_u32)
  have lt: "uint x < 2 ^ 32" by (rule sint_ucast_u32)
  have nn: "0 \<le> sint base + uint x" by (rule add_nonneg_nonneg [OF b(1)]) simp
  have "sint (base + ucast x) = sint base + sint (ucast x :: i64)"
  proof (rule sint_add_no_overflow)
    show "- (2 ^ 63) \<le> sint base + sint (ucast x :: i64)"
      unfolding s using nn by simp
    show "sint base + sint (ucast x :: i64) < 2 ^ 63"
      unfolding s using b lt by simp
  qed
  then show ?thesis by (simp only: s)
qed

lemma catch_Caught:
  assumes "s_catch_mac_clock_transition base mb r = Caught b m a it"
  shows "\<exists>timer_before timer_after :: u32.
           b = base + ucast timer_before \<and> a = base + ucast timer_after
           \<and> timer_before \<le> timer_after"
proof (cases "catch_loop (loop_reads r) 0")
  case None
  then show ?thesis using assms by (simp add: s_catch_mac_clock_transition_def)
next
  case (Some res)
  obtain timer_before m1 m2 timer_after n where
    res: "res = ((timer_before, m1, m2, timer_after), n)"
    by (cases res) auto
  have "b = base + ucast timer_before \<and> a = base + ucast timer_after
           \<and> timer_before \<le> timer_after"
    using assms Some
    by (simp add: s_catch_mac_clock_transition_def res not_less split: if_splits)
  then show ?thesis by blast
qed

lemma catch_before_le_after:
  assumes "0 \<le>s base" and "base \<le>s 0x7FFFFFFF00000000"
    and "s_catch_mac_clock_transition base mb r = Caught b m a it"
  shows "0 \<le>s b" and "b \<le>s a"
proof -
  from catch_Caught [OF assms(3)] obtain tb ta :: u32 where
    b: "b = base + ucast tb" and a: "a = base + ucast ta" and le: "tb \<le> ta" by blast
  have le': "uint tb \<le> uint ta" using le by (simp add: word_le_def)
  have base0: "0 \<le> sint base" using assms(1) by (simp add: word_sle_eq)
  show "0 \<le>s b"
    using base0 by (simp add: word_sle_eq b timer_abs_no_overflow [OF assms(1,2)])
  show "b \<le>s a"
    using le' by (simp add: word_sle_eq a b timer_abs_no_overflow [OF assms(1,2)])
qed

text \<open>
  With a non-negative \<open>timer_abs_before\<close> below \<open>timer_abs_after\<close>, and the first
  assertion passed, the two differences do not overflow and are ordered.
\<close>

lemma new_min_le_new_max:
  fixes mac a b :: i64
  assumes "0 \<le>s b" and "b \<le>s a" and "a <s mac"
  shows "mac - a \<le>s mac - b"
proof -
  have h: "0 \<le> sint b" "sint b \<le> sint a" "sint a < sint mac"
    using assms by (simp_all add: word_sle_eq word_sless_alt)
  have hi: "sint mac < 2 ^ 63" using sint_lt [of mac] by simp
  have "sint (mac - a) = sint mac - sint a"
    using h hi by (intro sint_sub_no_overflow) simp_all
  moreover have "sint (mac - b) = sint mac - sint b"
    using h hi by (intro sint_sub_no_overflow) simp_all
  ultimately show ?thesis using h by (simp add: word_sle_eq)
qed

lemma refine_no_min_max_failure:
  assumes "0 \<le>s b" and "b \<le>s a"
  shows "s_refine_mac_clock_timer_start_offset bounds b m a \<noteq> Inl Assert_min_le_max"
  using new_min_le_new_max [OF assms]
  by (simp add: s_refine_mac_clock_timer_start_offset_def Let_def)

lemma refine_narrows:
  assumes "s_refine_mac_clock_timer_start_offset (mn, mx) b m a = Inr (mn', mx')"
  shows "mn \<le>s mn'" and "mx' \<le>s mx"
  using assms
  by (auto simp add: s_refine_mac_clock_timer_start_offset_def Let_def word_sle_eq
      word_sless_alt split: if_splits)

lemma measure_samples_narrows:
  assumes "\<forall>(base, mb, r) \<in> set samples. 0 \<le>s base \<and> base \<le>s 0x7FFFFFFF00000000"
  shows "measure_samples samples acc \<noteq> Inl Assert_min_le_max
       \<and> (\<forall>acc'. measure_samples samples acc = Inr acc' \<longrightarrow>
             offset_ticks_min acc \<le>s offset_ticks_min acc'
           \<and> offset_ticks_max acc' \<le>s offset_ticks_max acc)"
  using assms
proof (induction samples arbitrary: acc)
  case Nil
  then show ?case by simp
next
  case (Cons x samples)
  obtain base mb r where x: "x = (base, mb, r)" by (cases x)
  have rng: "0 \<le>s base" "base \<le>s 0x7FFFFFFF00000000"
    and rest: "\<forall>(base, mb, r) \<in> set samples. 0 \<le>s base \<and> base \<le>s 0x7FFFFFFF00000000"
    using Cons.prems by (simp_all add: x)
  note IH = Cons.IH [OF rest]
  show ?case
  proof (cases "s_catch_mac_clock_transition base mb r")
    case Loop_waiting
    then show ?thesis by (simp add: x)
  next
    case Discarded
    then show ?thesis using IH [of acc] by (simp add: x)
  next
    case (Caught b m a it)
    define acc1 where
      "acc1 = acc\<lparr>total_iterations := total_iterations acc + it,
                  min_iterations := (if it < min_iterations acc then it else min_iterations acc),
                  max_iterations := (if max_iterations acc < it then it else max_iterations acc)\<rparr>"
    have acc1: "offset_ticks_min acc1 = offset_ticks_min acc"
      "offset_ticks_max acc1 = offset_ticks_max acc"
      by (simp_all add: acc1_def)
    note ord = catch_before_le_after [OF rng Caught]
    show ?thesis
    proof (cases "s_refine_mac_clock_timer_start_offset
                    (offset_ticks_min acc, offset_ticks_max acc) b m a")
      case (Inl e)
      then have "e \<noteq> Assert_min_le_max"
        using refine_no_min_max_failure [OF ord] by auto
      then show ?thesis using Inl Caught by (simp add: x Let_def)
    next
      case (Inr p)
      obtain mn mx where p: "p = (mn, mx)" by (cases p)
      define acc2 where "acc2 = acc1\<lparr>offset_ticks_min := mn, offset_ticks_max := mx\<rparr>"
      have step: "measure_samples (x # samples) acc = measure_samples samples acc2"
        using Inr Caught by (simp add: x Let_def p acc2_def acc1_def)
      note nar = refine_narrows [OF Inr [unfolded p]]
      have acc2: "offset_ticks_min acc2 = mn" "offset_ticks_max acc2 = mx"
        by (simp_all add: acc2_def)
      have tr: "offset_ticks_min acc \<le>s offset_ticks_min acc'"
        "offset_ticks_max acc' \<le>s offset_ticks_max acc"
        if "offset_ticks_min acc2 \<le>s offset_ticks_min acc'"
          "offset_ticks_max acc' \<le>s offset_ticks_max acc2" for acc'
        using that nar by (simp_all add: acc2 word_sle_eq)
      show ?thesis
        unfolding step using IH [of acc2] tr by blast
    qed
  qed
qed

text \<open>
  \<^bold>\<open>C8\<close> (confirmed). In every iteration of the offset measurement whose samples pass
  the monotonicity checks, \<open>timer_abs_before \<le> timer_abs_after\<close>, hence, once the
  first assertion (\<open>timer_abs_after < mac_at_transition_ticks\<close>) has passed,
  \<open>new_min = mac_at_transition_ticks - timer_abs_after
     \<le> mac_at_transition_ticks - timer_abs_before = new_max\<close>:
  the assertion \<open>new_min \<le> new_max\<close> never fires, in one refinement step or in the whole
  loop, and the loop only raises \<open>min\<close> and only lowers \<open>max\<close>. The side condition is
  that \<open>timer_base_ticks\<close> is a tick count from 0 to \<open>2^63 - 2^32\<close>, so that adding a
  32-bit timer value to it does not overflow.
\<close>

theorem offset_bounds_tighten:
  assumes "\<forall>(base, mb, r) \<in> set samples. 0 \<le>s base \<and> base \<le>s 0x7FFFFFFF00000000"
  shows "measure_samples samples acc \<noteq> Inl Assert_min_le_max
       \<and> (\<forall>acc'. measure_samples samples acc = Inr acc' \<longrightarrow>
             offset_ticks_min acc \<le>s offset_ticks_min acc'
           \<and> offset_ticks_max acc' \<le>s offset_ticks_max acc)
       \<and> (\<forall>(base, mb, r) \<in> set samples. \<forall>b m a it bounds.
             s_catch_mac_clock_transition base mb r = Caught b m a it \<longrightarrow>
               b \<le>s a
             \<and> (a <s m * TIMER_TICKS_PER_US \<longrightarrow>
                  m * TIMER_TICKS_PER_US - a \<le>s m * TIMER_TICKS_PER_US - b)
             \<and> s_refine_mac_clock_timer_start_offset bounds b m a \<noteq> Inl Assert_min_le_max
             \<and> (\<forall>mn' mx'. s_refine_mac_clock_timer_start_offset bounds b m a = Inr (mn', mx')
                   \<longrightarrow> fst bounds \<le>s mn' \<and> mx' \<le>s snd bounds))"
proof -
  have iter: "b \<le>s a
             \<and> (a <s m * TIMER_TICKS_PER_US \<longrightarrow>
                  m * TIMER_TICKS_PER_US - a \<le>s m * TIMER_TICKS_PER_US - b)
             \<and> s_refine_mac_clock_timer_start_offset bounds b m a \<noteq> Inl Assert_min_le_max
             \<and> (\<forall>mn' mx'. s_refine_mac_clock_timer_start_offset bounds b m a = Inr (mn', mx')
                   \<longrightarrow> fst bounds \<le>s mn' \<and> mx' \<le>s snd bounds)"
    if "(base, mb, r) \<in> set samples"
      and c: "s_catch_mac_clock_transition base mb r = Caught b m a it"
    for base mb r b m a it bounds
  proof -
    have rng: "0 \<le>s base" "base \<le>s 0x7FFFFFFF00000000"
      using assms that(1) by auto
    note ord = catch_before_le_after [OF rng c]
    show ?thesis
      using ord new_min_le_new_max [OF ord] refine_no_min_max_failure [OF ord]
        refine_narrows [of "fst bounds" "snd bounds" b m a]
      by auto
  qed
  show ?thesis
    using measure_samples_narrows [OF assms, of acc] iter by blast
qed

text \<open>
  The witness: the two example samples, from the initial bounds \<open>[0, INT64_MAX]\<close>. The
  first gives \<open>[19915, 19920]\<close>, the second narrows it to \<open>[19916, 19919]\<close>.
\<close>

theorem offset_bounds_tighten_witness:
  "measure_samples [sample_example1, sample_example2] measure_init \<noteq> Inl Assert_min_le_max
   \<and> \<not> isl (measure_samples [sample_example1, sample_example2] measure_init)
   \<and> offset_ticks_min (projr (measure_samples [sample_example1, sample_example2] measure_init))
       = 19916
   \<and> offset_ticks_max (projr (measure_samples [sample_example1, sample_example2] measure_init))
       = 19919
   \<and> offset_ticks_min measure_init
       \<le>s offset_ticks_min (projr (measure_samples [sample_example1, sample_example2] measure_init))
   \<and> offset_ticks_max (projr (measure_samples [sample_example1, sample_example2] measure_init))
       \<le>s offset_ticks_max measure_init"
proof -
  have rng: "\<forall>(base, mb, r) \<in> set [sample_example1, sample_example2].
               0 \<le>s base \<and> base \<le>s 0x7FFFFFFF00000000"
    by (simp add: sample_example1_def sample_example2_def word_sle_eq)
  have v: "\<not> isl (measure_samples [sample_example1, sample_example2] measure_init)"
    "offset_ticks_min (projr (measure_samples [sample_example1, sample_example2] measure_init))
       = 19916"
    "offset_ticks_max (projr (measure_samples [sample_example1, sample_example2] measure_init))
       = 19919"
    by (simp_all add: sample_example1_def sample_example2_def measure_init_def
        s_catch_mac_clock_transition_def s_refine_mac_clock_timer_start_offset_def
        TIMER_TICKS_PER_US_def DTR_TIMER_RESOLUTION_HZ_def Let_def word_sle_eq word_sless_alt)
  then have r: "measure_samples [sample_example1, sample_example2] measure_init
                  = Inr (projr (measure_samples [sample_example1, sample_example2] measure_init))"
    by (cases "measure_samples [sample_example1, sample_example2] measure_init") simp_all
  note T = offset_bounds_tighten [OF rng, of measure_init]
  note A = T [THEN conjunct1]
  note B = T [THEN conjunct2, THEN conjunct1, rule_format, OF r]
  show ?thesis
    using A B v by (intro conjI) simp_all
qed

section \<open>Binary floating point: the rounding error\<close>

text \<open>
  \<open>binary_exponent\<close> is the exponent of its argument, so \<open>fp_round p\<close> moves a value by at
  most half a unit in the last place: a relative error of at most \<open>2^-p\<close>. A value with
  a significand of \<open>p\<close> bits is not moved at all.
\<close>

lemma bitlen_lower:
  assumes "0 < p"
  shows "(2::rat) powi (bitlen p - 1) \<le> of_int p"
proof -
  have b: "1 \<le> bitlen p" using assms by (simp add: bitlen_alt_def)
  have "(2::int) ^ nat (bitlen p - 1) \<le> p" using bitlen_bounds [OF assms] by simp
  then have "(of_int ((2::int) ^ nat (bitlen p - 1)) :: rat) \<le> of_int p"
    by (simp only: of_int_le_iff)
  moreover have "(2::rat) powi (bitlen p - 1) = of_int ((2::int) ^ nat (bitlen p - 1))"
    using b by (simp add: power_int_def)
  ultimately show ?thesis by simp
qed

lemma bitlen_upper:
  assumes "0 < q"
  shows "of_int q < (2::rat) powi (bitlen q)"
proof -
  have b: "0 \<le> bitlen q" by (rule bitlen_nonneg)
  have "q < (2::int) ^ nat (bitlen q)" using bitlen_bounds [OF assms] by simp
  then have "(of_int q :: rat) < of_int ((2::int) ^ nat (bitlen q))"
    by (simp only: of_int_less_iff)
  moreover have "(2::rat) powi (bitlen q) = of_int ((2::int) ^ nat (bitlen q))"
    using b by (simp add: power_int_def)
  ultimately show ?thesis by simp
qed

lemma binary_exponent_le:
  assumes "x \<noteq> 0"
  shows "2 powi (binary_exponent x) \<le> \<bar>x\<bar>"
proof -
  obtain p q where pq: "quotient_of \<bar>x\<bar> = (p, q)" by (cases "quotient_of \<bar>x\<bar>")
  have q: "0 < q" using quotient_of_denom_pos [OF pq] .
  have x: "\<bar>x\<bar> = of_int p / of_int q" using quotient_of_div [OF pq] .
  have "0 < \<bar>x\<bar>" using assms by simp
  then have "0 < (of_int p :: rat) / of_int q" unfolding x .
  then have p: "0 < p" using q by (simp add: zero_less_divide_iff)
  define k where "k = bitlen p - bitlen q"
  show ?thesis
  proof (cases "2 powi k \<le> \<bar>x\<bar>")
    case True
    then show ?thesis by (simp add: binary_exponent_def pq k_def)
  next
    case False
    then have e: "binary_exponent x = k - 1" by (simp add: binary_exponent_def pq k_def)
    have "(2::rat) powi (k - 1) = 2 powi (bitlen p - 1) / 2 powi (bitlen q)"
      unfolding k_def by (simp add: power_int_diff)
    also have "\<dots> \<le> of_int p / 2 powi (bitlen q)"
      by (rule divide_right_mono [OF bitlen_lower [OF p]]) simp
    also have "\<dots> \<le> of_int p / of_int q"
      using bitlen_upper [OF q] p q by (intro divide_left_mono) simp_all
    finally show ?thesis unfolding e x .
  qed
qed



lemma binary_exponent_less:
  assumes "x \<noteq> 0"
  shows "\<bar>x\<bar> < 2 powi (binary_exponent x + 1)"
proof -
  obtain p q where pq: "quotient_of \<bar>x\<bar> = (p, q)" by (cases "quotient_of \<bar>x\<bar>")
  have q: "0 < q" using quotient_of_denom_pos [OF pq] .
  have x: "\<bar>x\<bar> = of_int p / of_int q" using quotient_of_div [OF pq] .
  have "0 < \<bar>x\<bar>" using assms by simp
  then have "0 < (of_int p :: rat) / of_int q" unfolding x .
  then have p: "0 < p" using q by (simp add: zero_less_divide_iff)
  define k where "k = bitlen p - bitlen q"
  show ?thesis
  proof (cases "2 powi k \<le> \<bar>x\<bar>")
    case True
    then have e: "binary_exponent x = k" by (simp add: binary_exponent_def pq k_def)
    have "(of_int p :: rat) / of_int q < 2 powi (bitlen p) / of_int q"
      using bitlen_upper [OF p] q by (intro divide_strict_right_mono) simp_all
    also have "\<dots> \<le> 2 powi (bitlen p) / 2 powi (bitlen q - 1)"
      using bitlen_lower [OF q] q by (intro divide_left_mono) simp_all
    also have "\<dots> = 2 powi (k + 1)"
      unfolding k_def by (simp add: power_int_diff power_int_add)
    finally show ?thesis unfolding e x .
  next
    case False
    then show ?thesis by (simp add: binary_exponent_def pq k_def)
  qed
qed







lemma round_to_even_of_int [simp]: "round_to_even (of_int m) = m"
  by (simp add: round_to_even_def)

lemma power_int_less_imp_less:
  assumes "(2::rat) powi a < 2 powi b"
  shows "a < b"
proof (rule ccontr)
  assume "\<not> a < b"
  then have "b \<le> a" by simp
  then have "(2::rat) powi b \<le> 2 powi a" by (rule power_int_increasing) simp
  then show False using assms by simp
qed

lemma fp_round_exact:
  assumes m: "\<bar>m\<bar> < 2 ^ p"
  shows "fp_round p (of_int m * 2 powi k) = of_int m * 2 powi k"
proof (cases "m = 0")
  case True
  then show ?thesis by (simp add: fp_round_def)
next
  case False
  define x :: rat where "x = of_int m * 2 powi k"
  have x0: "x \<noteq> 0" using False by (simp add: x_def)
  define e where "e = binary_exponent x"
  have "\<bar>x\<bar> = of_int \<bar>m\<bar> * 2 powi k" by (simp add: x_def abs_mult)
  also have "\<dots> < of_int (2 ^ p) * 2 powi k"
    using m by (intro mult_strict_right_mono) (simp_all only: of_int_less_iff zero_less_power_int zero_less_numeral)
  also have "\<dots> = 2 powi (int p + k)" by (simp add: power_int_add)
  finally have "2 powi e < (2::rat) powi (int p + k)"
    using binary_exponent_le [OF x0] unfolding e_def by simp
  then have e: "e < int p + k" by (rule power_int_less_imp_less)
  define j where "j = nat (k - (e - int p + 1))"
  have j: "k - (e - int p + 1) = int j" using e by (simp add: j_def)
  define ulp :: rat where "ulp = 2 powi (e - int p + 1)"
  have u: "ulp \<noteq> 0" by (simp add: ulp_def)
  have "2 powi k = ulp * 2 powi (k - (e - int p + 1))"
    unfolding ulp_def by (simp flip: power_int_add)
  then have k: "(2::rat) powi k = ulp * 2 ^ j" unfolding j by simp
  have "x / ulp = of_int (m * 2 ^ j)" using u by (simp add: x_def k)
  then have "of_int (round_to_even (x / ulp)) * ulp = of_int (m * 2 ^ j) * ulp"
    by (simp only: round_to_even_of_int)
  also have "\<dots> = x" by (simp add: x_def k)
  finally show ?thesis
    using x0 unfolding x_def [symmetric] by (simp add: fp_round_def Let_def e_def ulp_def)
qed

lemma binary64_of_int_scaled:
  assumes "n mod 2 ^ k = 0" and "\<bar>n\<bar> < 2 ^ (53 + k)"
  shows "binary64 (of_int n) = of_int n"
proof -
  define m where "m = n div 2 ^ k"
  have n: "n = m * 2 ^ k" using div_mult_mod_eq [of n "2 ^ k"] assms(1) by (simp add: m_def)
  have "\<bar>m\<bar> * 2 ^ k < 2 ^ 53 * 2 ^ k" using assms(2) by (simp add: n abs_mult power_add)
  then have m: "\<bar>m\<bar> < 2 ^ 53" by simp
  have "(of_int n :: rat) = of_int m * 2 powi (int k)" by (simp add: n)
  then show ?thesis unfolding binary64_def by (simp only: fp_round_exact [OF m])
qed

lemma binary64_numeral:
  assumes "(numeral w :: int) mod 2 ^ k = 0" and "(numeral w :: int) < 2 ^ (53 + k)"
  shows "binary64 (numeral w) = numeral w" and "binary64 (- numeral w) = - numeral w"
proof -
  have "binary64 (of_int (numeral w)) = of_int (numeral w)"
    by (rule binary64_of_int_scaled [OF assms(1)]) (use assms(2) in simp)
  then show "binary64 (numeral w) = numeral w" by simp
  have "(- numeral w :: int) mod 2 ^ k = 0" using assms(1) by (simp add: mod_minus_eq zmod_zminus1_eq_if)
  then have "binary64 (of_int (- numeral w)) = of_int (- numeral w)"
    by (rule binary64_of_int_scaled) (use assms(2) in simp)
  then show "binary64 (- numeral w) = - numeral w" by simp
qed

lemma binary64_0 [simp]: "binary64 0 = 0"
  by (simp add: binary64_def fp_round_def)

lemma binary64_1 [simp]: "binary64 1 = 1"
  using binary64_of_int_scaled [of 1 0] by simp

lemma binary64_neg_1 [simp]: "binary64 (- 1) = - 1"
  using binary64_of_int_scaled [of "- 1" 0] by simp

lemmas binary64_small = binary64_numeral [where k = 0, simplified]

lemmas binary64_scaled = binary64_numeral [where k = 12, simplified]

section \<open>CRM: skipped and published fits\<close>

text \<open>Adding samples to the ring touches neither the published model nor the callback.\<close>

lemma add_regression_sample_keeps:
  "crm_model (add_regression_sample local_ps remote_ps s) = crm_model s"
  "s_callback (add_regression_sample local_ps remote_ps s) = s_callback s"
  by (simp_all add: add_regression_sample_def crm_model_def)

lemma fold_add_sample_keeps:
  "crm_model (fold (\<lambda>i s. add_regression_sample (f i) (g i) s) xs s) = crm_model s
   \<and> s_callback (fold (\<lambda>i s. add_regression_sample (f i) (g i) s) xs s) = s_callback s"
  by (induction xs arbitrary: s) (simp_all add: add_regression_sample_keeps)

lemma crm_add_report_keeps:
  "crm_model (crm_add_report t1_ps t2_ps t3_ps t4_ps count s) = crm_model s"
  "s_callback (crm_add_report t1_ps t2_ps t3_ps t4_ps count s) = s_callback s"
  using fold_add_sample_keeps
    [of "\<lambda>i. t2_ps ! i"
        "\<lambda>i. t1_ps ! i + sdiv64 ((t4_ps ! i - t1_ps ! i) - (t3_ps ! i - t2_ps ! i)) 2"
        "[0..<unat count]" s]
  by (simp_all add: crm_add_report_def Let_def)

text \<open>What a successful fit returns, and what \<open>crm_process_ftm_report\<close> does with it.\<close>

lemma perform_regression_success:
  assumes "\<not> ring_count s < MIN_REGRESSION_SAMPLES"
    and "\<not> fp_eq ops (snd (regression_num_den ops s)) (fp_of_i64 ops 0)"
    and "\<not> fp_eq ops (fst (regression_num_den ops s)) (fp_of_i64 ops 0)"
  shows "perform_regression ops s =
     (True,
      s\<lparr>crm_slope_lr_m1 := fit_slope_lr_m1 ops s,
        crm_slope_rl_m1 := fit_slope_rl_m1 ops s,
        crm_local_ref_ps := fit_local_ref_ps ops s,
        crm_remote_ref_ps := fit_remote_ref_ps ops s,
        crm_valid := fp_gt ops (fit_r_squared ops s) (fp_r_squared_threshold ops),
        s_r_squared := fit_r_squared ops s,
        s_residual_std_ns := fit_residual_std ops s,
        s_sample_count := ring_count s\<rparr>)"
  using assms by (auto simp add: perform_regression_def Let_def split: prod.splits)

lemma crm_process_ftm_report_fst:
  assumes "count \<noteq> 0"
  shows "fst (crm_process_ftm_report ops session_number t1_ps t2_ps t3_ps t4_ps count s)
           = snd (perform_regression ops (crm_add_report t1_ps t2_ps t3_ps t4_ps count s))"
  using assms by (simp add: crm_process_ftm_report_def Let_def split: prod.splits)

text \<open>
  The published model of a successful fit, from the values of the three loops. The
  examples evaluate \<open>perform_regression\<close> through it, one loop after the other.
\<close>

lemma perform_regression_model:
  assumes n: "\<not> ring_count s < MIN_REGRESSION_SAMPLES"
    and nd: "regression_num_den ops s = (num, den)"
    and den: "\<not> fp_eq ops den (fp_of_i64 ops 0)"
    and num: "\<not> fp_eq ops num (fp_of_i64 ops 0)"
    and means: "regression_means ops s = (mean_x, mean_y)"
    and lr: "fp_div ops (fp_sub ops num den) den = lr"
    and rl: "fp_div ops (fp_sub ops den num) num = rl"
    and refs: "fp_to_i64 ops mean_y = ref_local" "fp_to_i64 ops mean_x = ref_remote"
    and sq: "regression_squares ops s lr ref_local ref_remote = (ss_tot, ss_res)"
    and r2: "fp_to_float ops
               (if fp_gt ops ss_tot (fp_of_i64 ops 0)
                then fp_sub ops (fp_of_i64 ops 1) (fp_div ops ss_res ss_tot)
                else fp_of_i64 ops 0) = r2"
  shows "fst (perform_regression ops s)"
    and "crm_model (snd (perform_regression ops s))
           = (fp_gt ops r2 (fp_r_squared_threshold ops), lr, rl, ref_local, ref_remote)"
    and "s_callback (snd (perform_regression ops s)) = s_callback s"
proof -
  have f: "fit_slope_lr_m1 ops s = lr" "fit_slope_rl_m1 ops s = rl"
    "fit_local_ref_ps ops s = ref_local" "fit_remote_ref_ps ops s = ref_remote"
    by (simp_all add: fit_slope_lr_m1_def fit_slope_rl_m1_def fit_local_ref_ps_def
        fit_remote_ref_ps_def nd means lr rl refs)
  have r: "fit_r_squared ops s = r2"
    by (simp add: fit_r_squared_def f sq r2)
  note p = perform_regression_success [of s ops, unfolded nd, simplified, OF n den num]
  show "fst (perform_regression ops s)" by (simp add: p)
  show "crm_model (snd (perform_regression ops s))
           = (fp_gt ops r2 (fp_r_squared_threshold ops), lr, rl, ref_local, ref_remote)"
    by (simp add: p crm_model_def f r)
  show "s_callback (snd (perform_regression ops s)) = s_callback s" by (simp add: p)
qed

text \<open>
  Evaluation in \<open>binary64_ops\<close>: the operations, the exact roundings of integers below
  \<open>2^53\<close> and of multiples of \<open>2^12\<close> below \<open>2^65\<close>, the loop indices and the ring buffer.
\<close>

lemmas binary64_eval =
  binary64_ops_def binary64_small binary64_scaled Let_def upt_conv_Cons nth_append

text \<open>
  \<^bold>\<open>C5\<close> (confirmed). A report with at least one entry is processed, and the fit
  is attempted on the ring \<open>s1\<close> that its samples give. If the ring holds fewer than
  \<open>MIN_REGRESSION_SAMPLES\<close> samples, or \<open>den == 0.0\<close>, or \<open>num == 0.0\<close>, then
  \<open>perform_regression\<close> returns \<open>false\<close> and changes nothing, the five fields of the
  published model are those from before the report, and no callback is invoked. This
  holds for every floating-point arithmetic.
\<close>

theorem crm_fit_skipped:
  assumes "count \<noteq> 0"
    and "s1 = crm_add_report t1_ps t2_ps t3_ps t4_ps count s"
    and "ring_count s1 < MIN_REGRESSION_SAMPLES
         \<or> fp_eq ops (snd (regression_num_den ops s1)) (fp_of_i64 ops 0)
         \<or> fp_eq ops (fst (regression_num_den ops s1)) (fp_of_i64 ops 0)"
  shows "perform_regression ops s1 = (False, s1)
         \<and> crm_process_ftm_report ops session_number t1_ps t2_ps t3_ps t4_ps count s = (s1, [])
         \<and> crm_model s1 = crm_model s"
proof -
  have p: "perform_regression ops s1 = (False, s1)"
    using assms(3) by (auto simp add: perform_regression_def Let_def split: prod.splits)
  have "crm_process_ftm_report ops session_number t1_ps t2_ps t3_ps t4_ps count s = (s1, [])"
    using assms(1) p by (simp add: crm_process_ftm_report_def assms(2) [symmetric])
  moreover have "crm_model s1 = crm_model s"
    unfolding assms(2) by (rule crm_add_report_keeps)
  ultimately show ?thesis using p by simp
qed

text \<open>
  The witness: 32 identical points, added to the empty ring of \<open>prior_example\<close>. Every
  \<open>dx\<close> is 0, so \<open>den\<close> is 0; the model stays the one of \<open>crm_init\<close> and the callback 1
  is not invoked.
\<close>

theorem crm_fit_skipped_witness:
  "fp_eq binary64_ops
     (snd (regression_num_den binary64_ops
        (crm_add_report identical_example identical_example identical_example
           identical_example 32 prior_example)))
     (fp_of_i64 binary64_ops 0)
   \<and> crm_process_ftm_report binary64_ops 1 identical_example identical_example identical_example
       identical_example 32 prior_example
     = (crm_add_report identical_example identical_example identical_example
          identical_example 32 prior_example, [])
   \<and> crm_model (crm_add_report identical_example identical_example identical_example
          identical_example 32 prior_example)
     = crm_model prior_example
   \<and> s_callback prior_example = Some 1"
proof -
  define s1 where "s1 = crm_add_report identical_example identical_example identical_example
     identical_example 32 prior_example"
  have ring: "ring_count s1 = 32"
    "ring_remote_ps s1 = replicate 32 5000 @ replicate 96 0"
    "ring_local_ps s1 = replicate 32 5000 @ replicate 96 0"
    unfolding s1_def by code_simp+
  have means: "regression_means binary64_ops s1 = (5000, 5000)"
    unfolding regression_means_def ring by (simp add: binary64_eval)
  have nd: "regression_num_den binary64_ops s1 = (0, 0)"
    unfolding regression_num_den_def means ring by (simp add: binary64_eval)
  have den: "fp_eq binary64_ops (snd (regression_num_den binary64_ops s1))
               (fp_of_i64 binary64_ops 0)"
    unfolding nd by (simp add: binary64_eval)
  have c: "(32 :: u8) \<noteq> 0" by simp
  have cb: "s_callback prior_example = Some 1"
    by (simp add: prior_example_def crm_register_callback_def)
  note T = crm_fit_skipped [where ops = binary64_ops and session_number = 1,
      OF c s1_def disjI2 [OF disjI1 [OF den]]]
  show ?thesis
    unfolding s1_def [symmetric]
    by (intro conjI) (rule den, rule T [THEN conjunct2, THEN conjunct1],
        rule T [THEN conjunct2, THEN conjunct2], rule cb)
qed

text \<open>
  \<^bold>\<open>C10\<close> (confirmed). When the fit succeeds on the ring \<open>s1\<close> of a report (at
  least \<open>MIN_REGRESSION_SAMPLES\<close> samples, \<open>den\<close> and \<open>num\<close> not equal to 0) and
  \<open>r_squared\<close>, the \<open>float\<close> value of \<open>1.0 - ss_res / ss_tot\<close> (of \<open>0.0\<close> if \<open>ss_tot\<close> is not
  positive), is not greater than the threshold \<open>0.999f\<close>, then the published slopes are
  the new ones, \<open>(num - den) / den\<close> and \<open>(den - num) / num\<close>, the published reference
  point is the new centroid \<open>((int64_t)mean_y, (int64_t)mean_x)\<close>, \<open>crm_valid\<close> is \<open>false\<close>,
  and the registered callback is invoked, once. This holds for every floating-point
  arithmetic.
\<close>

theorem crm_publish_below_threshold:
  assumes "count \<noteq> 0"
    and "s1 = crm_add_report t1_ps t2_ps t3_ps t4_ps count s"
    and "\<not> ring_count s1 < MIN_REGRESSION_SAMPLES"
    and "regression_num_den ops s1 = (num, den)"
    and "\<not> fp_eq ops den (fp_of_i64 ops 0)"
    and "\<not> fp_eq ops num (fp_of_i64 ops 0)"
    and "regression_means ops s1 = (mean_x, mean_y)"
    and "regression_squares ops s1 (fp_div ops (fp_sub ops num den) den)
           (fp_to_i64 ops mean_y) (fp_to_i64 ops mean_x) = (ss_tot, ss_res)"
    and "\<not> fp_gt ops
             (fp_to_float ops
                (if fp_gt ops ss_tot (fp_of_i64 ops 0)
                 then fp_sub ops (fp_of_i64 ops 1) (fp_div ops ss_res ss_tot)
                 else fp_of_i64 ops 0))
             (fp_r_squared_threshold ops)"
    and "s_callback s = Some callback"
  shows "\<exists>s2. perform_regression ops s1 = (True, s2)
           \<and> crm_process_ftm_report ops session_number t1_ps t2_ps t3_ps t4_ps count s
               = (s2, [callback])
           \<and> crm_valid s2 = False
           \<and> crm_slope_lr_m1 s2 = fp_div ops (fp_sub ops num den) den
           \<and> crm_slope_rl_m1 s2 = fp_div ops (fp_sub ops den num) num
           \<and> crm_local_ref_ps s2 = fp_to_i64 ops mean_y
           \<and> crm_remote_ref_ps s2 = fp_to_i64 ops mean_x"
proof -
  define s2 where "s2 = snd (perform_regression ops s1)"
  note m = perform_regression_model [OF assms(3,4,5,6,7) refl refl refl refl assms(8) refl]
  have p: "perform_regression ops s1 = (True, s2)"
    using m(1) by (simp add: s2_def prod_eq_iff)
  have cb: "s_callback s2 = Some callback"
    unfolding s2_def m(3) using assms(10) by (simp add: assms(2) crm_add_report_keeps)
  have r: "crm_process_ftm_report ops session_number t1_ps t2_ps t3_ps t4_ps count s
             = (s2, [callback])"
    using assms(1) p cb by (simp add: crm_process_ftm_report_def assms(2) [symmetric])
  have "crm_model s2
          = (False, fp_div ops (fp_sub ops num den) den, fp_div ops (fp_sub ops den num) num,
             fp_to_i64 ops mean_y, fp_to_i64 ops mean_x)"
    unfolding s2_def m(2) using assms(9) by simp
  then have f: "crm_valid s2 = False"
    "crm_slope_lr_m1 s2 = fp_div ops (fp_sub ops num den) den"
    "crm_slope_rl_m1 s2 = fp_div ops (fp_sub ops den num) num"
    "crm_local_ref_ps s2 = fp_to_i64 ops mean_y"
    "crm_remote_ref_ps s2 = fp_to_i64 ops mean_x"
    by (simp_all add: crm_model_def)
  show ?thesis using p r f by blast
qed

text \<open>
  The witness: the 32 scattered points, in \<open>binary64\<close> arithmetic. The prior model is
  \<open>(false, 0, 0, 0, 0)\<close>. The loops give the means \<open>(1, 4)\<close>, \<open>num = 64\<close>, \<open>den = 32\<close>,
  \<open>ss_tot = 256\<close> and \<open>ss_res = 128\<close>, so \<open>r_squared = 0.5\<close>; the model is published as
  \<open>(false, 1, -0.5, 4, 1)\<close> and the callback 1 is invoked.
\<close>

lemma scatter_example_fit:
  fixes s1 :: "rat crm"
  assumes "s1 = crm_add_report scatter_remote_example scatter_local_example
     scatter_local_example scatter_remote_example 32 prior_example"
  shows "\<not> ring_count s1 < MIN_REGRESSION_SAMPLES"
    and "regression_means binary64_ops s1 = (1, 4)"
    and "regression_num_den binary64_ops s1 = (64, 32)"
    and "regression_squares binary64_ops s1 1 4 1 = (256, 128)"
proof -
  have ring: "ring_count s1 = 32"
    "ring_remote_ps s1 = replicate 16 0 @ replicate 16 2 @ replicate 96 0"
    "ring_local_ps s1
       = replicate 8 0 @ replicate 8 4 @ replicate 8 4 @ replicate 8 8 @ replicate 96 0"
    unfolding assms by code_simp+
  show "\<not> ring_count s1 < MIN_REGRESSION_SAMPLES"
    unfolding ring by (simp add: MIN_REGRESSION_SAMPLES_def FTM_FRAMES_PER_SESSION_def)
  show means: "regression_means binary64_ops s1 = (1, 4)"
    unfolding regression_means_def ring by (simp add: binary64_eval)
  show "regression_num_den binary64_ops s1 = (64, 32)"
    unfolding regression_num_den_def means ring by (simp add: binary64_eval)
  show "regression_squares binary64_ops s1 1 4 1 = (256, 128)"
    unfolding regression_squares_def means ring by (simp add: binary64_eval)
qed

theorem crm_publish_below_threshold_witness:
  "crm_model prior_example = (False, 0, 0, 0, 0)
   \<and> regression_num_den binary64_ops
        (crm_add_report scatter_remote_example scatter_local_example scatter_local_example
           scatter_remote_example 32 prior_example) = (64, 32)
   \<and> (\<exists>s2. crm_process_ftm_report binary64_ops 1 scatter_remote_example scatter_local_example
              scatter_local_example scatter_remote_example 32 prior_example = (s2, [1])
          \<and> crm_model s2 = (False, 1, - (1 / 2), 4, 1))"
proof -
  define s1 where "s1 = crm_add_report scatter_remote_example scatter_local_example
     scatter_local_example scatter_remote_example 32 prior_example"
  note e = scatter_example_fit [OF s1_def]
  have c: "(32 :: u8) \<noteq> 0" by simp
  have z: "fp_of_i64 binary64_ops 0 = 0" by (simp add: binary64_eval)
  have den: "\<not> fp_eq binary64_ops 32 (fp_of_i64 binary64_ops 0)"
    and num: "\<not> fp_eq binary64_ops 64 (fp_of_i64 binary64_ops 0)"
    unfolding z by (simp_all add: binary64_ops_def)
  have lr: "fp_div binary64_ops (fp_sub binary64_ops 64 32) 32 = 1"
    by (simp add: binary64_eval)
  have rl: "fp_div binary64_ops (fp_sub binary64_ops 32 64) 64 = - (1 / 2)"
    by code_simp
  have refs: "fp_to_i64 binary64_ops 4 = 4" "fp_to_i64 binary64_ops 1 = 1"
    by (simp_all add: binary64_ops_def double_to_i64_def)
  have sq: "regression_squares binary64_ops s1
              (fp_div binary64_ops (fp_sub binary64_ops 64 32) 32)
              (fp_to_i64 binary64_ops 4) (fp_to_i64 binary64_ops 1) = (256, 128)"
    unfolding lr refs by (rule e(4))
  have thr: "\<not> fp_gt binary64_ops
             (fp_to_float binary64_ops
                (if fp_gt binary64_ops 256 (fp_of_i64 binary64_ops 0)
                 then fp_sub binary64_ops (fp_of_i64 binary64_ops 1)
                        (fp_div binary64_ops 128 256)
                 else fp_of_i64 binary64_ops 0))
             (fp_r_squared_threshold binary64_ops)"
    by code_simp
  have cb: "s_callback prior_example = Some 1"
    by (simp add: prior_example_def crm_register_callback_def)
  have prior: "crm_model prior_example = (False, 0, 0, 0, 0)"
    by (simp add: prior_example_def crm_register_callback_def crm_init_def crm_model_def
        binary64_eval)
  note T = crm_publish_below_threshold [where ops = binary64_ops and session_number = 1,
      OF c s1_def e(1) e(3) den num e(2) sq thr cb, unfolded lr rl refs, folded s1_def]
  have "\<exists>s2. crm_process_ftm_report binary64_ops 1 scatter_remote_example scatter_local_example
              scatter_local_example scatter_remote_example 32 prior_example = (s2, [1])
          \<and> crm_model s2 = (False, 1, - (1 / 2), 4, 1)"
    using T unfolding s1_def crm_model_def
    by (elim exE conjE) (rule exI, rule conjI, assumption, simp)
  then show ?thesis
    using prior e(3) unfolding s1_def by (intro conjI)
qed

section \<open>FTM: reports that pass the unwrapping unchanged\<close>

text \<open>
  A non-decreasing list of raw values is returned as it is by an unwrap state whose
  offset is 0 and whose last value is 0 or not above the list: \<open>clock_unwrap\<close> sees no
  wrap. So \<open>process_ftm_report\<close> hands a report of four such lists to
  \<open>crm_process_ftm_report\<close> as it came.
\<close>

lemma unwrap_all_sorted:
  assumes "offset st = 0" and "sorted_wrt (\<le>s) xs"
    and "last_val st = 0 \<or> (\<forall>x\<in>set xs. last_val st \<le>s x)"
  shows "fst (unwrap_all xs st) = xs"
  using assms
proof (induction xs arbitrary: st)
  case Nil
  then show ?case by simp
next
  case (Cons x xs)
  have "\<not> (last_val st \<noteq> 0 \<and> x <s last_val st)"
    using Cons.prems(3) by (auto simp add: word_sle_eq word_sless_alt)
  then have "(if last_val st \<noteq> 0 \<and> x <s last_val st then a else b) = b" for a b :: unwrap_state
    by (rule if_not_P)
  then have c: "clock_unwrap x st = (x, st\<lparr>last_val := x\<rparr>)"
    unfolding clock_unwrap_def Let_def using Cons.prems(1) by simp
  have "fst (unwrap_all xs (st\<lparr>last_val := x\<rparr>)) = xs"
    using Cons.prems(1,2) by (intro Cons.IH) simp_all
  then show ?case by (simp add: c split_beta)
qed

lemma sorted_wrt_replicate:
  assumes "P x x"
  shows "sorted_wrt P (replicate n x)"
  using assms by (induction n) simp_all

lemma unwrap_all_fresh:
  assumes "sorted_wrt (\<le>s) xs"
  shows "fst (unwrap_all xs (unwrap_init w w2)) = xs"
  by (rule unwrap_all_sorted [OF _ assms]) (simp_all add: unwrap_init_def)

lemma process_ftm_report_sorted:
  assumes "count \<noteq> 0"
    and "length raw_t1 = unat count" and "length raw_t2 = unat count"
    and "length raw_t3 = unat count" and "length raw_t4 = unat count"
    and "sorted_wrt (\<le>s) raw_t1" and "sorted_wrt (\<le>s) raw_t2"
    and "sorted_wrt (\<le>s) raw_t3" and "sorted_wrt (\<le>s) raw_t4"
  shows "snd (fst (process_ftm_report ops raw_t1 raw_t2 raw_t3 raw_t4 count (ftm_poll_init, crm)))
           = fst (crm_process_ftm_report ops 1 raw_t1 raw_t2 raw_t3 raw_t4 count crm)"
    and "snd (process_ftm_report ops raw_t1 raw_t2 raw_t3 raw_t4 count (ftm_poll_init, crm))
           = snd (crm_process_ftm_report ops 1 raw_t1 raw_t2 raw_t3 raw_t4 count crm)"
  using assms(1)
  by (simp_all add: process_ftm_report_def Let_def split_beta assms(2-5) ftm_poll_init_def
      unwrap_all_fresh [OF assms(6)] unwrap_all_fresh [OF assms(7)]
      unwrap_all_fresh [OF assms(8)] unwrap_all_fresh [OF assms(9)])

lemma example_reports_sorted:
  "sorted_wrt (\<le>s) drift_remote_example" "sorted_wrt (\<le>s) drift_local_example"
  "sorted_wrt (\<le>s) steep_remote_example" "sorted_wrt (\<le>s) steep_local_example"
  "sorted_wrt (\<le>s) reversed_t1_example" "sorted_wrt (\<le>s) reversed_t2_example"
  "sorted_wrt (\<le>s) reversed_t3_example"
  by (simp_all add: drift_remote_example_def drift_local_example_def steep_remote_example_def
      steep_local_example_def reversed_t1_example_def reversed_t2_example_def
      reversed_t3_example_def sorted_wrt_append sorted_wrt_replicate word_sle_eq)

lemma example_reports_length:
  "length drift_remote_example = unat (32 :: u8)" "length drift_local_example = unat (32 :: u8)"
  "length steep_remote_example = unat (32 :: u8)" "length steep_local_example = unat (32 :: u8)"
  "length reversed_t1_example = unat (32 :: u8)" "length reversed_t2_example = unat (32 :: u8)"
  "length reversed_t3_example = unat (32 :: u8)"
  by (simp_all add: drift_remote_example_def drift_local_example_def steep_remote_example_def
      steep_local_example_def reversed_t1_example_def reversed_t2_example_def
      reversed_t3_example_def)

section \<open>CRM: the two slopes as inverses\<close>

text \<open>The fits of the \<open>drift\<close> and of the \<open>steep\<close> report, loop by loop.\<close>

lemma drift_example_fit:
  fixes s1 :: "rat crm"
  assumes "s1 = crm_add_report drift_remote_example drift_local_example
     drift_local_example drift_remote_example 32 prior_example"
  shows "fst (perform_regression binary64_ops s1)"
    and "regression_num_den binary64_ops s1 = (33587200000000000000, 33554432000000000000)"
    and "crm_model (snd (perform_regression binary64_ops s1))
           = (True, 1 / 1024, - (1124801467909119 / 1152921504606846976),
              1025000000, 1024000000)"
proof -
  have ring: "ring_count s1 = 32"
    "ring_remote_ps s1 = replicate 16 0 @ replicate 16 2048000000 @ replicate 96 0"
    "ring_local_ps s1 = replicate 16 0 @ replicate 16 2050000000 @ replicate 96 0"
    unfolding assms by code_simp+
  have n: "\<not> ring_count s1 < MIN_REGRESSION_SAMPLES"
    unfolding ring by (simp add: MIN_REGRESSION_SAMPLES_def FTM_FRAMES_PER_SESSION_def)
  have means: "regression_means binary64_ops s1 = (1024000000, 1025000000)"
    unfolding regression_means_def ring by (simp add: binary64_eval)
  show nd: "regression_num_den binary64_ops s1 = (33587200000000000000, 33554432000000000000)"
    unfolding regression_num_den_def means ring by (simp add: binary64_eval)
  have z: "fp_of_i64 binary64_ops 0 = 0" by (simp add: binary64_eval)
  have den: "\<not> fp_eq binary64_ops 33554432000000000000 (fp_of_i64 binary64_ops 0)"
    and num: "\<not> fp_eq binary64_ops 33587200000000000000 (fp_of_i64 binary64_ops 0)"
    unfolding z by (simp_all add: binary64_ops_def)
  have lr: "fp_div binary64_ops
              (fp_sub binary64_ops 33587200000000000000 33554432000000000000)
              33554432000000000000 = 1 / 1024"
    by code_simp
  have rl: "fp_div binary64_ops
              (fp_sub binary64_ops 33554432000000000000 33587200000000000000)
              33587200000000000000 = - (1124801467909119 / 1152921504606846976)"
    by code_simp
  have refs: "fp_to_i64 binary64_ops 1025000000 = 1025000000"
    "fp_to_i64 binary64_ops 1024000000 = 1024000000"
    by (simp_all add: binary64_ops_def double_to_i64_def)
  have sq: "regression_squares binary64_ops s1 (1 / 1024) 1025000000 1024000000
              = (33620000000000000000, 0)"
    unfolding regression_squares_def means ring by (simp add: binary64_eval)
  have r2: "fp_to_float binary64_ops
               (if fp_gt binary64_ops 33620000000000000000 (fp_of_i64 binary64_ops 0)
                then fp_sub binary64_ops (fp_of_i64 binary64_ops 1)
                       (fp_div binary64_ops 0 33620000000000000000)
                else fp_of_i64 binary64_ops 0) = 1"
    by code_simp
  have v: "fp_gt binary64_ops 1 (fp_r_squared_threshold binary64_ops)" by code_simp
  note m = perform_regression_model [OF n nd den num means lr rl refs sq r2]
  show "fst (perform_regression binary64_ops s1)" by (rule m(1))
  show "crm_model (snd (perform_regression binary64_ops s1))
           = (True, 1 / 1024, - (1124801467909119 / 1152921504606846976),
              1025000000, 1024000000)"
    unfolding m(2) using v by simp
qed


text \<open>In exact arithmetic the two quotients are inverses of each other.\<close>

lemma slopes_inverse_exact:
  fixes num den :: rat
  assumes "num \<noteq> 0" and "den \<noteq> 0"
  shows "(1 + (num - den) / den) * (1 + (den - num) / num) = 1"
  using assms by (simp add: field_simps)




section \<open>DTC: forward in time\<close>

lemma dtc_constants:
  "DTR_TIMER_PERIOD_TICKS = 20000" "DTR_PS_PER_TICK = 25000" "TIMER_TICKS_PER_US = 40"
  "(scast (DTR_NS_TO_TICKS DTR_COMPENSATION_NS) :: i64) = - 8"
  by (simp_all add: DTR_TIMER_PERIOD_TICKS_def DTR_PS_PER_TICK_def TIMER_TICKS_PER_US_def
      DTR_TIMER_RESOLUTION_HZ_def DTR_NS_TO_TICKS_def DTR_COMPENSATION_NS_def sdiv64_def)


lemmas dtc_defs =
  dtc_aligned_local_ticks_def dtc_remote_to_local_def dtc_aligned_remote_ticks_def
  dtc_aligned_cycle_counter_def dtc_remote_ticks_def dtc_local_to_remote_def
  dtc_ref_local_ticks_def dtc_ref_remote_ticks_def slope_correction_def

text \<open>
  The published target, relative to the sampled \<open>timer_base\<close>: the distance from the
  projected remote position to the aligned one, plus the two slope corrections, plus
  the compensation of \<open>-8\<close> ticks. The reference point cancels. (Modulo \<open>2^64\<close>.)
\<close>

lemma dtc_aligned_local_ticks_eq:
  "dtc_aligned_local_ticks ops crm timer_base =
     timer_base
     + (dtc_aligned_remote_ticks ops crm timer_base - dtc_remote_ticks ops crm timer_base)
     + slope_correction ops (crm_slope_rl_m1 crm) (timer_base - dtc_ref_local_ticks crm)
     + slope_correction ops (crm_slope_lr_m1 crm)
         (dtc_aligned_remote_ticks ops crm timer_base - dtc_ref_remote_ticks crm)
     - 8"
  by (simp add: dtc_aligned_local_ticks_def dtc_remote_to_local_def dtc_remote_ticks_def
      dtc_local_to_remote_def Let_def dtc_constants)

text \<open>
  The rounding step: the aligned remote position is the multiple of the period that
  lies 30001 to 50000 ticks ahead of the projected one, for every 64-bit value of the
  projected remote position, the distance taken modulo \<open>2^64\<close>.
\<close>

lemma round_to_cycle_int:
  fixes n :: int
  assumes "0 \<le> n"
  shows "n + 30001 \<le> ((n + 10000) div 20000 + 2) * 20000"
    and "((n + 10000) div 20000 + 2) * 20000 \<le> n + 50000"
proof -
  define q where "q = (n + 10000) div 20000"
  define m where "m = (n + 10000) mod 20000"
  have m: "0 \<le> m" "m < 20000" by (simp_all add: m_def)
  have "n + 10000 = q * 20000 + m" by (simp add: q_def m_def)
  then show "n + 30001 \<le> ((n + 10000) div 20000 + 2) * 20000"
    and "((n + 10000) div 20000 + 2) * 20000 \<le> n + 50000"
    using m unfolding q_def [symmetric] by simp_all
qed

lemma sint_word_of_int_small:
  assumes "- (2 ^ 63) \<le> m" and "m < 2 ^ 63"
  shows "sint (word_of_int m :: i64) = m"
  using assms by (simp add: sint_sbintrunc' signed_take_bit_int_eq_self)

lemma round_ahead_word:
  fixes r :: i64
  shows "30001 \<le> sint (((r + 10000) div 20000 + 2) * 20000 - r)"
    and "sint (((r + 10000) div 20000 + 2) * 20000 - r) \<le> 50000"
proof -
  define n where "n = uint r"
  have n: "0 \<le> n" "n < 2 ^ 64" using uint_lt2p [of r] by (simp_all add: n_def)
  have r: "r = word_of_int n" by (simp add: n_def)
  have k: "uint (10000 :: i64) = 10000" "uint (20000 :: i64) = 20000" by simp_all
  have "\<exists>D. ((r + 10000) div 20000 + 2) * 20000 - r = word_of_int D
            \<and> 30001 \<le> D \<and> D \<le> 50000"
  proof (cases "n + 10000 < 2 ^ 64")
    case True
    define q where "q = (n + 10000) div 20000"
    have "uint (r + 10000) = n + 10000"
      using True n by (simp add: uint_plus_if' k n_def)
    then have "uint ((r + 10000) div 20000) = q"
      by (simp add: uint_div k q_def)
    then have "(r + 10000) div 20000 = word_of_int q"
      by (metis word_of_int_uint)
    then have "((r + 10000) div 20000 + 2) * 20000 - r = word_of_int ((q + 2) * 20000 - n)"
      by (simp add: r)
    moreover have "30001 \<le> (q + 2) * 20000 - n" "(q + 2) * 20000 - n \<le> 50000"
      using round_to_cycle_int [OF n(1)] unfolding q_def by simp_all
    ultimately show ?thesis by blast
  next
    case False
    then have w: "uint (r + 10000) = n + 10000 - 2 ^ 64"
      using n by (simp add: uint_plus_if' k n_def)
    have "(n + 10000 - 2 ^ 64) div 20000 = 0"
      using False n by (intro div_pos_pos_trivial) simp_all
    then have "uint ((r + 10000) div 20000) = 0"
      by (simp add: uint_div k w)
    then have "(r + 10000) div 20000 = 0"
      by (metis word_of_int_uint word_of_int_0)
    then have "((r + 10000) div 20000 + 2) * 20000 - r = word_of_int (40000 - n)"
      by (simp add: r)
    also have "\<dots> = word_of_int (40000 - n + 2 ^ 64)"
      by (simp add: word_of_int_eq_iff take_bit_eq_mod)
    finally have "((r + 10000) div 20000 + 2) * 20000 - r = word_of_int (40000 - n + 2 ^ 64)" .
    moreover have "30001 \<le> 40000 - n + 2 ^ 64" "40000 - n + 2 ^ 64 \<le> 50000"
      using False n by simp_all
    ultimately show ?thesis by blast
  qed
  then obtain D where D: "((r + 10000) div 20000 + 2) * 20000 - r = word_of_int D"
    "30001 \<le> D" "D \<le> 50000" by blast
  have "sint (word_of_int D :: i64) = D"
    using D(2,3) by (intro sint_word_of_int_small) simp_all
  then show "30001 \<le> sint (((r + 10000) div 20000 + 2) * 20000 - r)"
    and "sint (((r + 10000) div 20000 + 2) * 20000 - r) \<le> 50000"
    unfolding D(1) using D(2,3) by simp_all
qed

lemma dtc_aligned_remote_ticks_eq:
  "dtc_aligned_remote_ticks ops crm timer_base =
     ((dtc_remote_ticks ops crm timer_base + 10000) div 20000 + 2) * 20000"
  by (simp add: dtc_aligned_remote_ticks_def dtc_aligned_cycle_counter_def dtc_constants)

lemma dtc_round_ahead:
  "30001 \<le> sint (dtc_aligned_remote_ticks ops crm timer_base
                   - dtc_remote_ticks ops crm timer_base)"
  "sint (dtc_aligned_remote_ticks ops crm timer_base
         - dtc_remote_ticks ops crm timer_base) \<le> 50000"
  unfolding dtc_aligned_remote_ticks_eq by (rule round_ahead_word)+

lemma word_of_sint_sum:
  fixes a b c e :: i64
  shows "a + b + c + e - 8 = word_of_int (sint a + sint b + sint c + sint e - 8)"
  by (simp add: of_int_sint)

text \<open>
  The request that \<open>dtc_publish_request\<close> leaves pending is the one computed from the
  \<open>timer_base_ticks\<close> of the state it returns, the value sampled after the TEZ wait.
\<close>

lemma dtc_publish_request_Inr:
  assumes "dtc_publish_request ops cfg task crm s = Inr s2"
  shows "s_align_request s2 =
           \<lparr>pending = True,
            aligned_local_ticks = dtc_aligned_local_ticks ops crm (timer_base_ticks s2),
            aligned_cycle_counter = dtc_aligned_cycle_counter ops crm (timer_base_ticks s2),
            aligned_base_period_fp16 = dtc_calculate_period_fp16 ops crm\<rparr>"
proof -
  obtain s1 where s2: "s2 = dtr_set_align_request
        (dtc_aligned_cycle_counter ops crm (timer_base_ticks s1))
        (dtc_aligned_local_ticks ops crm (timer_base_ticks s1))
        (dtc_calculate_period_fp16 ops crm) s1"
    using assms
    by (auto simp add: dtc_publish_request_def dtr_get_timer_base_ticks_def Let_def
        split: sum.splits)
  have "timer_base_ticks s2 = timer_base_ticks s1"
    by (simp add: s2 dtr_set_align_request_def)
  then show ?thesis by (simp add: s2 dtr_set_align_request_def)
qed

text \<open>
  \<^bold>\<open>C6\<close> (corrected). Let \<open>timer_base\<close> be the value sampled after the TEZ wait,
  \<open>distance\<close> the distance of the rounding step, from the projected remote position to
  the aligned one, and \<open>c_rl\<close> and \<open>c_lr\<close> the slope corrections of the two projections,
  the truncated products \<open>delta * slope\<close>. Every request that DTC publishes is pending
  and has the target \<open>timer_base + distance + c_rl + c_lr - 8\<close> (modulo \<open>2^64\<close>; \<open>-8\<close>
  ticks are the compensation), and the \<open>+2\<close> makes \<open>distance\<close> 30001 to 50000 ticks. So,
  where that sum does not overflow the signed 64-bit range, the target is after
  \<open>timer_base\<close> if and only if \<open>distance + c_rl + c_lr\<close> exceeds 8; it is whenever the two
  corrections sum to at least \<open>-29992\<close> ticks. The \<open>+2\<close> alone does not enforce it, as the
  claim has it: with a model of slope \<open>-1\<close> the target is before \<open>timer_base\<close>.
\<close>

theorem dtc_request_forward:
  assumes "dtc_publish_request ops cfg task crm s = Inr s2"
    and "timer_base = timer_base_ticks s2"
    and "distance = dtc_aligned_remote_ticks ops crm timer_base
                    - dtc_remote_ticks ops crm timer_base"
    and "c_rl = slope_correction ops (crm_slope_rl_m1 crm)
                  (timer_base - dtc_ref_local_ticks crm)"
    and "c_lr = slope_correction ops (crm_slope_lr_m1 crm)
                  (dtc_aligned_remote_ticks ops crm timer_base - dtc_ref_remote_ticks crm)"
  shows "pending (s_align_request s2)
         \<and> aligned_local_ticks (s_align_request s2)
             = timer_base + distance + c_rl + c_lr - 8
         \<and> 30001 \<le> sint distance \<and> sint distance \<le> 50000
         \<and> (- (2 ^ 63) \<le> sint timer_base + sint distance + sint c_rl + sint c_lr - 8
              \<and> sint timer_base + sint distance + sint c_rl + sint c_lr - 8 < 2 ^ 63
            \<longrightarrow> (timer_base <s aligned_local_ticks (s_align_request s2)
                  \<longleftrightarrow> 8 < sint distance + sint c_rl + sint c_lr))
         \<and> (- 29992 \<le> sint c_rl + sint c_lr
              \<and> sint timer_base + sint c_rl + sint c_lr + 50000 \<le> 2 ^ 63
            \<longrightarrow> timer_base <s aligned_local_ticks (s_align_request s2))"
proof -
  define target where "target = aligned_local_ticks (s_align_request s2)"
  define m where "m = sint timer_base + sint distance + sint c_rl + sint c_lr - 8"
  note req = dtc_publish_request_Inr [OF assms(1), folded assms(2)]
  have p: "pending (s_align_request s2)" by (simp add: req)
  have "target = dtc_aligned_local_ticks ops crm timer_base"
    by (simp add: req target_def)
  also have "\<dots> = timer_base + distance + c_rl + c_lr - 8"
    unfolding assms(3,4,5) by (rule dtc_aligned_local_ticks_eq)
  finally have t: "target = timer_base + distance + c_rl + c_lr - 8" .
  then have w: "target = word_of_int m" unfolding m_def by (simp only: word_of_sint_sum)
  have d: "30001 \<le> sint distance" "sint distance \<le> 50000"
    unfolding assms(3) by (rule dtc_round_ahead)+
  have iff: "timer_base <s target \<longleftrightarrow> 8 < sint distance + sint c_rl + sint c_lr"
    if "- (2 ^ 63) \<le> m" "m < 2 ^ 63"
  proof -
    have "sint target = m" unfolding w by (rule sint_word_of_int_small [OF that])
    then show ?thesis unfolding word_sless_alt m_def by auto
  qed
  have fwd: "timer_base <s target"
    if "- 29992 \<le> sint c_rl + sint c_lr"
      "sint timer_base + sint c_rl + sint c_lr + 50000 \<le> 2 ^ 63"
  proof -
    have "- (2 ^ 63) \<le> m" using d(1) that(1) sint_ge [of timer_base] unfolding m_def by simp
    moreover have "m < 2 ^ 63" using d(2) that(2) unfolding m_def by simp
    ultimately show ?thesis using iff d(1) that(1) by simp
  qed
  show ?thesis
    unfolding target_def [symmetric] m_def [symmetric]
    using p t d iff fwd by (simp add: m_def)
qed

text \<open>
  The witness: the model of the \<open>drift\<close> report. From \<open>timer_base = 60000\<close> the projected
  remote position is 59942, the aligned one \<open>5 * 20000\<close>, the corrections are \<open>-18\<close> and
  57 ticks, and the target is \<open>60000 + 40058 - 18 + 57 - 8\<close>.
\<close>

lemma published_drift_example_reached:
  "dtc_publish_request binary64_ops cfg_example 1 crm_drift_example aligned_example
     = Inr published_drift_example"
proof -
  have t: "dtc_aligned_local_ticks binary64_ops crm_drift_example 60000 = 100089"
    by code_simp
  have c: "dtc_aligned_cycle_counter binary64_ops crm_drift_example 60000 = 5"
    by code_simp
  have p: "dtc_calculate_period_fp16 binary64_ops crm_drift_example = 1312000000"
    by code_simp
  show ?thesis
    by (simp add: dtc_publish_request_def dtr_get_timer_base_ticks_def dtr_eval
        aligned_example_def published_drift_example_def t c p)
qed

lemma published_reversed_example_reached:
  "dtc_publish_request binary64_ops cfg_example 1 crm_reversed_example aligned_example
     = Inr published_reversed_example"
proof -
  have t: "dtc_aligned_local_ticks binary64_ops crm_reversed_example 60000 = 19992"
    by code_simp
  have c: "dtc_aligned_cycle_counter binary64_ops crm_reversed_example 60000 = 7"
    by code_simp
  have p: "dtc_calculate_period_fp16 binary64_ops crm_reversed_example = - 1310720000"
    by code_simp
  show ?thesis
    by (simp add: dtc_publish_request_def dtr_get_timer_base_ticks_def dtr_eval
        aligned_example_def published_reversed_example_def t c p)
qed

lemma crm_drift_example_fitted:
  "crm_model (snd (fst (process_ftm_report binary64_ops drift_remote_example
                          drift_local_example drift_local_example drift_remote_example 32
                          (ftm_poll_init, prior_example))))
     = crm_model crm_drift_example"
proof -
  have c: "(32 :: u8) \<noteq> 0" by simp
  have "snd (fst (process_ftm_report binary64_ops drift_remote_example
                    drift_local_example drift_local_example drift_remote_example 32
                    (ftm_poll_init, prior_example)))
          = fst (crm_process_ftm_report binary64_ops 1 drift_remote_example
                   drift_local_example drift_local_example drift_remote_example 32
                   prior_example)"
    by (rule process_ftm_report_sorted [OF c example_reports_length(1,2,2,1)
          example_reports_sorted(1,2,2,1)])
  also have "\<dots> = snd (perform_regression binary64_ops
      (crm_add_report drift_remote_example drift_local_example drift_local_example
         drift_remote_example 32 prior_example))"
    by (rule crm_process_ftm_report_fst [OF c])
  finally have e: "snd (fst (process_ftm_report binary64_ops drift_remote_example
                    drift_local_example drift_local_example drift_remote_example 32
                    (ftm_poll_init, prior_example)))
          = snd (perform_regression binary64_ops
      (crm_add_report drift_remote_example drift_local_example drift_local_example
         drift_remote_example 32 prior_example))" .
  have x: "crm_model crm_drift_example
             = (True, 1 / 1024, - (1124801467909119 / 1152921504606846976),
                1025000000, 1024000000)"
    by (simp add: crm_model_def crm_drift_example_def)
  show ?thesis unfolding e x by (rule drift_example_fit(3) [OF refl])
qed

theorem dtc_request_forward_witness:
  "crm_model (snd (fst (process_ftm_report binary64_ops drift_remote_example
                          drift_local_example drift_local_example drift_remote_example 32
                          (ftm_poll_init, prior_example))))
     = crm_model crm_drift_example
   \<and> dtc_publish_request binary64_ops cfg_example 1 crm_drift_example aligned_example
       = Inr published_drift_example
   \<and> timer_base_ticks published_drift_example = 60000
   \<and> dtc_remote_ticks binary64_ops crm_drift_example 60000 = 59942
   \<and> dtc_aligned_remote_ticks binary64_ops crm_drift_example 60000 = 100000
   \<and> slope_correction binary64_ops (crm_slope_rl_m1 crm_drift_example)
        (60000 - dtc_ref_local_ticks crm_drift_example) = - 18
   \<and> slope_correction binary64_ops (crm_slope_lr_m1 crm_drift_example)
        (100000 - dtc_ref_remote_ticks crm_drift_example) = 57
   \<and> pending (s_align_request published_drift_example)
   \<and> aligned_local_ticks (s_align_request published_drift_example)
       = 60000 + 40058 + - 18 + 57 - 8
   \<and> (60000 :: i64) <s aligned_local_ticks (s_align_request published_drift_example)"
proof -
  have tb: "timer_base_ticks published_drift_example = 60000"
    by (simp add: published_drift_example_def)
  have r: "dtc_remote_ticks binary64_ops crm_drift_example 60000 = 59942"
    by code_simp
  have ar: "dtc_aligned_remote_ticks binary64_ops crm_drift_example 60000 = 100000"
    by (simp add: dtc_aligned_remote_ticks_eq r)
  have d: "(40058 :: i64) = dtc_aligned_remote_ticks binary64_ops crm_drift_example 60000
                            - dtc_remote_ticks binary64_ops crm_drift_example 60000"
    by (simp add: ar r)
  have c_rl: "slope_correction binary64_ops (crm_slope_rl_m1 crm_drift_example)
                (60000 - dtc_ref_local_ticks crm_drift_example) = - 18"
    by code_simp
  have c_lr: "slope_correction binary64_ops (crm_slope_lr_m1 crm_drift_example)
                (100000 - dtc_ref_remote_ticks crm_drift_example) = 57"
    by code_simp
  have c_lr': "(57 :: i64) = slope_correction binary64_ops (crm_slope_lr_m1 crm_drift_example)
                (dtc_aligned_remote_ticks binary64_ops crm_drift_example 60000
                 - dtc_ref_remote_ticks crm_drift_example)"
    unfolding ar c_lr ..
  note T = dtc_request_forward [OF published_drift_example_reached tb [symmetric] d
      c_rl [symmetric] c_lr']
  have h: "- 29992 \<le> sint (- 18 :: i64) + sint (57 :: i64)
           \<and> sint (60000 :: i64) + sint (- 18 :: i64) + sint (57 :: i64) + 50000 \<le> 2 ^ 63"
    by simp
  have f: "(60000 :: i64) <s aligned_local_ticks (s_align_request published_drift_example)"
    by (rule T [THEN conjunct2, THEN conjunct2, THEN conjunct2, THEN conjunct2,
          THEN conjunct2, rule_format, OF h])
  show ?thesis
    by (intro conjI)
      (rule crm_drift_example_fitted, rule published_drift_example_reached, rule tb, rule r,
       rule ar, rule c_rl, rule c_lr, rule T [THEN conjunct1],
       rule T [THEN conjunct2, THEN conjunct1], rule f)
qed

text \<open>
  The counterexample to the claim as it stands: the \<open>reversed\<close> report, every list of it
  non-decreasing, passes the unwrapping unchanged and fits perfectly, so the model is
  valid, with both slopes \<open>-2\<close>. From \<open>timer_base = 60000\<close> the projected remote position is
  100000, the aligned one \<open>7 * 20000\<close>, and the projection back, with the correction
  \<open>-2 * 20000\<close>, gives the target \<open>20000 - 8\<close>, which is before \<open>timer_base\<close>.
\<close>

lemma crm_reversed_example_fitted:
  "crm_model (snd (fst (process_ftm_report binary64_ops reversed_t1_example
                          reversed_t2_example reversed_t3_example reversed_t1_example 32
                          (ftm_poll_init, prior_example))))
     = crm_model crm_reversed_example"
proof -
  define s1 where "s1 = crm_add_report reversed_t1_example reversed_t2_example
     reversed_t3_example reversed_t1_example 32 prior_example"
  have ring: "ring_count s1 = 32"
    "ring_remote_ps s1 = replicate 16 4000000000 @ replicate 16 2000000000 @ replicate 96 0"
    "ring_local_ps s1 = replicate 16 0 @ replicate 16 2000000000 @ replicate 96 0"
    unfolding s1_def by code_simp+
  have n: "\<not> ring_count s1 < MIN_REGRESSION_SAMPLES"
    unfolding ring by (simp add: MIN_REGRESSION_SAMPLES_def FTM_FRAMES_PER_SESSION_def)
  have means: "regression_means binary64_ops s1 = (3000000000, 1000000000)"
    unfolding regression_means_def ring by (simp add: binary64_eval)
  have nd: "regression_num_den binary64_ops s1
              = (- 32000000000000000000, 32000000000000000000)"
    unfolding regression_num_den_def means ring by (simp add: binary64_eval)
  have z: "fp_of_i64 binary64_ops 0 = 0" by (simp add: binary64_eval)
  have den: "\<not> fp_eq binary64_ops 32000000000000000000 (fp_of_i64 binary64_ops 0)"
    and num: "\<not> fp_eq binary64_ops (- 32000000000000000000) (fp_of_i64 binary64_ops 0)"
    unfolding z by (simp_all add: binary64_ops_def)
  have lr: "fp_div binary64_ops
              (fp_sub binary64_ops (- 32000000000000000000) 32000000000000000000)
              32000000000000000000 = - 2"
    by code_simp
  have rl: "fp_div binary64_ops
              (fp_sub binary64_ops 32000000000000000000 (- 32000000000000000000))
              (- 32000000000000000000) = - 2"
    by code_simp
  have refs: "fp_to_i64 binary64_ops 1000000000 = 1000000000"
    "fp_to_i64 binary64_ops 3000000000 = 3000000000"
    by (simp_all add: binary64_ops_def double_to_i64_def)
  have sq: "regression_squares binary64_ops s1 (- 2) 1000000000 3000000000
              = (32000000000000000000, 0)"
    unfolding regression_squares_def means ring by (simp add: binary64_eval)
  have r2: "fp_to_float binary64_ops
               (if fp_gt binary64_ops 32000000000000000000 (fp_of_i64 binary64_ops 0)
                then fp_sub binary64_ops (fp_of_i64 binary64_ops 1)
                       (fp_div binary64_ops 0 32000000000000000000)
                else fp_of_i64 binary64_ops 0) = 1"
    by code_simp
  have v: "fp_gt binary64_ops 1 (fp_r_squared_threshold binary64_ops)" by code_simp
  note m = perform_regression_model [OF n nd den num means lr rl refs sq r2]
  have c: "(32 :: u8) \<noteq> 0" by simp
  have "snd (fst (process_ftm_report binary64_ops reversed_t1_example
                    reversed_t2_example reversed_t3_example reversed_t1_example 32
                    (ftm_poll_init, prior_example)))
          = fst (crm_process_ftm_report binary64_ops 1 reversed_t1_example
                   reversed_t2_example reversed_t3_example reversed_t1_example 32
                   prior_example)"
    by (rule process_ftm_report_sorted [OF c example_reports_length(5,6,7,5)
          example_reports_sorted(5,6,7,5)])
  also have "\<dots> = snd (perform_regression binary64_ops s1)"
    unfolding s1_def by (rule crm_process_ftm_report_fst [OF c])
  finally have e: "snd (fst (process_ftm_report binary64_ops reversed_t1_example
                    reversed_t2_example reversed_t3_example reversed_t1_example 32
                    (ftm_poll_init, prior_example)))
          = snd (perform_regression binary64_ops s1)" .
  have f: "crm_model (snd (perform_regression binary64_ops s1))
             = (True, - 2, - 2, 1000000000, 3000000000)"
    unfolding m(2) using v by simp
  have x: "crm_model crm_reversed_example = (True, - 2, - 2, 1000000000, 3000000000)"
    by (simp add: crm_model_def crm_reversed_example_def)
  show ?thesis unfolding e f x ..
qed

theorem dtc_request_backward_counterexample:
  "crm_model (snd (fst (process_ftm_report binary64_ops reversed_t1_example
                          reversed_t2_example reversed_t3_example reversed_t1_example 32
                          (ftm_poll_init, prior_example))))
     = crm_model crm_reversed_example
   \<and> crm_valid crm_reversed_example
   \<and> dtc_publish_request binary64_ops cfg_example 1 crm_reversed_example aligned_example
       = Inr published_reversed_example
   \<and> timer_base_ticks published_reversed_example = 60000
   \<and> aligned_local_ticks (s_align_request published_reversed_example) = 19992
   \<and> \<not> timer_base_ticks published_reversed_example
         <s aligned_local_ticks (s_align_request published_reversed_example)"
  by (intro conjI)
    (rule crm_reversed_example_fitted,
     simp add: crm_reversed_example_def,
     rule published_reversed_example_reached,
     simp_all add: published_reversed_example_def word_sless_alt)

end
